(* ===== verification/Vpn_Prelude.thy ===== *)
theory Vpn_Prelude
  imports Main "HOL-Library.Word" "HOL-Library.Code_Target_Numeral"
begin

unbundle bit_operations_syntax

text \<open>
  Prelude of the kubevpn development.  It holds what every component shares:
  \<^item> the outcome of a Go call: a value, an error value, or a run-time panic;
  \<^item> the two loops the Go code uses over and over: deleting from a slice in place
    while indexing it, and ranging with an early return;
  \<^item> bytes, big-endian numbers and the unlimited integers of \<^verbatim>\<open>math/big\<close>;
  \<^item> nil-able Go maps.
  Facts that the component proofs need everywhere are declared \<open>[simp]\<close> or collected in
  \<open>outcome_simps\<close> and \<open>be_simps\<close>.
\<close>

named_theorems outcome_simps "evaluation of outcomes"
named_theorems be_simps "big-endian numbers"

type_synonym byte = "8 word"

section \<open>Outcomes of Go calls\<close>

text \<open>
  A Go function that returns \<open>(T, error)\<close> either returns a value (\<open>Ret\<close>), returns a non-nil
  error (\<open>Fail\<close>) or panics (\<open>Panic\<close>: an index or a slice bound out of range, a write to a nil
  map).  The type of the errors is left to each component.
\<close>

datatype ('e, 'a) outcome = Ret 'a | Fail 'e | Panic

fun bind_outcome :: "('e, 'a) outcome \<Rightarrow> ('a \<Rightarrow> ('e, 'b) outcome) \<Rightarrow> ('e, 'b) outcome" where
  "bind_outcome (Ret x) k = k x"
| "bind_outcome (Fail e) k = Fail e"
| "bind_outcome Panic k = Panic"

fun map_outcome :: "('a \<Rightarrow> 'b) \<Rightarrow> ('e, 'a) outcome \<Rightarrow> ('e, 'b) outcome" where
  "map_outcome f (Ret x) = Ret (f x)"
| "map_outcome f (Fail e) = Fail e"
| "map_outcome f Panic = Panic"

lemma bind_outcome_Ret_iff:
  "bind_outcome m k = Ret y \<longleftrightarrow> (\<exists>x. m = Ret x \<and> k x = Ret y)"
  by (cases m) auto

lemma bind_outcome_assoc:
  "bind_outcome (bind_outcome m k) h = bind_outcome m (\<lambda>x. bind_outcome (k x) h)"
  by (cases m) auto

lemma map_outcome_Ret_iff: "map_outcome f m = Ret y \<longleftrightarrow> (\<exists>x. m = Ret x \<and> y = f x)"
  by (cases m) auto

lemmas [outcome_simps] = bind_outcome_Ret_iff map_outcome_Ret_iff

text \<open>An index expression \<open>b[i]\<close> and a slice expression \<open>b[i:j]\<close> of Go.\<close>

definition go_index :: "'a list \<Rightarrow> nat \<Rightarrow> ('e, 'a) outcome" where
  "go_index b i = (if i < length b then Ret (b ! i) else Panic)"

definition go_slice :: "'a list \<Rightarrow> nat \<Rightarrow> nat \<Rightarrow> ('e, 'a list) outcome" where
  "go_slice b i j = (if i \<le> j \<and> j \<le> length b then Ret (take (j - i) (drop i b)) else Panic)"

lemma go_index_Ret [simp]: "i < length b \<Longrightarrow> go_index b i = Ret (b ! i)"
  by (simp add: go_index_def)

lemma go_slice_length: "go_slice b i j = Ret s \<Longrightarrow> length s = j - i"
  by (auto simp: go_slice_def split: if_splits)

section \<open>Deleting from a slice while indexing it\<close>

text \<open>
  The loop
  \<^verbatim>\<open>for i := 0; i < len(v); i++ { if p(v[i]) { v = append(v[:i], v[i+1:]...); i--; count++ } }\<close>
  occurs in the NAT table, the envoy configuration, the container lists, the hosts file and the
  pod lists.  \<open>delete_loop\<close> is that loop, with its index and its counter.
\<close>

function delete_loop :: "('a \<Rightarrow> bool) \<Rightarrow> nat \<Rightarrow> 'a list \<Rightarrow> nat \<Rightarrow> 'a list \<times> nat" where
  "delete_loop p i v n =
     (if i < length v
      then if p (v ! i) then delete_loop p i (take i v @ drop (Suc i) v) (Suc n)
           else delete_loop p (Suc i) v n
      else (v, n))"
  by pat_completeness auto
termination
  by (relation "measure (\<lambda>(p, i, v, n). length v - i)") auto

declare delete_loop.simps [simp del]

lemma delete_loop_from:
  "i \<le> length v \<Longrightarrow>
   delete_loop p i v n =
     (take i v @ filter (\<lambda>x. \<not> p x) (drop i v), n + length (filter p (drop i v)))"
proof (induction p i v n rule: delete_loop.induct)
  case (1 p i v n)
  show ?case
  proof (cases "i < length v")
    case True
    have d: "drop i v = v ! i # drop (Suc i) v"
      using True by (simp add: Cons_nth_drop_Suc)
    show ?thesis
    proof (cases "p (v ! i)")
      case pv: True
      have "drop i (take i v @ drop (Suc i) v) = drop (Suc i) v"
        and "take i (take i v @ drop (Suc i) v) = take i v"
        using True by simp_all
      with 1(1) True pv show ?thesis
        by (simp add: delete_loop.simps [of p i v n] d)
    next
      case False
      with 1(2) True show ?thesis
        by (simp add: delete_loop.simps [of p i v n] d take_Suc_conv_app_nth)
    qed
  next
    case False
    with 1(3) have "i = length v" by simp
    then show ?thesis by (simp add: delete_loop.simps [of p "length v" v n])
  qed
qed

lemma delete_loop_filter [simp]:
  "delete_loop p 0 v n = (filter (\<lambda>x. \<not> p x) v, n + length (filter p v))"
  by (simp add: delete_loop_from)

section \<open>Big-endian numbers\<close>

text \<open>
  \<open>be_nat\<close> is \<^verbatim>\<open>big.Int.SetBytes\<close> (and \<^verbatim>\<open>binary.BigEndian.Uint16\<close> on two bytes);
  \<open>be_fixed w n\<close> is the low \<open>w\<close> bytes of \<open>n\<close>, most significant first, as
  \<^verbatim>\<open>binary.BigEndian.PutUint16\<close> writes them; \<open>be_bytes\<close> is \<^verbatim>\<open>big.Int.Bytes\<close>, without leading
  zeros.
\<close>

definition be_nat :: "byte list \<Rightarrow> nat" where
  "be_nat bs = foldl (\<lambda>acc b. acc * 256 + unat b) 0 bs"

fun be_fixed :: "nat \<Rightarrow> nat \<Rightarrow> byte list" where
  "be_fixed 0 n = []"
| "be_fixed (Suc w) n = be_fixed w (n div 256) @ [word_of_nat (n mod 256)]"

function be_bytes :: "nat \<Rightarrow> byte list" where
  "be_bytes n = (if n = 0 then [] else be_bytes (n div 256) @ [word_of_nat (n mod 256)])"
  by pat_completeness auto
termination
  by (relation "measure id") auto

declare be_bytes.simps [simp del]

lemma unat_byte_of_nat [simp]: "n < 256 \<Longrightarrow> unat (word_of_nat n :: byte) = n"
  by (simp add: unat_of_nat)

lemma unat_byte_less [simp]: "unat (b :: byte) < 256"
  using unsigned_less [of b] by simp

lemma byte_of_unat [simp]: "word_of_nat (unat (b :: byte)) = b"
  by simp

lemma be_nat_Nil [be_simps, simp]: "be_nat [] = 0"
  by (simp add: be_nat_def)

lemma be_nat_snoc [be_simps]: "be_nat (bs @ [b]) = be_nat bs * 256 + unat b"
  by (simp add: be_nat_def)

lemma be_nat_append: "be_nat (xs @ ys) = be_nat xs * 256 ^ length ys + be_nat ys"
proof (induction ys rule: rev_induct)
  case Nil
  then show ?case by simp
next
  case (snoc y ys)
  have "be_nat (xs @ ys @ [y]) = be_nat (xs @ ys) * 256 + unat y"
    using be_nat_snoc [of "xs @ ys" y] by simp
  also have "\<dots> = be_nat xs * 256 ^ length (ys @ [y]) + be_nat (ys @ [y])"
    by (simp add: snoc.IH be_nat_snoc algebra_simps)
  finally show ?case .
qed

lemma be_nat_bound: "be_nat bs < 256 ^ length bs"
proof (induction bs rule: rev_induct)
  case Nil
  then show ?case by simp
next
  case (snoc b bs)
  have "be_nat bs * 256 + unat b < Suc (be_nat bs) * 256"
    by simp
  also have "\<dots> \<le> 256 ^ length bs * 256"
    using snoc by (intro mult_le_mono) auto
  finally show ?case by (simp add: be_nat_snoc mult.commute)
qed

lemma length_be_fixed [simp]: "length (be_fixed w n) = w"
  by (induction w arbitrary: n) auto

lemma be_nat_fixed [be_simps]: "be_nat (be_fixed w n) = n mod 256 ^ w"
proof (induction w arbitrary: n)
  case 0
  then show ?case by simp
next
  case (Suc w)
  have "be_nat (be_fixed (Suc w) n) = (n div 256 mod 256 ^ w) * 256 + n mod 256"
    by (simp add: be_nat_snoc Suc.IH)
  also have "\<dots> = n mod (256 * 256 ^ w)"
    by (simp add: mod_mult2_eq mult.commute)
  finally show ?case by simp
qed

lemma be_nat_bytes [be_simps]: "be_nat (be_bytes n) = n"
proof (induction n rule: be_bytes.induct)
  case (1 n)
  show ?case
  proof (cases "n = 0")
    case True
    then show ?thesis by (simp add: be_bytes.simps [of 0])
  next
    case False
    with 1 show ?thesis by (simp add: be_bytes.simps [of n] be_nat_snoc)
  qed
qed

lemma be_fixed_add: "be_fixed (m + n) x = be_fixed m (x div 256 ^ n) @ be_fixed n x"
proof (induction n arbitrary: x)
  case (Suc n)
  show ?case using Suc [of "x div 256"] by (simp add: div_mult2_eq mult.commute)
qed simp

lemma be_fixed_be_nat: "be_fixed (length bs) (be_nat bs) = bs"
proof (induction bs rule: rev_induct)
  case Nil
  then show ?case by simp
next
  case (snoc b bs)
  then show ?case by (simp add: be_nat_snoc)
qed

lemma be_nat_inj: "length xs = length ys \<Longrightarrow> be_nat xs = be_nat ys \<Longrightarrow> xs = ys"
  by (metis be_fixed_be_nat)

section \<open>Go maps\<close>

text \<open>
  A Go map is nil (\<open>None\<close>) or a finite map.  Reading a missing key, or any key of a nil map, gives
  the zero value; writing to a nil map panics.
\<close>

type_synonym ('k, 'v) gomap = "('k \<rightharpoonup> 'v) option"

definition gomap_get :: "('k, 'v) gomap \<Rightarrow> 'k \<Rightarrow> 'v option" where
  "gomap_get m k = (case m of None \<Rightarrow> None | Some f \<Rightarrow> f k)"

definition gomap_set :: "('k, 'v) gomap \<Rightarrow> 'k \<Rightarrow> 'v \<Rightarrow> ('e, ('k, 'v) gomap) outcome" where
  "gomap_set m k v = (case m of None \<Rightarrow> Panic | Some f \<Rightarrow> Ret (Some (f(k \<mapsto> v))))"

lemma gomap_get_simps [simp]:
  "gomap_get None k = None"
  "gomap_get (Some f) k = f k"
  by (simp_all add: gomap_get_def)

lemma gomap_set_simps [simp]:
  "gomap_set None k v = Panic"
  "gomap_set (Some f) k v = Ret (Some (f(k \<mapsto> v)))"
  by (simp_all add: gomap_set_def)

end
