(* ===== verification/Go_Strings.thy ===== *)
theory Go_Strings
  imports Vpn_Prelude
begin

text \<open>
  The parts of Go's \<^verbatim>\<open>strings\<close>, \<^verbatim>\<open>strconv\<close> and \<^verbatim>\<open>fmt\<close> packages the program uses, on byte
  strings (\<open>string\<close> is a list of bytes, as a Go string is): \<^verbatim>\<open>Split\<close> and \<^verbatim>\<open>Join\<close> with their round
  trip, \<^verbatim>\<open>Contains\<close>, \<^verbatim>\<open>LastIndex\<close>, \<^verbatim>\<open>TrimSuffix\<close>, \<^verbatim>\<open>TrimSpace\<close> (ASCII white space), decimal printing
  (\<^verbatim>\<open>Itoa\<close>, \<^verbatim>\<open>%d\<close>, \<^verbatim>\<open>%v\<close>) and \<^verbatim>\<open>Atoi\<close> with its range errors.
\<close>

named_theorems str_simps "evaluation of string functions"

section \<open>Searching and splitting\<close>

fun starts_with :: "string \<Rightarrow> string \<Rightarrow> bool" where
  "starts_with s [] = True"
| "starts_with [] (c # cs) = False"
| "starts_with (d # s) (c # cs) = (c = d \<and> starts_with s cs)"

fun str_contains :: "string \<Rightarrow> string \<Rightarrow> bool" where
  "str_contains [] sub = (sub = [])"
| "str_contains (c # s) sub = (starts_with (c # s) sub \<or> str_contains s sub)"

text \<open>\<^verbatim>\<open>strings.LastIndex\<close>: the position of the last occurrence, \<open>None\<close> for \<open>-1\<close>.\<close>

fun last_index :: "string \<Rightarrow> string \<Rightarrow> nat option" where
  "last_index [] sub = (if sub = [] then Some 0 else None)"
| "last_index (c # s) sub =
     (case last_index s sub of
        Some i \<Rightarrow> Some (Suc i)
      | None \<Rightarrow> if starts_with (c # s) sub then Some 0 else None)"

text \<open>\<^verbatim>\<open>strings.Split\<close> with a separator of one byte: always at least one part.\<close>

fun split_on :: "char \<Rightarrow> string \<Rightarrow> string list" where
  "split_on d [] = [[]]"
| "split_on d (c # s) =
     (if c = d then [] # split_on d s
      else (case split_on d s of [] \<Rightarrow> [[c]] | w # ws \<Rightarrow> (c # w) # ws))"

fun join :: "string \<Rightarrow> string list \<Rightarrow> string" where
  "join sep [] = []"
| "join sep [w] = w"
| "join sep (w # v # ws) = w @ sep @ join sep (v # ws)"

definition ends_with :: "string \<Rightarrow> string \<Rightarrow> bool" where
  "ends_with s suf = starts_with (rev s) (rev suf)"

definition trim_suffix :: "string \<Rightarrow> string \<Rightarrow> string" where
  "trim_suffix s suf = (if ends_with s suf then take (length s - length suf) s else s)"

definition is_space :: "char \<Rightarrow> bool" where
  "is_space c = (of_char c \<in> {9, 10, 11, 12, 13, 32 :: nat})"

definition trim_space :: "string \<Rightarrow> string" where
  "trim_space s = rev (dropWhile is_space (rev (dropWhile is_space s)))"

definition trim_char :: "char \<Rightarrow> string \<Rightarrow> string" where
  "trim_char d s = rev (dropWhile (\<lambda>c. c = d) (rev (dropWhile (\<lambda>c. c = d) s)))"

definition trim_right :: "char \<Rightarrow> string \<Rightarrow> string" where
  "trim_right d s = rev (dropWhile (\<lambda>c. c = d) (rev s))"

definition count_char :: "char \<Rightarrow> string \<Rightarrow> nat" where
  "count_char d s = length (filter (\<lambda>c. c = d) s)"

lemma starts_with_iff: "starts_with s p \<longleftrightarrow> (\<exists>t. s = p @ t)"
  by (induction s p rule: starts_with.induct) auto

lemma starts_with_append [simp]: "starts_with (p @ t) p"
  by (auto simp: starts_with_iff)

lemma str_contains_iff: "str_contains s sub \<longleftrightarrow> (\<exists>p q. s = p @ sub @ q)"
proof (induction s)
  case Nil
  then show ?case by auto
next
  case (Cons c s)
  have "(\<exists>p q. c # s = p @ sub @ q) \<longleftrightarrow> (\<exists>q. c # s = sub @ q) \<or> (\<exists>p q. s = p @ sub @ q)"
    by (metis append_Cons append_Nil list.exhaust list.inject)
  with Cons show ?case by (simp add: starts_with_iff)
qed

lemma str_contains_mid [simp]: "str_contains (p @ sub @ q) sub"
  by (auto simp: str_contains_iff)

lemma last_index_char_None: "last_index s [c] = None \<longleftrightarrow> c \<notin> set s"
  by (induction s) (auto split: option.splits)

lemma last_index_char_append: "c \<notin> set t \<Longrightarrow> last_index (s @ c # t) [c] = Some (length s)"
proof (induction s)
  case Nil
  then have "last_index t [c] = None" by (simp add: last_index_char_None)
  then show ?case by simp
next
  case (Cons a s)
  then show ?case by simp
qed

lemma split_on_not_Nil [simp]: "split_on d s \<noteq> []"
  by (induction s) (auto split: list.splits)

lemma split_on_no_sep: "d \<notin> set w \<Longrightarrow> split_on d w = [w]"
  by (induction w) auto

lemma split_on_append_sep: "d \<notin> set w \<Longrightarrow> split_on d (w @ d # s) = w # split_on d s"
  by (induction w) auto

lemma split_on_join:
  "ws \<noteq> [] \<Longrightarrow> \<forall>w\<in>set ws. d \<notin> set w \<Longrightarrow> split_on d (join [d] ws) = ws"
proof (induction ws)
  case Nil
  then show ?case by simp
next
  case (Cons w ws)
  then show ?case
    by (cases ws) (simp_all add: split_on_no_sep split_on_append_sep)
qed

lemma join_split_on: "join [d] (split_on d s) = s"
proof (induction s)
  case Nil
  then show ?case by simp
next
  case (Cons c s)
  obtain w ws where s: "split_on d s = w # ws"
    by (cases "split_on d s") auto
  show ?case
  proof (cases ws)
    case Nil
    with Cons s show ?thesis by auto
  next
    case (Cons v vs)
    with Cons.IH s show ?thesis by auto
  qed
qed

lemma split_on_parts: "w \<in> set (split_on d s) \<Longrightarrow> d \<notin> set w"
proof (induction s arbitrary: w)
  case Nil
  then show ?case by simp
next
  case (Cons c s)
  then show ?case by (auto split: if_splits list.splits)
qed

lemma join_Cons: "ws \<noteq> [] \<Longrightarrow> join sep (w # ws) = w @ sep @ join sep ws"
  by (cases ws) auto

lemma ends_with_iff: "ends_with s suf \<longleftrightarrow> (\<exists>t. s = t @ suf)"
proof
  assume "ends_with s suf"
  then obtain t where "rev s = rev suf @ t"
    by (auto simp: ends_with_def starts_with_iff)
  then have "s = rev t @ suf"
    by (metis rev_append rev_rev_ident)
  then show "\<exists>t. s = t @ suf" by blast
next
  assume "\<exists>t. s = t @ suf"
  then show "ends_with s suf" by (auto simp: ends_with_def starts_with_iff)
qed

lemma trim_suffix_append [simp]: "trim_suffix (s @ suf) suf = s"
  by (auto simp: trim_suffix_def ends_with_iff)

section \<open>Decimal numbers\<close>

definition digit_char :: "nat \<Rightarrow> char" where
  "digit_char d = char_of (48 + d)"

definition digit_val :: "char \<Rightarrow> nat option" where
  "digit_val c = (let n = of_char c in if 48 \<le> n \<and> n \<le> (57 :: nat) then Some (n - 48) else None)"

function show_nat :: "nat \<Rightarrow> string" where
  "show_nat n = (if n < 10 then [digit_char n] else show_nat (n div 10) @ [digit_char (n mod 10)])"
  by pat_completeness auto
termination
  by (relation "measure id") auto

declare show_nat.simps [simp del]

text \<open>\<^verbatim>\<open>strconv.Itoa\<close> on a Go \<open>int\<close>.\<close>

definition show_int :: "int \<Rightarrow> string" where
  "show_int i = (if i < 0 then CHR ''-'' # show_nat (nat (- i)) else show_nat (nat i))"

text \<open>
  \<^verbatim>\<open>strconv.ParseUint\<close> with base 10 and 64 bits: it goes over the digits and stops at the first
  byte that is not one (a syntax error) or at the first digit that leaves 64 bits (a range
  error, with the largest value).
\<close>

datatype num_err = ErrSyntax | ErrRange

fun parse_uint_from :: "nat \<Rightarrow> string \<Rightarrow> nat \<times> num_err option" where
  "parse_uint_from n [] = (n, None)"
| "parse_uint_from n (c # cs) =
     (case digit_val c of
        None \<Rightarrow> (0, Some ErrSyntax)
      | Some d \<Rightarrow>
          if n * 10 + d \<ge> 2 ^ 64 then (2 ^ 64 - 1, Some ErrRange)
          else parse_uint_from (n * 10 + d) cs)"

definition parse_uint :: "string \<Rightarrow> nat \<times> num_err option" where
  "parse_uint s = (if s = [] then (0, Some ErrSyntax) else parse_uint_from 0 s)"

text \<open>\<^verbatim>\<open>strconv.Atoi\<close>: the value Go returns and its error, both used by the callers.\<close>

definition atoi :: "string \<Rightarrow> int \<times> num_err option" where
  "atoi s =
     (case s of
        [] \<Rightarrow> (0, Some ErrSyntax)
      | c # cs \<Rightarrow>
          let neg = (c = CHR ''-'');
              body = (if neg \<or> c = CHR ''+'' then cs else s)
          in case parse_uint body of
               (_, Some ErrSyntax) \<Rightarrow> (0, Some ErrSyntax)
             | (un, e) \<Rightarrow>
                 if \<not> neg \<and> un \<ge> 2 ^ 63 then (2 ^ 63 - 1, Some ErrRange)
                 else if neg \<and> un > 2 ^ 63 then (- (2 ^ 63), Some ErrRange)
                 else (if neg then - int un else int un, e))"

text \<open>The table the kernel evaluates a digit with.\<close>

lemma digit_char_code [code]:
  "digit_char d =
     (if d = 0 then CHR ''0'' else if d = 1 then CHR ''1'' else if d = 2 then CHR ''2''
      else if d = 3 then CHR ''3'' else if d = 4 then CHR ''4'' else if d = 5 then CHR ''5''
      else if d = 6 then CHR ''6'' else if d = 7 then CHR ''7'' else if d = 8 then CHR ''8''
      else if d = 9 then CHR ''9'' else char_of (48 + d))"
  by (simp add: digit_char_def char_of_def bit_0)

lemma digit_val_char [simp]: "d < 10 \<Longrightarrow> digit_val (digit_char d) = Some d"
  by (simp add: digit_val_def digit_char_def)

lemma digit_char_inj: "d < 10 \<Longrightarrow> e < 10 \<Longrightarrow> digit_char d = digit_char e \<Longrightarrow> d = e"
  by (metis digit_val_char option.inject)

lemma show_nat_digits: "c \<in> set (show_nat n) \<Longrightarrow> \<exists>d<10. c = digit_char d"
proof (induction n rule: show_nat.induct)
  case (1 n)
  have m: "n mod 10 < 10" by simp
  show ?case
  proof (cases "n < 10")
    case True
    with 1(2) show ?thesis by (auto simp: show_nat.simps [of n])
  next
    case False
    with 1(2) have "c \<in> set (show_nat (n div 10)) \<or> c = digit_char (n mod 10)"
      by (auto simp add: show_nat.simps [of n])
    with 1(1) False m show ?thesis by blast
  qed
qed

lemma show_nat_not_Nil [simp]: "show_nat n \<noteq> []" "[] \<noteq> show_nat n"
  by (simp_all add: show_nat.simps [of n])

lemma show_nat_no_char: "digit_val c = None \<Longrightarrow> c \<notin> set (show_nat n)"
  using show_nat_digits by fastforce

lemma parse_uint_from_append:
  "parse_uint_from n (xs @ ys) =
     (case parse_uint_from n xs of (m, None) \<Rightarrow> parse_uint_from m ys | r \<Rightarrow> r)"
  by (induction xs arbitrary: n) (auto split: option.splits)

lemma parse_uint_from_show: "n < 2 ^ 64 \<Longrightarrow> parse_uint_from 0 (show_nat n) = (n, None)"
proof (induction n rule: show_nat.induct)
  case (1 n)
  show ?case
  proof (cases "n < 10")
    case True
    then show ?thesis by (simp add: show_nat.simps [of n])
  next
    case False
    have "n div 10 * 10 + n mod 10 = n" by simp
    with 1 False show ?thesis
      by (simp add: show_nat.simps [of n] parse_uint_from_append)
  qed
qed

lemma parse_uint_show: "n < 2 ^ 64 \<Longrightarrow> parse_uint (show_nat n) = (n, None)"
  by (simp add: parse_uint_def parse_uint_from_show)

lemma show_nat_inj: "show_nat m = show_nat n \<Longrightarrow> m = n"
proof (induction m arbitrary: n rule: less_induct)
  case (less m)
  show ?case
  proof (cases "m < 10 \<or> n < 10")
    case True
    with less.prems show ?thesis
      by (auto simp: show_nat.simps [of m] show_nat.simps [of n] digit_char_inj split: if_splits)
  next
    case False
    with less.prems have eq: "show_nat (m div 10) = show_nat (n div 10)"
      and last: "digit_char (m mod 10) = digit_char (n mod 10)"
      by (simp_all add: show_nat.simps [of m] show_nat.simps [of n])
    from False have "m div 10 < m" by simp
    then have "m div 10 = n div 10" using eq by (rule less.IH)
    moreover from last have "m mod 10 = n mod 10" by (simp add: digit_char_inj)
    ultimately show ?thesis by (metis div_mult_mod_eq)
  qed
qed

lemma show_nat_hd_not_sign: "hd (show_nat n) \<noteq> CHR ''-''" "hd (show_nat n) \<noteq> CHR ''+''"
proof -
  have "hd (show_nat n) \<in> set (show_nat n)" by simp
  then show "hd (show_nat n) \<noteq> CHR ''-''" "hd (show_nat n) \<noteq> CHR ''+''"
    using show_nat_no_char [of "CHR ''-''" n] show_nat_no_char [of "CHR ''+''" n]
    by (force simp: digit_val_def)+
qed

text \<open>Printing a Go \<open>int\<close> and reading it back gives the same value, without an error.\<close>

lemma atoi_show_int:
  assumes "- (2 ^ 63) \<le> i" and "i < 2 ^ 63"
  shows "atoi (show_int i) = (i, None)"
proof (cases "i < 0")
  case True
  have "parse_uint (show_nat (nat (- i))) = (nat (- i), None)"
    by (rule parse_uint_show) (use assms in auto)
  with True assms show ?thesis by (simp add: atoi_def show_int_def Let_def)
next
  case False
  obtain c cs where s: "show_nat (nat i) = c # cs"
    by (cases "show_nat (nat i)") auto
  have c: "c \<noteq> CHR ''-''" "c \<noteq> CHR ''+''"
    using show_nat_hd_not_sign [of "nat i"] s by auto
  have "parse_uint (c # cs) = (nat i, None)"
    using parse_uint_show [of "nat i"] assms s by auto
  with False assms c s show ?thesis by (simp add: atoi_def show_int_def Let_def)
qed

end
