(* ===== verification/Net_IP.thy ===== *)
theory Net_IP
  imports Go_Strings
begin

text \<open>
  The part of Go's \<^verbatim>\<open>net\<close> package the program uses (\<^verbatim>\<open>net.IP\<close>, \<^verbatim>\<open>net.IPMask\<close>, \<^verbatim>\<open>net.IPNet\<close>,
  \<^verbatim>\<open>ParseIP\<close>, \<^verbatim>\<open>ParseCIDR\<close>), the address helpers of \<^verbatim>\<open>src/pkg/util/net.go\<close> and the address constants of
  \<^verbatim>\<open>src/pkg/config/config.go\<close>.

  A \<open>net.IP\<close> is a byte slice: four bytes, sixteen bytes, or nil, which is the empty list here.  An
  IPv4 address also has a sixteen-byte form, with the prefix \<open>v4InV6Prefix\<close>; the functions below
  treat both forms the way Go does.
\<close>

type_synonym ip = "byte list"
type_synonym ipmask = "byte list"

record ipnet =
  net_IP :: ip
  net_Mask :: ipmask

named_theorems ip_defs "definitions of the net package"

section \<open>Forms of an address\<close>

definition v4InV6Prefix :: "byte list" where
  [ip_defs]: "v4InV6Prefix = [0, 0, 0, 0, 0, 0, 0, 0, 0, 0, 255, 255]"

definition IPv4 :: "byte \<Rightarrow> byte \<Rightarrow> byte \<Rightarrow> byte \<Rightarrow> ip" where
  [ip_defs]: "IPv4 a b c d = v4InV6Prefix @ [a, b, c, d]"

definition To4 :: "ip \<Rightarrow> ip" where
  [ip_defs]: "To4 p =
     (if length p = 4 then p
      else if length p = 16 \<and> take 12 p = v4InV6Prefix then drop 12 p else [])"

definition To16 :: "ip \<Rightarrow> ip" where
  [ip_defs]: "To16 p =
     (if length p = 4 then v4InV6Prefix @ p else if length p = 16 then p else [])"

definition ip_Equal :: "ip \<Rightarrow> ip \<Rightarrow> bool" where
  [ip_defs]: "ip_Equal p x =
     (if length p = length x then p = x
      else if length p = 4 \<and> length x = 16 then take 12 x = v4InV6Prefix \<and> p = drop 12 x
      else if length p = 16 \<and> length x = 4 then take 12 p = v4InV6Prefix \<and> drop 12 p = x
      else False)"

lemma To16_length: "To16 p \<noteq> [] \<Longrightarrow> length (To16 p) = 16"
  by (auto simp: ip_defs split: if_splits)

lemma To4_length: "To4 p \<noteq> [] \<Longrightarrow> length (To4 p) = 4"
  by (auto simp: ip_defs split: if_splits)

lemma ip_Equal_refl [simp]: "ip_Equal p p"
  by (simp add: ip_Equal_def)

text \<open>\<open>Equal\<close> compares the sixteen-byte forms, for every address that has one.\<close>

lemma ip_Equal_iff_To16:
  assumes "length p \<in> {4, 16}" and "length x \<in> {4, 16}"
  shows "ip_Equal p x \<longleftrightarrow> To16 p = To16 x"
proof -
  have len12: "length v4InV6Prefix = 12" by (simp add: v4InV6Prefix_def)
  have split: "v4InV6Prefix @ r = q \<longleftrightarrow> take 12 q = v4InV6Prefix \<and> r = drop 12 q" for q r
    using len12 by (auto simp: append_eq_conv_conj)
  from assms consider "length p = length x" | "length p = 4" "length x = 16"
    | "length p = 16" "length x = 4"
    by auto
  then show ?thesis
  proof cases
    case 1
    with assms show ?thesis by (auto simp: ip_Equal_def To16_def)
  next
    case 2
    then show ?thesis by (simp add: ip_Equal_def To16_def split)
  next
    case 3
    then show ?thesis using split [of x p] by (auto simp: ip_Equal_def To16_def)
  qed
qed

section \<open>Masks and networks\<close>

definition apply_mask :: "byte list \<Rightarrow> byte list \<Rightarrow> byte list" where
  "apply_mask p m = map2 (\<lambda>a b. a AND b) p m"

definition ip_Mask :: "ip \<Rightarrow> ipmask \<Rightarrow> ip" where
  "ip_Mask p m =
     (let m' = (if length m = 16 \<and> length p = 4 \<and> take 12 m = replicate 12 255 then drop 12 m else m);
          p' = (if length m' = 4 \<and> length p = 16 \<and> take 12 p = v4InV6Prefix then drop 12 p else p)
      in if length p' \<noteq> length m' then [] else apply_mask p' m')"

fun mask_bytes :: "nat \<Rightarrow> nat \<Rightarrow> ipmask" where
  "mask_bytes 0 n = []"
| "mask_bytes (Suc l) n =
     (if 8 \<le> n then 255 # mask_bytes l (n - 8) else NOT (drop_bit n 255) # mask_bytes l 0)"

definition CIDRMask :: "nat \<Rightarrow> nat \<Rightarrow> ipmask" where
  "CIDRMask ones bits =
     (if bits \<noteq> 32 \<and> bits \<noteq> 128 then [] else if bits < ones then []
      else mask_bytes (bits div 8) ones)"

text \<open>\<open>simpleMaskLength\<close>: the number of leading ones, or \<open>None\<close> (Go's \<open>-1\<close>) when a one follows a zero.\<close>

fun leading_ones :: "byte \<Rightarrow> nat \<Rightarrow> nat" where
  "leading_ones v 0 = 0"
| "leading_ones v (Suc k) = (if bit v 7 then Suc (leading_ones (push_bit 1 v) k) else 0)"

fun simpleMaskLength :: "ipmask \<Rightarrow> nat option" where
  "simpleMaskLength [] = Some 0"
| "simpleMaskLength (v # m) =
     (if v = 255 then map_option (\<lambda>n. n + 8) (simpleMaskLength m)
      else let k = leading_ones v 8
           in if push_bit k v \<noteq> 0 then None
              else if \<exists>x\<in>set m. x \<noteq> 0 then None else Some k)"

definition mask_Size :: "ipmask \<Rightarrow> nat \<times> nat" where
  "mask_Size m = (case simpleMaskLength m of None \<Rightarrow> (0, 0) | Some l \<Rightarrow> (l, length m * 8))"

definition networkNumberAndMask :: "ipnet \<Rightarrow> (ip \<times> ipmask) option" where
  "networkNumberAndMask n =
     (let p = (if To4 (net_IP n) \<noteq> [] then To4 (net_IP n) else net_IP n); m = net_Mask n in
      if To4 (net_IP n) = [] \<and> length p \<noteq> 16 then None
      else if length m = 4 then (if length p \<noteq> 4 then None else Some (p, m))
      else if length m = 16 then Some (p, if length p = 4 then drop 12 m else m)
      else None)"

text \<open>
  \<open>IPNet.Contains\<close>: a network whose number and mask do not fit has the nil number, which matches
  only the nil address.
\<close>

definition net_Contains :: "ipnet \<Rightarrow> ip \<Rightarrow> bool" where
  "net_Contains n p =
     (let q = (if To4 p \<noteq> [] then To4 p else p) in
      case networkNumberAndMask n of
        None \<Rightarrow> q = []
      | Some (nn, m) \<Rightarrow> length q = length nn \<and> apply_mask nn m = apply_mask q m)"

lemma length_mask_bytes [simp]: "length (mask_bytes l n) = l"
  by (induction l n rule: mask_bytes.induct) auto

lemma mask_bytes_0 [simp]: "mask_bytes l 0 = replicate l 0"
proof (induction l)
  case 0
  then show ?case by simp
next
  case (Suc l)
  have "NOT (255 :: byte) = 0" by simp
  with Suc show ?case by simp
qed

section \<open>Printing\<close>

definition hex_digit :: "nat \<Rightarrow> char" where
  "hex_digit d = ''0123456789abcdef'' ! d"

function show_hex :: "nat \<Rightarrow> string" where
  "show_hex n = (if n < 16 then [hex_digit n] else show_hex (n div 16) @ [hex_digit (n mod 16)])"
  by pat_completeness auto
termination
  by (relation "measure id") auto

declare show_hex.simps [simp del]

definition hex_string :: "byte list \<Rightarrow> string" where
  "hex_string bs = concat (map (\<lambda>b. [hex_digit (unat b div 16), hex_digit (unat b mod 16)]) bs)"

definition show_ip4 :: "ip \<Rightarrow> string" where
  "show_ip4 p = join ''.'' (map (\<lambda>b. show_nat (unat b)) p)"

text \<open>The eight groups of an IPv6 address and the run of zeros its text leaves out.\<close>

fun groups16 :: "byte list \<Rightarrow> nat list" where
  "groups16 (a # b # bs) = (unat a * 256 + unat b) # groups16 bs"
| "groups16 _ = []"

definition zero_run :: "nat list \<Rightarrow> nat \<Rightarrow> nat" where
  "zero_run gs i = length (takeWhile (\<lambda>g. g = 0) (drop i gs))"

definition longest_zero_run :: "nat list \<Rightarrow> nat \<times> nat" where
  "longest_zero_run gs =
     fold (\<lambda>i (zs, ze). let l = zero_run gs i in
             if 2 \<le> l \<and> ze - zs < l then (i, i + l) else (zs, ze)) [0..<8] (255, 255)"

definition show_ip6 :: "ip \<Rightarrow> string" where
  "show_ip6 p =
     (let gs = groups16 p; (zs, ze) = longest_zero_run gs in
      if zs < 8
      then join '':'' (map show_hex (take zs gs)) @ ''::'' @ join '':'' (map show_hex (drop ze gs))
      else join '':'' (map show_hex gs))"

definition ip_String :: "ip \<Rightarrow> string" where
  "ip_String p =
     (if p = [] then ''<nil>''
      else if length p \<noteq> 4 \<and> length p \<noteq> 16 then ''?'' @ hex_string p
      else if To4 p \<noteq> [] then show_ip4 (To4 p) else show_ip6 p)"

definition ipnet_String :: "ipnet \<Rightarrow> string" where
  "ipnet_String n =
     (case networkNumberAndMask n of
        None \<Rightarrow> ''<nil>''
      | Some (nn, m) \<Rightarrow>
          (case simpleMaskLength m of
             None \<Rightarrow> ip_String nn @ ''/'' @ hex_string m
           | Some l \<Rightarrow> ip_String nn @ ''/'' @ show_nat l))"

section \<open>Parsing\<close>

definition hex_val :: "char \<Rightarrow> nat option" where
  "hex_val c =
     (let n = of_char c in
      if 48 \<le> n \<and> n \<le> (57 :: nat) then Some (n - 48)
      else if 97 \<le> n \<and> n \<le> 102 then Some (n - 87)
      else if 65 \<le> n \<and> n \<le> 70 then Some (n - 55) else None)"

text \<open>\<open>dtoi\<close> and \<open>xtoi\<close>: the number at the start of the string and how many bytes it takes.\<close>

fun scan_num :: "(char \<Rightarrow> nat option) \<Rightarrow> nat \<Rightarrow> nat \<Rightarrow> nat \<Rightarrow> string \<Rightarrow> (nat \<times> nat) option" where
  "scan_num val base n i [] = (if i = 0 then None else Some (n, i))"
| "scan_num val base n i (c # cs) =
     (case val c of
        None \<Rightarrow> if i = 0 then None else Some (n, i)
      | Some d \<Rightarrow>
          if n * base + d \<ge> 0xFFFFFF then None else scan_num val base (n * base + d) (Suc i) cs)"

definition dtoi :: "string \<Rightarrow> (nat \<times> nat) option" where
  "dtoi s = scan_num digit_val 10 0 0 s"

definition xtoi :: "string \<Rightarrow> (nat \<times> nat) option" where
  "xtoi s = scan_num hex_val 16 0 0 s"

fun parse4_from :: "nat \<Rightarrow> byte list \<Rightarrow> string \<Rightarrow> byte list option" where
  "parse4_from 0 acc s = (if s = [] then Some acc else None)"
| "parse4_from (Suc k) acc s =
     (if s = [] then None
      else if acc \<noteq> [] \<and> hd s \<noteq> CHR ''.'' then None
      else let s' = (if acc \<noteq> [] then tl s else s) in
        case dtoi s' of
          None \<Rightarrow> None
        | Some (n, c) \<Rightarrow>
            if n > 255 then None
            else if c > 1 \<and> hd s' = CHR ''0'' then None
            else parse4_from k (acc @ [word_of_nat n]) (drop c s'))"

definition parseIPv4 :: "string \<Rightarrow> ip option" where
  "parseIPv4 s = map_option (\<lambda>p. v4InV6Prefix @ p) (parse4_from 4 [] s)"

function parse6_loop :: "byte list \<Rightarrow> nat option \<Rightarrow> string \<Rightarrow> (byte list \<times> nat option \<times> string) option"
where
  "parse6_loop acc ell s =
     (if length acc < 16 then
        (case xtoi s of
           None \<Rightarrow> None
         | Some (n, c) \<Rightarrow>
             if n > 0xFFFF then None
             else if c < length s \<and> s ! c = CHR ''.'' then
               (if ell = None \<and> length acc \<noteq> 12 then None
                else if length acc + 4 > 16 then None
                else (case parseIPv4 s of
                        None \<Rightarrow> None
                      | Some p \<Rightarrow> Some (acc @ drop 12 p, ell, [])))
             else
               (let acc' = acc @ [word_of_nat (n div 256), word_of_nat (n mod 256)]; s' = drop c s in
                if s' = [] then Some (acc', ell, [])
                else if hd s' \<noteq> CHR '':'' \<or> length s' = 1 then None
                else if hd (tl s') = CHR '':'' then
                  (if ell \<noteq> None then None
                   else if tl (tl s') = [] then Some (acc', Some (length acc'), [])
                   else parse6_loop acc' (Some (length acc')) (tl (tl s')))
                else parse6_loop acc' ell (tl s')))
      else Some (acc, ell, s))"
  by pat_completeness auto
termination
  by (relation "measure (\<lambda>(acc, ell, s). 16 - length acc)") auto

declare parse6_loop.simps [simp del]

definition parseIPv6 :: "string \<Rightarrow> ip option" where
  "parseIPv6 s =
     (let lead = starts_with s ''::''; s0 = (if lead then drop 2 s else s) in
      if lead \<and> s0 = [] then Some (replicate 16 0)
      else case parse6_loop [] (if lead then Some 0 else None) s0 of
             None \<Rightarrow> None
           | Some (acc, ell, rest) \<Rightarrow>
               if rest \<noteq> [] then None
               else if length acc < 16 then
                 (case ell of
                    None \<Rightarrow> None
                  | Some e \<Rightarrow> Some (take e acc @ replicate (16 - length acc) 0 @ drop e acc))
               else if ell \<noteq> None then None else Some acc)"

text \<open>\<open>ParseIP\<close> decides on the first dot or colon of the text; nil is \<open>None\<close>.\<close>

fun first_sep :: "string \<Rightarrow> char option" where
  "first_sep [] = None"
| "first_sep (c # cs) = (if c = CHR ''.'' \<or> c = CHR '':'' then Some c else first_sep cs)"

definition ParseIP :: "string \<Rightarrow> ip option" where
  "ParseIP s =
     (case first_sep s of
        None \<Rightarrow> None
      | Some c \<Rightarrow> if c = CHR ''.'' then parseIPv4 s else parseIPv6 s)"

text \<open>\<open>ParseCIDR\<close>: the address and the masked network, \<open>None\<close> for an error.\<close>

definition ParseCIDR :: "string \<Rightarrow> (ip \<times> ipnet) option" where
  "ParseCIDR s =
     (if CHR ''/'' \<notin> set s then None
      else let addr = takeWhile (\<lambda>c. c \<noteq> CHR ''/'') s;
               mask = tl (dropWhile (\<lambda>c. c \<noteq> CHR ''/'') s);
               v4 = parseIPv4 addr;
               iplen = (if v4 \<noteq> None then 4 else 16);
               parsed = (if v4 \<noteq> None then v4 else parseIPv6 addr)
           in case (parsed, dtoi mask) of
                (Some p, Some (n, i)) \<Rightarrow>
                  if i \<noteq> length mask \<or> n > 8 * iplen then None
                  else let m = CIDRMask n (8 * iplen)
                       in Some (p, \<lparr>net_IP = ip_Mask p m, net_Mask = m\<rparr>)
              | _ \<Rightarrow> None)"

section \<open>Printing and parsing IPv4 addresses\<close>

lemma show_nat_byte:
  assumes "n < 256"
  shows "show_nat n =
    (if n < 10 then [digit_char n]
     else if n < 100 then [digit_char (n div 10), digit_char (n mod 10)]
     else [digit_char (n div 100), digit_char (n div 10 mod 10), digit_char (n mod 10)])"
proof -
  have "n div 10 div 10 = n div 100" by (simp add: div_mult2_eq [symmetric])
  moreover have "n < 100 \<longleftrightarrow> n div 10 < 10" by auto
  moreover have "n div 100 < 10" using assms by simp
  ultimately show ?thesis
    by (simp add: show_nat.simps [of n] show_nat.simps [of "n div 10"]
        show_nat.simps [of "n div 100"])
qed

lemma digit_char_eq_0: "d < 10 \<Longrightarrow> digit_char d = CHR ''0'' \<longleftrightarrow> d = 0"
proof -
  have "digit_char 0 = CHR ''0''" by (simp add: digit_char_code)
  then show "d < 10 \<Longrightarrow> digit_char d = CHR ''0'' \<longleftrightarrow> d = 0"
    using digit_char_inj [of d 0] by auto
qed

lemma dtoi_show_nat:
  assumes "n < 256" and "rest = [] \<or> digit_val (hd rest) = None"
  shows "dtoi (show_nat n @ rest) = Some (n, length (show_nat n))"
proof -
  have stop: "scan_num digit_val 10 m (Suc i) rest = Some (m, Suc i)" for m i
    using assms(2) by (cases rest) auto
  have "n div 100 * 10 + n div 10 mod 10 = n div 10"
    using div_mult_mod_eq [of "n div 10" 10] by (simp add: div_mult2_eq [symmetric])
  then have "(n div 100 * 10 + n div 10 mod 10) * 10 + n mod 10 = n"
    by simp
  moreover have "n div 10 * 10 + n mod 10 = n" "n div 100 < 10"
    using assms by simp_all
  ultimately show ?thesis
    using assms(1) by (auto simp: dtoi_def show_nat_byte stop)
qed

lemma show_nat_no_leading_0:
  assumes "n < 256" and "1 < length (show_nat n)"
  shows "hd (show_nat n) \<noteq> CHR ''0''"
proof -
  have "\<not> n < 10" using assms by (auto simp: show_nat_byte)
  moreover have "n < 100 \<Longrightarrow> n div 10 < 10" "n div 100 < 10" using assms(1) by auto
  ultimately show ?thesis
    using assms(1) by (simp add: show_nat_byte digit_char_eq_0 div_greater_zero_iff)
qed

lemma parse4_step:
  assumes "rest = [] \<or> hd rest = CHR ''.''"
  shows "parse4_from (Suc k) acc ((if acc = [] then [] else ''.'') @ show_nat (unat b) @ rest)
    = parse4_from k (acc @ [b]) rest"
proof -
  have "dtoi (show_nat (unat b) @ rest) = Some (unat b, length (show_nat (unat b)))"
    using assms by (intro dtoi_show_nat) (auto simp: digit_val_def)
  moreover have "\<not> (1 < length (show_nat (unat b)) \<and> hd (show_nat (unat b) @ rest) = CHR ''0'')"
    using show_nat_no_leading_0 [of "unat b"] by auto
  moreover have "\<not> unat b > 255"
    using unat_byte_less [of b] by linarith
  ultimately show ?thesis by auto
qed

text \<open>\<open>ParseIP\<close> reads back what \<open>String\<close> prints for an IPv4 address, in its sixteen-byte form.\<close>

lemma parse4_show_ip4: "parse4_from 4 [] (show_ip4 [a, b, c, d]) = Some [a, b, c, d]"
proof -
  define A B C D where "A = show_nat (unat a)" and "B = show_nat (unat b)"
    and "C = show_nat (unat c)" and "D = show_nat (unat d)"
  have "parse4_from 4 [] (show_ip4 [a, b, c, d])
      = parse4_from (Suc 3) [] (A @ ''.'' @ B @ ''.'' @ C @ ''.'' @ D)"
    by (simp add: show_ip4_def A_def B_def C_def D_def eval_nat_numeral)
  also have "\<dots> = parse4_from (Suc 2) [a] (''.'' @ B @ ''.'' @ C @ ''.'' @ D)"
    using parse4_step [of "''.'' @ B @ ''.'' @ C @ ''.'' @ D" 3 "[]" a]
    by (simp add: A_def eval_nat_numeral)
  also have "\<dots> = parse4_from (Suc 1) [a, b] (''.'' @ C @ ''.'' @ D)"
    using parse4_step [of "''.'' @ C @ ''.'' @ D" 2 "[a]" b]
    by (simp add: B_def eval_nat_numeral)
  also have "\<dots> = parse4_from (Suc 0) [a, b, c] (''.'' @ D)"
    using parse4_step [of "''.'' @ D" 1 "[a, b]" c] by (simp add: C_def eval_nat_numeral)
  also have "\<dots> = Some [a, b, c, d]"
    using parse4_step [of "[]" 0 "[a, b, c]" d] by (simp add: D_def)
  finally show ?thesis .
qed

section \<open>Packets and configured addresses\<close>

text \<open>\<^verbatim>\<open>util.IsIPv4\<close> and \<^verbatim>\<open>util.IsIPv6\<close> read the version nibble; they panic on an empty packet.\<close>

definition IsIPv4 :: "byte list \<Rightarrow> ('e, bool) outcome" where
  "IsIPv4 packet = map_outcome (\<lambda>b. 4 = drop_bit 4 b) (go_index packet 0)"

definition IsIPv6 :: "byte list \<Rightarrow> ('e, bool) outcome" where
  "IsIPv6 packet = map_outcome (\<lambda>b. 6 = drop_bit 4 b) (go_index packet 0)"

text \<open>\<^verbatim>\<open>config.init\<close>: the pools 223.254.0.100/16, efff:ffff:ffff:ffff:ffff:ffff:ffff:9999/64 and 223.255.0.100/16.\<close>

definition innerIPv4Pool :: string where
  "innerIPv4Pool = ''223.254.0.100/16''"

definition innerIPv6Pool :: string where
  "innerIPv6Pool = ''efff:ffff:ffff:ffff:ffff:ffff:ffff:9999/64''"

definition dockerInnerIPv4Pool :: string where
  "dockerInnerIPv4Pool = ''223.255.0.100/16''"

definition RouterIP :: ip where
  "RouterIP = IPv4 223 254 0 100"

definition CIDR :: ipnet where
  "CIDR = \<lparr>net_IP = [223, 254, 0, 0], net_Mask = [255, 255, 0, 0]\<rparr>"

definition RouterIP6 :: ip where
  "RouterIP6 = [0xef, 0xff, 0xff, 0xff, 0xff, 0xff, 0xff, 0xff,
                0xff, 0xff, 0xff, 0xff, 0xff, 0xff, 0x99, 0x99]"

definition CIDR6 :: ipnet where
  "CIDR6 = \<lparr>net_IP = [0xef, 0xff, 0xff, 0xff, 0xff, 0xff, 0xff, 0xff, 0, 0, 0, 0, 0, 0, 0, 0],
            net_Mask = replicate 8 255 @ replicate 8 0\<rparr>"

definition DockerRouterIP :: ip where
  "DockerRouterIP = IPv4 223 255 0 100"

definition DockerCIDR :: ipnet where
  "DockerCIDR = \<lparr>net_IP = [223, 255, 0, 0], net_Mask = [255, 255, 0, 0]\<rparr>"

section \<open>Membership in the configured networks\<close>

lemma byte_and_255 [simp]: "(b :: byte) AND 255 = b" "255 AND (b :: byte) = b"
proof -
  have "(255 :: byte) = - 1" by simp
  then show "(b :: byte) AND 255 = b" "255 AND (b :: byte) = b"
    by (simp_all only: and.right_neutral and.left_neutral)
qed

lemma list4_cases: "length p = 4 \<Longrightarrow> \<exists>a b c d. p = [a, b, c, d]"
  by (auto simp: length_Suc_conv eval_nat_numeral)

lemma To4_16_cases:
  "To4 p = [] \<or> (\<exists>a b c d. To4 p = [a, b, c, d])"
  using To4_length [of p] list4_cases by blast

lemma net_Contains_v4_16:
  assumes "To4 (net_IP n) = [a, b, c, d]" and "net_Mask n = [255, 255, 0, 0]"
  shows "net_Contains n p \<longleftrightarrow> (\<exists>x y. To4 p = [a, b, x, y])"
proof -
  have nn: "networkNumberAndMask n = Some ([a, b, c, d], [255, 255, 0, 0])"
    using assms by (simp add: networkNumberAndMask_def)
  consider "To4 p = []" | x y z w where "To4 p = [x, y, z, w]"
    using To4_16_cases [of p] by blast
  then show ?thesis
  proof cases
    case 1
    then have "length p \<noteq> 4" by (auto simp: To4_def)
    with 1 nn show ?thesis by (simp add: net_Contains_def)
  next
    case 2
    with nn show ?thesis by (auto simp: net_Contains_def apply_mask_def)
  qed
qed

lemma net_Contains_CIDR: "net_Contains CIDR p \<longleftrightarrow> (\<exists>x y. To4 p = [223, 254, x, y])"
  by (rule net_Contains_v4_16 [of _ _ _ 0 0]) (simp_all add: CIDR_def To4_def)

text \<open>The pool texts parse to the configured addresses and networks, as \<^verbatim>\<open>config.init\<close> computes them.\<close>

lemma pools_parse:
  "ParseCIDR innerIPv4Pool = Some (RouterIP, CIDR)"
  "ParseCIDR innerIPv6Pool = Some (RouterIP6, CIDR6)"
  "ParseCIDR dockerInnerIPv4Pool = Some (DockerRouterIP, DockerCIDR)"
  by code_simp+

end
