(* ===== verification/Icmp_Packet.thy ===== *)
theory Icmp_Packet
  imports Net_IP
begin

unbundle bit_operations_syntax

text \<open>
  The heartbeat packets of \<^verbatim>\<open>src/pkg/core/tunhandler.go\<close> (\<^verbatim>\<open>genICMPPacket\<close>, \<^verbatim>\<open>genICMPPacketIPv6\<close>) with the
  serialisation of the layers they use from \<^verbatim>\<open>src/vendor/github.com/google/gopacket/layers\<close>: the Internet
  checksum at its 32-bit width, the IPv4 header, the IPv6 header and the ICMP headers.
\<close>

section \<open>The Internet checksum\<close>

text \<open>The loop of \<^verbatim>\<open>tcpipChecksum\<close> over the pairs of bytes, and its treatment of a last single byte.\<close>

fun sum16 :: "byte list \<Rightarrow> 32 word \<Rightarrow> 32 word" where
  "sum16 [] c = c"
| "sum16 [a] c = c + push_bit 8 (ucast a)"
| "sum16 (a # b # bs) c = sum16 bs (c + push_bit 8 (ucast a) + ucast b)"

lemma carry_less:
  assumes "\<not> c \<le> (0xffff :: 32 word)"
  shows "unat (drop_bit 16 c + (c AND 0xffff)) = unat c div 65536 + unat c mod 65536"
    and "unat (drop_bit 16 c + (c AND 0xffff)) < unat c"
proof -
  have d: "unat (drop_bit 16 c) = unat c div 65536"
    unfolding unat_drop_bit_eq by (simp add: drop_bit_eq_div)
  have "c AND 0xffff = take_bit 16 c" by (simp add: take_bit_eq_mask mask_eq_exp_minus_1)
  moreover have "unat (take_bit 16 c) = unat c mod 65536"
    unfolding unsigned_take_bit_eq by (simp add: take_bit_eq_mod)
  ultimately have m: "unat (c AND 0xffff) = unat c mod 65536" by (simp only:)
  have q: "unat c = unat c div 65536 * 65536 + unat c mod 65536" "unat c mod 65536 < 65536" by simp_all
  have "unat c < 4294967296" using unsigned_less [where 'a = nat, of c] by simp
  with q have "unat c div 65536 + unat c mod 65536 < 4294967296" by linarith
  then show s: "unat (drop_bit 16 c + (c AND 0xffff)) = unat c div 65536 + unat c mod 65536"
    by (simp add: unat_word_ariths d m)
  have "65535 < unat c" using assms by (simp add: word_le_nat_alt)
  with q have "0 < unat c div 65536" by linarith
  with q have "unat c div 65536 + unat c mod 65536 < unat c" by linarith
  then show "unat (drop_bit 16 c + (c AND 0xffff)) < unat c" by (simp add: s)
qed

function fold_carry :: "32 word \<Rightarrow> 32 word" where
  "fold_carry c = (if c \<le> 0xffff then c else fold_carry (drop_bit 16 c + (c AND 0xffff)))"
  by pat_completeness auto
termination
  by (relation "measure unat") (auto simp: carry_less(2))

declare fold_carry.simps [simp del]

definition tcpipChecksum :: "byte list \<Rightarrow> 32 word \<Rightarrow> 16 word" where
  "tcpipChecksum data csum = NOT (ucast (fold_carry (sum16 data csum)))"

text \<open>\<^verbatim>\<open>checksum\<close> of \<^verbatim>\<open>ip4.go\<close>: bytes 10 and 11 count as zero.  A header has an even number of bytes.\<close>

definition checksum :: "byte list \<Rightarrow> 16 word" where
  "checksum b = NOT (ucast (fold_carry (sum16 (b[10 := 0, 11 := 0]) 0)))"

subsection \<open>Carries are added until none is left\<close>

lemma fold_carry_mod: "unat (fold_carry c) mod 65535 = unat c mod 65535"
proof (induction c rule: fold_carry.induct)
  case (1 c)
  have "unat c = 65535 * (unat c div 65536) + (unat c div 65536 + unat c mod 65536)"
    using div_mult_mod_eq [of "unat c" 65536] by linarith
  then have "(unat c div 65536 + unat c mod 65536) mod 65535 = unat c mod 65535" by (metis mod_mult_self4)
  with 1 show ?case by (simp add: fold_carry.simps [of c] carry_less(1))
qed

lemma fold_carry_le: "unat (fold_carry c) \<le> 65535"
proof (induction c rule: fold_carry.induct)
  case (1 c)
  then show ?case by (cases "c \<le> 0xffff") (simp_all add: fold_carry.simps [of c] word_le_nat_alt)
qed

lemma fold_carry_pos: "0 < unat c \<Longrightarrow> 0 < unat (fold_carry c)"
proof (induction c rule: fold_carry.induct)
  case (1 c)
  show ?case
  proof (cases "c \<le> 0xffff")
    case True
    then show ?thesis using "1.prems" by (simp add: fold_carry.simps [of c])
  next
    case False
    then have "65535 < unat c" by (simp add: word_le_nat_alt)
    then have "0 < unat c div 65536 + unat c mod 65536"
      using div_mult_mod_eq [of "unat c" 65536] by linarith
    then show ?thesis using "1.IH" [OF False] False by (simp add: fold_carry.simps [of c] carry_less(1))
  qed
qed

text \<open>The sum over the naturals; below 65536 bytes the 32-bit sum does not wrap around.\<close>

fun sum16_nat :: "byte list \<Rightarrow> nat" where
  "sum16_nat [] = 0"
| "sum16_nat [a] = unat a * 256"
| "sum16_nat (a # b # bs) = unat a * 256 + unat b + sum16_nat bs"

lemma sum16_nat_bound: "sum16_nat bs \<le> 65535 * length bs"
proof (induction bs rule: sum16_nat.induct)
  case (2 a)
  then show ?case using unat_byte_less [of a] by (simp del: unat_byte_less)
next
  case (3 a b bs)
  then show ?case using unat_byte_less [of a] unat_byte_less [of b] by (simp del: unat_byte_less)
qed simp

lemma unat_ucast_byte [simp]: "unat (ucast (a :: byte) :: 32 word) = unat a"
proof -
  have "unat a < 2 ^ 32" using unat_byte_less [of a] by (simp del: unat_byte_less)
  then show ?thesis unfolding unsigned_ucast_eq by (simp add: take_bit_nat_eq_self)
qed

lemma unat_pair: "unat (push_bit 8 (ucast (a :: byte)) :: 32 word) = unat a * 256"
proof -
  have "unat (ucast a :: 32 word) = unat a" by simp
  moreover have "unat a * 256 < 2 ^ 32" using unat_byte_less [of a] by (simp del: unat_byte_less)
  ultimately show ?thesis
    by (simp add: push_bit_eq_mult unat_word_ariths)
qed

lemma unat_sum16:
  "unat c + sum16_nat bs < 2 ^ 32 \<Longrightarrow> unat (sum16 bs c) = unat c + sum16_nat bs"
proof (induction bs c rule: sum16.induct)
  case (2 a c)
  then show ?case by (simp add: unat_word_ariths unat_pair)
next
  case (3 a b bs c)
  then have "unat (c + push_bit 8 (ucast a) + ucast b) = unat c + unat a * 256 + unat b"
    by (simp add: unat_word_ariths unat_pair)
  with 3 show ?case by simp
qed simp

lemma sum16_nat_append: "even (length xs) \<Longrightarrow> sum16_nat (xs @ ys) = sum16_nat xs + sum16_nat ys"
  by (induction xs rule: sum16_nat.induct) auto

lemma sum16_nat_be: "sum16_nat (be_fixed 2 n @ ys) = n mod 65536 + sum16_nat ys"
proof -
  obtain a b where e: "be_fixed 2 n = [a, b]"
    using length_be_fixed [of 2 n] by (auto simp: length_Suc_conv numeral_2_eq_2)
  have "be_nat (be_fixed 2 n) = n mod 65536" by (simp add: be_nat_fixed)
  moreover have "be_nat [a, b] = unat a * 256 + unat b" by (simp add: be_nat_def)
  ultimately show ?thesis by (simp add: e)
qed

lemma unat_NOT16: "unat (NOT (w :: 16 word)) = 65535 - unat w"
proof -
  have "NOT w = 65535 - w" by (simp add: not_eq_complement)
  moreover have "w \<le> 65535"
    using unsigned_less [where 'a = nat, of w] by (simp add: word_le_nat_alt)
  ultimately show ?thesis by (simp add: unat_sub)
qed

lemma unat_tcpipChecksum: "unat (tcpipChecksum bs c) = 65535 - unat (fold_carry (sum16 bs c))"
proof -
  have "unat (ucast (fold_carry (sum16 bs c)) :: 16 word) = unat (fold_carry (sum16 bs c))"
    using fold_carry_le [of "sum16 bs c"] unfolding unsigned_ucast_eq by (simp add: take_bit_nat_eq_self)
  then show ?thesis by (simp add: tcpipChecksum_def unat_NOT16)
qed

lemma checksum_placed:
  assumes "even (length xs)" and "length xs + length ys < 65534"
  shows "tcpipChecksum (xs @ be_fixed 2 (unat (tcpipChecksum (xs @ [0, 0] @ ys) 0)) @ ys) 0 = 0"
proof -
  let ?d = "xs @ [0, 0] @ ys"
  define f where "f = unat (fold_carry (sum16 ?d 0))"
  define cs where "cs = unat (tcpipChecksum ?d 0)"
  define e where "e = xs @ be_fixed 2 cs @ ys"
  define S where "S = sum16_nat xs + sum16_nat ys"
  have s: "unat (sum16 zs 0) = sum16_nat zs" if "length zs = length xs + length ys + 2" for zs
    using unat_sum16 [of 0 zs] sum16_nat_bound [of zs] assms(2) that by simp
  have cs: "cs = 65535 - f" "f \<le> 65535"
    using fold_carry_le by (simp_all add: unat_tcpipChecksum f_def cs_def)
  have sd: "unat (sum16 ?d 0) = S" using s [of ?d] assms(1) by (simp add: sum16_nat_append S_def)
  have se: "unat (sum16 e 0) = S + cs"
    using s [of e] assms(1) cs by (simp add: sum16_nat_append sum16_nat_be S_def e_def)
  have m: "f mod 65535 = S mod 65535" unfolding f_def fold_carry_mod sd ..
  have "(S + cs) mod 65535 = (f + cs) mod 65535" using m by (metis mod_add_left_eq)
  also have "f + cs = 65535" using cs by simp
  finally have z: "unat (fold_carry (sum16 e 0)) mod 65535 = 0" by (simp add: fold_carry_mod se)
  have "0 < unat (sum16 e 0)"
  proof (cases "f = 65535")
    case True
    have "fold_carry 0 = 0" by (simp add: fold_carry.simps)
    then have "unat (sum16 ?d 0) \<noteq> 0"
      using True by (metis f_def unat_eq_zero unat_0 zero_neq_numeral)
    then show ?thesis by (simp only: sd se)
  next
    case False
    then show ?thesis using cs by (simp add: se)
  qed
  then have "0 < unat (fold_carry (sum16 e 0))" by (rule fold_carry_pos)
  with z fold_carry_le [of "sum16 e 0"] have "unat (fold_carry (sum16 e 0)) = 65535"
    by (metis le_neq_implies_less mod_less not_gr_zero)
  then have "unat (tcpipChecksum e 0) = 0" by (simp add: unat_tcpipChecksum)
  then show ?thesis unfolding unat_eq_zero e_def cs_def .
qed

section \<open>The packets\<close>

text \<open>The errors of \<^verbatim>\<open>AddressTo4\<close> and \<^verbatim>\<open>AddressTo16\<close>.\<close>

datatype serialize_err = InvalidSource | InvalidDestination

text \<open>\<^verbatim>\<open>ICMPv4.SerializeTo\<close> on an empty buffer, with \<^verbatim>\<open>ComputeChecksums\<close>.\<close>

definition serialize_icmp4 :: "byte \<Rightarrow> byte \<Rightarrow> nat \<Rightarrow> nat \<Rightarrow> byte list" where
  "serialize_icmp4 typ code ident seqno =
     (let tail = be_fixed 2 ident @ be_fixed 2 seqno;
          cs = tcpipChecksum ([typ, code] @ [0, 0] @ tail) 0
      in [typ, code] @ be_fixed 2 (unat cs) @ tail)"

text \<open>
  \<^verbatim>\<open>IPv4.SerializeTo\<close> without options, with \<^verbatim>\<open>FixLengths\<close> and \<^verbatim>\<open>ComputeChecksums\<close>, in front of a payload.
  The length field is the low 16 bits of the length of the packet.
\<close>

definition serialize_ip4 :: "nat \<Rightarrow> nat \<Rightarrow> byte \<Rightarrow> byte \<Rightarrow> ip \<Rightarrow> ip \<Rightarrow> byte list \<Rightarrow> serialize_err + byte list" where
  "serialize_ip4 ident flagsfrags ttl proto src dst payload =
     (if To4 src = [] then Inl InvalidSource
      else if To4 dst = [] then Inl InvalidDestination
      else
        let h = [0x45, 0] @ be_fixed 2 (20 + length payload) @ be_fixed 2 ident @ be_fixed 2 flagsfrags @ [ttl, proto];
            addrs = To4 src @ To4 dst;
            cs = checksum (h @ [0, 0] @ addrs)
        in Inr (h @ be_fixed 2 (unat cs) @ addrs @ payload))"

text \<open>\<^verbatim>\<open>ICMPv6.SerializeTo\<close> without checksum, and \<^verbatim>\<open>IPv6.SerializeTo\<close> for a payload that needs no jumbo option.\<close>

definition serialize_icmp6 :: "byte \<Rightarrow> byte \<Rightarrow> byte list" where
  "serialize_icmp6 typ code = [typ, code, 0, 0]"

definition serialize_ip6 :: "byte \<Rightarrow> byte \<Rightarrow> ip \<Rightarrow> ip \<Rightarrow> byte list \<Rightarrow> serialize_err + byte list" where
  "serialize_ip6 nextHeader hopLimit src dst payload =
     (if length src \<noteq> 16 then Inl InvalidSource
      else if length dst \<noteq> 16 then Inl InvalidDestination
      else Inr ([0x60, 0, 0, 0] @ be_fixed 2 (length payload) @ [nextHeader, hopLimit] @ src @ dst @ payload))"

text \<open>An echo request of either protocol; the flag is don't-fragment, \<^verbatim>\<open>1 << 1\<close> shifted left by 13.\<close>

definition genICMPPacket :: "ip \<Rightarrow> ip \<Rightarrow> serialize_err + byte list" where
  "genICMPPacket src dst = serialize_ip4 55664 (2 * 2 ^ 13) 64 1 src dst (serialize_icmp4 8 0 3842 1)"

definition genICMPPacketIPv6 :: "ip \<Rightarrow> ip \<Rightarrow> serialize_err + byte list" where
  "genICMPPacketIPv6 src dst = serialize_ip6 58 255 src dst (serialize_icmp6 128 0)"

lemma checksum_header:
  assumes "length h = 10"
  shows "checksum (h @ [0, 0] @ addrs) = tcpipChecksum (h @ [0, 0] @ addrs) 0"
proof -
  have "(h @ [0, 0] @ addrs)[10 := 0, 11 := 0] = h @ [0, 0] @ addrs"
    using assms by (simp add: list_update_append)
  then show ?thesis by (simp only: checksum_def tcpipChecksum_def)
qed

lemma length_serialize_icmp4 [simp]: "length (serialize_icmp4 t c i s) = 8"
  by (simp add: serialize_icmp4_def Let_def)

lemma length_serialize_icmp6 [simp]: "length (serialize_icmp6 t c) = 4"
  by (simp add: serialize_icmp6_def)

lemma icmp4_verifies: "tcpipChecksum (serialize_icmp4 t c i s) 0 = 0"
  unfolding serialize_icmp4_def Let_def by (rule checksum_placed) simp_all

lemma ip4_header:
  assumes "serialize_ip4 ident ff ttl proto src dst payload = Inr p"
  shows "tcpipChecksum (take 20 p) 0 = 0" and "drop 20 p = payload"
    and "take 4 (drop 12 p) = To4 src" and "take 4 (drop 16 p) = To4 dst"
    and "length p = 20 + length payload" and "p ! 0 = 0x45" and "p ! 9 = proto"
proof -
  let ?h = "[0x45, 0] @ be_fixed 2 (20 + length payload) @ be_fixed 2 ident @ be_fixed 2 ff @ [ttl, proto]"
  from assms have ne: "To4 src \<noteq> []" "To4 dst \<noteq> []" by (auto simp: serialize_ip4_def split: if_splits)
  then have l: "length (To4 src) = 4" "length (To4 dst) = 4" by (simp_all add: To4_length)
  have h: "length ?h = 10" by simp
  let ?cs = "be_fixed 2 (unat (tcpipChecksum (?h @ [0, 0] @ To4 src @ To4 dst) 0))"
  from assms ne have p: "p = ?h @ ?cs @ (To4 src @ To4 dst) @ payload"
    using checksum_header [OF h, of "To4 src @ To4 dst"] by (simp add: serialize_ip4_def Let_def)
  have t: "take 20 p = ?h @ ?cs @ (To4 src @ To4 dst)" unfolding p using l by simp
  show "tcpipChecksum (take 20 p) 0 = 0" unfolding t by (rule checksum_placed) (use l in simp_all)
  show "drop 20 p = payload" "take 4 (drop 12 p) = To4 src" "take 4 (drop 16 p) = To4 dst"
    "length p = 20 + length payload" "p ! 0 = 0x45" unfolding p using l by simp_all
  have "?h ! 9 = proto" by (simp add: nth_append)
  then show "p ! 9 = proto" unfolding p by (simp add: nth_append)
qed

end
