(* ===== verification/Ip_Text.thy ===== *)
theory Ip_Text
  imports Net_IP
begin

text \<open>
  The text of an IP address, both ways.  The routing tables are keyed by \<^verbatim>\<open>IP.String()\<close>, and leases travel as
  \<^verbatim>\<open>IPNet.String()\<close> and are read back with \<^verbatim>\<open>net.ParseCIDR\<close>: the lemmas show that the text determines
  the address, IPv6 with its run of zeros left out included.
\<close>

section \<open>Hexadecimal groups\<close>

lemma hex_val_digit: "d < 16 \<Longrightarrow> hex_val (hex_digit d) = Some d"
proof -
  have "\<forall>d\<in>set [0..<16]. hex_val (hex_digit d) = Some d" by code_simp
  then show "d < 16 \<Longrightarrow> hex_val (hex_digit d) = Some d" by simp
qed

lemma show_hex_not_Nil [simp]: "show_hex n \<noteq> []" "[] \<noteq> show_hex n"
  by (simp_all add: show_hex.simps [of n])

lemma show_hex_chars: "c \<in> set (show_hex n) \<Longrightarrow> \<exists>d. hex_val c = Some d"
proof (induction n rule: show_hex.induct)
  case (1 n)
  show ?case
  proof (cases "n < 16")
    case True
    with 1(2) show ?thesis by (simp add: show_hex.simps [of n] hex_val_digit)
  next
    case False
    with 1(2) have "c \<in> set (show_hex (n div 16)) \<or> c = hex_digit (n mod 16)" by (auto simp: show_hex.simps [of n])
    with 1(1) [OF False] hex_val_digit [of "n mod 16"] show ?thesis by auto
  qed
qed

lemma show_hex_no_char: "hex_val c = None \<Longrightarrow> c \<notin> set (show_hex n)"
  using show_hex_chars by fastforce

lemma hex_val_seps: "hex_val CHR '':'' = None" "hex_val CHR ''.'' = None" "hex_val CHR ''/'' = None" "hex_val CHR '','' = None"
  by code_simp+

lemma scan_show_hex:
  assumes "acc * 16 ^ length (show_hex n) + n < 0xFFFFFF"
  shows "scan_num hex_val 16 acc i (show_hex n @ rest) =
    scan_num hex_val 16 (acc * 16 ^ length (show_hex n) + n) (i + length (show_hex n)) rest"
  using assms
proof (induction n arbitrary: rest rule: show_hex.induct)
  case (1 n)
  show ?case
  proof (cases "n < 16")
    case True
    with 1(2) show ?thesis by (simp add: show_hex.simps [of n] hex_val_digit)
  next
    case False
    let ?m = "n div 16" and ?l = "length (show_hex (n div 16))"
    have s: "show_hex n = show_hex ?m @ [hex_digit (n mod 16)]" using False by (simp add: show_hex.simps [of n])
    have n: "(acc * 16 ^ ?l + ?m) * 16 + n mod 16 = acc * 16 ^ length (show_hex n) + n"
      by (simp add: s algebra_simps)
    have "A < 0xFFFFFF" if "A * 16 + r = B" "B < 0xFFFFFF" for A r B :: nat using that by linarith
    from this [OF n] 1(2) have b: "acc * 16 ^ ?l + ?m < 0xFFFFFF" by blast
    show ?thesis
      using 1(1) [OF False b, of "hex_digit (n mod 16) # rest"] 1(2) n by (simp add: s hex_val_digit ac_simps)
  qed
qed

lemma xtoi_show_hex:
  assumes "n < 0xFFFFFF" and "rest = [] \<or> hex_val (hd rest) = None"
  shows "xtoi (show_hex n @ rest) = Some (n, length (show_hex n))"
proof -
  have "scan_num hex_val 16 n (length (show_hex n)) rest = Some (n, length (show_hex n))"
    using assms(2) by (cases rest) auto
  with scan_show_hex [of 0 n 0 rest] assms(1) show ?thesis by (simp add: xtoi_def)
qed

section \<open>The eight groups\<close>

definition group_bytes :: "nat list \<Rightarrow> byte list" where
  "group_bytes gs = concat (map (\<lambda>g. [word_of_nat (g div 256), word_of_nat (g mod 256)]) gs)"

lemma group_bytes_simps [simp]:
  "group_bytes [] = []" "group_bytes (g # gs) = word_of_nat (g div 256) # word_of_nat (g mod 256) # group_bytes gs"
  "group_bytes (as @ bs) = group_bytes as @ group_bytes bs" "length (group_bytes gs) = 2 * length gs"
  by (simp_all add: group_bytes_def length_concat comp_def sum_list_triv)

lemma group_bytes_zeros: "group_bytes (replicate n 0) = replicate (2 * n) 0"
  by (induction n) simp_all

lemma groups16_props:
  "even (length p) \<Longrightarrow> group_bytes (groups16 p) = p \<and> length (groups16 p) = length p div 2 \<and> (\<forall>g\<in>set (groups16 p). g < 65536)"
proof (induction p rule: groups16.induct)
  case (1 a b bs)
  have "unat a * 256 + unat b < 65536" using unat_byte_less [of a] unat_byte_less [of b] by linarith
  with 1 unat_byte_less [of b] show ?case by simp
qed auto

lemma longest_zero_run_spec:
  assumes "longest_zero_run gs = (zs, ze)"
  shows "255 \<le> zs \<or> zs < 8 \<and> 2 \<le> zero_run gs zs \<and> ze = zs + zero_run gs zs"
proof -
  let ?ok = "\<lambda>(zs, ze). 255 \<le> zs \<or> zs < 8 \<and> 2 \<le> zero_run gs zs \<and> ze = zs + zero_run gs zs"
  have "?ok (fold (\<lambda>i (zs, ze). let l = zero_run gs i in
      if 2 \<le> l \<and> ze - zs < l then (i, i + l) else (zs, ze)) is a)" if "?ok a" "\<forall>i\<in>set is. i < 8" for "is" a
    using that
  proof (induction "is" arbitrary: a)
    case (Cons i "is")
    then show ?case by (cases a) (auto simp: Let_def intro!: Cons.IH)
  qed simp
  from this [of "(255, 255)" "[0..<8]"] assms show ?thesis by (auto simp: longest_zero_run_def)
qed

lemma zero_run_split:
  assumes "i \<le> length gs"
  shows "gs = take i gs @ replicate (zero_run gs i) 0 @ drop (i + zero_run gs i) gs"
proof -
  have "takeWhile (\<lambda>g. g = 0) (drop i gs) = replicate (zero_run gs i) 0"
    unfolding zero_run_def by (rule replicate_eqI) (auto dest: set_takeWhileD)
  moreover have "dropWhile (\<lambda>g. g = 0) (drop i gs) = drop (zero_run gs i) (drop i gs)"
    by (simp add: zero_run_def dropWhile_eq_drop)
  ultimately have "drop i gs = replicate (zero_run gs i) 0 @ drop (zero_run gs i) (drop i gs)"
    using takeWhile_dropWhile_id [of "\<lambda>g. g = 0" "drop i gs"] by metis
  then show ?thesis by (metis append_take_drop_id drop_drop add.commute)
qed

section \<open>Parsing groups\<close>

lemma hex_join_not_colon:
  assumes "gs \<noteq> []"
  shows "join '':'' (map show_hex gs) \<noteq> []" "hd (join '':'' (map show_hex gs) @ t) \<noteq> CHR '':''"
proof -
  obtain g hs where gs: "gs = g # hs" using assms by (cases gs) auto
  have h: "hd (show_hex g) \<noteq> CHR '':''"
    using show_hex_no_char [OF hex_val_seps(1), of g] by (metis hd_in_set show_hex_not_Nil(1))
  show "join '':'' (map show_hex gs) \<noteq> []" "hd (join '':'' (map show_hex gs) @ t) \<noteq> CHR '':''"
    using h by (cases hs; simp add: gs)+
qed

text \<open>One group and what follows it.\<close>

lemma parse6_group:
  assumes "length acc < 16" and "g < 65536"
  shows "parse6_loop acc ell (show_hex g) = Some (acc @ group_bytes [g], ell, [])"
    and "t \<noteq> [] \<Longrightarrow> hd t \<noteq> CHR '':'' \<Longrightarrow>
      parse6_loop acc ell (show_hex g @ '':'' @ t) = parse6_loop (acc @ group_bytes [g]) ell t"
    and "parse6_loop acc None (show_hex g @ ''::'' @ t) =
      (if t = [] then Some (acc @ group_bytes [g], Some (length acc + 2), [])
       else parse6_loop (acc @ group_bytes [g]) (Some (length acc + 2)) t)"
proof -
  have x: "xtoi (show_hex g @ rest) = Some (g, length (show_hex g))" if "rest = [] \<or> hd rest = CHR '':''" for rest
    using that assms(2) by (intro xtoi_show_hex) (auto simp: hex_val_seps)
  show "parse6_loop acc ell (show_hex g) = Some (acc @ group_bytes [g], ell, [])"
    using x [of "[]"] assms by (simp add: parse6_loop.simps [of acc])
  show "parse6_loop acc ell (show_hex g @ '':'' @ t) = parse6_loop (acc @ group_bytes [g]) ell t"
    if "t \<noteq> []" "hd t \<noteq> CHR '':''"
    using x [of "'':'' @ t"] assms that by (subst parse6_loop.simps) (simp add: nth_append Let_def)
  show "parse6_loop acc None (show_hex g @ ''::'' @ t) =
      (if t = [] then Some (acc @ group_bytes [g], Some (length acc + 2), [])
       else parse6_loop (acc @ group_bytes [g]) (Some (length acc + 2)) t)"
    using x [of "''::'' @ t"] assms by (subst parse6_loop.simps) (simp add: nth_append Let_def)
qed

lemma parse6_groups:
  assumes "gs \<noteq> []" and "\<forall>g\<in>set gs. g < 65536" and "length acc + 2 * length gs \<le> 16"
  shows "parse6_loop acc ell (join '':'' (map show_hex gs)) = Some (acc @ group_bytes gs, ell, [])"
  using assms
proof (induction gs arbitrary: acc)
  case (Cons g gs)
  show ?case
  proof (cases "gs = []")
    case True
    with Cons.prems parse6_group(1) [of acc g ell] show ?thesis by simp
  next
    case False
    with Cons.prems parse6_group(2) [of acc g "join '':'' (map show_hex gs)" ell] Cons.IH [of "acc @ group_bytes [g]"]
      hex_join_not_colon(1) [of gs] hex_join_not_colon(2) [of gs "[]"]
    show ?thesis by (simp add: join_Cons)
  qed
qed simp

lemma parse6_groups_ellipsis:
  assumes "gs \<noteq> []" and "\<forall>g\<in>set gs. g < 65536" and "length acc + 2 * length gs \<le> 16"
  shows "parse6_loop acc None (join '':'' (map show_hex gs) @ ''::'' @ t) =
    (if t = [] then Some (acc @ group_bytes gs, Some (length acc + 2 * length gs), [])
     else parse6_loop (acc @ group_bytes gs) (Some (length acc + 2 * length gs)) t)"
  using assms
proof (induction gs arbitrary: acc)
  case (Cons g gs)
  show ?case
  proof (cases "gs = []")
    case True
    with Cons.prems parse6_group(3) [of acc g t] show ?thesis by simp
  next
    case False
    with Cons.prems parse6_group(2) [of acc g "join '':'' (map show_hex gs) @ ''::'' @ t" None] Cons.IH [of "acc @ group_bytes [g]"]
      hex_join_not_colon(2) [of gs "''::'' @ t"]
    show ?thesis by (simp add: join_Cons)
  qed
qed simp

section \<open>Both ways\<close>

lemma parseIPv6_show:
  assumes "length p = 16"
  shows "parseIPv6 (show_ip6 p) = Some p"
proof -
  define gs where "gs = groups16 p"
  have g: "group_bytes gs = p" "length gs = 8" "\<forall>g\<in>set gs. g < 65536"
    using groups16_props [of p] assms by (auto simp: gs_def)
  obtain zs ze where z: "longest_zero_run gs = (zs, ze)" by fastforce
  show ?thesis
  proof (cases "zs < 8")
    case False
    have "gs \<noteq> []" using g(2) by auto
    with g have "parse6_loop [] None (join '':'' (map show_hex gs)) = Some (p, None, [])"
      using parse6_groups [of gs "[]" None] by simp
    moreover have "\<not> starts_with (join '':'' (map show_hex gs)) ''::''"
      using hex_join_not_colon(1) [OF \<open>gs \<noteq> []\<close>] hex_join_not_colon(2) [OF \<open>gs \<noteq> []\<close>, of "[]"] by (auto simp: neq_Nil_conv)
    ultimately show ?thesis
      using False assms by (simp add: show_ip6_def gs_def [symmetric] z parseIPv6_def)
  next
    case True
    with longest_zero_run_spec [OF z] have r: "2 \<le> zero_run gs zs" "ze = zs + zero_run gs zs" by auto
    define l where "l = take zs gs" define t where "t = drop ze gs"
    have gs: "gs = l @ replicate (zero_run gs zs) 0 @ t"
      using zero_run_split [of zs gs] True g(2) by (simp add: l_def t_def r(2))
    have ll: "length l = zs" using True g(2) by (simp add: l_def)
    from arg_cong [OF gs, of length] g(2) ll have lt: "zs + zero_run gs zs + length t = 8" by simp
    have p: "p = group_bytes l @ replicate (16 - 2 * zs - 2 * length t) 0 @ group_bytes t"
      using arg_cong [OF gs, of group_bytes] g(1) lt by (simp add: group_bytes_zeros algebra_simps)
    have b: "\<forall>g\<in>set l. g < 65536" "\<forall>g\<in>set t. g < 65536" using g(3) gs by (metis Un_iff set_append)+
    have s: "show_ip6 p = join '':'' (map show_hex l) @ ''::'' @ join '':'' (map show_hex t)"
      using True by (simp add: show_ip6_def gs_def [symmetric] z l_def t_def)
    have tail: "parse6_loop (group_bytes l) (Some (2 * zs)) (join '':'' (map show_hex t)) = Some (group_bytes l @ group_bytes t, Some (2 * zs), [])"
      if "t \<noteq> []" using parse6_groups [OF that b(2), of "group_bytes l" "Some (2 * zs)"] lt r(1) ll by simp
    have fin: "take (2 * zs) (group_bytes l @ group_bytes t) = group_bytes l" "drop (2 * zs) (group_bytes l @ group_bytes t) = group_bytes t"
      using ll by simp_all
    show ?thesis
    proof (cases "l = []")
      case l: True
      then have zs: "zs = 0" using ll by simp
      show ?thesis
      proof (cases "t = []")
        case True
        with l zs show ?thesis unfolding s parseIPv6_def using p by simp
      next
        case False
        have "length (group_bytes t) < 16" using lt r(1) by simp
        with False l zs tail [OF False] hex_join_not_colon(1) [OF False] p lt show ?thesis
          unfolding s parseIPv6_def by simp
      qed
    next
      case l: False
      have ns: "\<not> starts_with (show_ip6 p) ''::''"
        using hex_join_not_colon [OF l] unfolding s by (auto simp: neq_Nil_conv)
      have loop: "parse6_loop [] None (show_ip6 p) = Some (group_bytes l @ group_bytes t, Some (2 * zs), [])"
      proof (cases "t = []")
        case True
        with parse6_groups_ellipsis [OF l b(1), of "[]" "[]"] ll lt show ?thesis by (simp add: s)
      next
        case False
        with parse6_groups_ellipsis [OF l b(1), of "[]" "join '':'' (map show_hex t)"] hex_join_not_colon(1) [OF False] tail [OF False] ll lt
        show ?thesis by (simp add: s)
      qed
      have "length (group_bytes l @ group_bytes t) < 16" using lt r(1) ll by simp
      with ns loop fin p ll lt show ?thesis by (simp add: parseIPv6_def)
    qed
  qed
qed

lemma show_ip6_chars:
  assumes "c \<in> set (show_ip6 p)" and "c \<noteq> CHR '':''"
  shows "hex_val c \<noteq> None"
proof -
  have "\<exists>g. c \<in> set (show_hex g)" if "c \<in> set (join '':'' (map show_hex gs))" for gs
    using that assms(2)
  proof (induction gs)
    case (Cons g gs)
    then show ?case by (cases "gs = []") (auto simp: join_Cons)
  qed simp
  with assms obtain g where "c \<in> set (show_hex g)"
    by (auto simp: show_ip6_def Let_def split: prod.splits if_splits)
  with show_hex_no_char show ?thesis by blast
qed

lemma show_ip6_colon:
  assumes "length p = 16"
  shows "CHR '':'' \<in> set (show_ip6 p)"
proof -
  obtain zs ze where z: "longest_zero_run (groups16 p) = (zs, ze)" by fastforce
  have "length (groups16 p) = 8" using groups16_props [of p] assms by simp
  then obtain a b gs where "groups16 p = a # b # gs" by (cases "groups16 p"; cases "tl (groups16 p)") auto
  with z show ?thesis by (simp add: show_ip6_def join_Cons Let_def)
qed

lemma show_ip6_not_v4:
  assumes "length p = 16"
  shows "first_sep (show_ip6 p) = Some CHR '':''" and "parseIPv4 (show_ip6 p) = None" and "CHR ''/'' \<notin> set (show_ip6 p)"
proof -
  have no: "CHR ''.'' \<notin> set (show_ip6 p)" "CHR ''/'' \<notin> set (show_ip6 p)"
    using show_ip6_chars [of "CHR ''.''" p] show_ip6_chars [of "CHR ''/''" p] by (auto simp: hex_val_seps)
  have "first_sep s = Some CHR '':''" if "CHR '':'' \<in> set s" "CHR ''.'' \<notin> set s" for s
    using that by (induction s) auto
  with show_ip6_colon [OF assms] no show "first_sep (show_ip6 p) = Some CHR '':''" by blast
  have more: "parse4_from (Suc k) (a # acc) s = Some q \<Longrightarrow> CHR ''.'' \<in> set s" for k a acc s q
    by (cases s) (auto split: if_splits)
  have one: "parse4_from (Suc m) [] s = Some q \<Longrightarrow> \<exists>n c. parse4_from m [n] (drop c s) = Some q" for m s q
    by (auto split: if_splits option.splits) blast+
  have dot: "parse4_from (Suc (Suc k)) [] s = Some q \<Longrightarrow> CHR ''.'' \<in> set s" for k s q
    using one [of "Suc k" s q] more by (blast dest: in_set_dropD)
  have "4 = Suc (Suc 2)" by simp
  then have "parse4_from 4 [] s = Some q \<Longrightarrow> CHR ''.'' \<in> set s" for s q using dot by (simp only:)
  with no(1) show "parseIPv4 (show_ip6 p) = None" unfolding parseIPv4_def by (cases "parse4_from 4 [] (show_ip6 p)") auto
  show "CHR ''/'' \<notin> set (show_ip6 p)" by (fact no(2))
qed

lemma To4_cases16:
  assumes "length p = 16" and "To4 p \<noteq> []"
  obtains a b c d where "To4 p = [a, b, c, d]" and "p = v4InV6Prefix @ [a, b, c, d]"
proof -
  from To4_length [OF assms(2)] list4_cases obtain a b c d where t: "To4 p = [a, b, c, d]" by blast
  moreover have "p = v4InV6Prefix @ [a, b, c, d]"
    using t assms by (auto simp: To4_def split: if_splits) (metis append_take_drop_id)
  ultimately show ?thesis by (rule that)
qed

lemma first_sep_show_ip4: "first_sep (show_ip4 [a, b, c, d]) = Some CHR ''.''"
proof -
  have "first_sep (xs @ CHR ''.'' # ys) = Some CHR ''.''" if "CHR '':'' \<notin> set xs" for xs ys
    using that by (induction xs) auto
  moreover have "CHR '':'' \<notin> set (show_nat (unat a))" by (rule show_nat_no_char) code_simp
  ultimately show ?thesis by (simp add: show_ip4_def)
qed

text \<open>\<open>ParseIP\<close> reads back what \<open>String\<close> prints, in the sixteen-byte form.\<close>

lemma ParseIP_String:
  assumes "length p = 16"
  shows "ParseIP (ip_String p) = Some p"
proof (cases "To4 p = []")
  case True
  have "p \<noteq> []" using assms by auto
  with True assms show ?thesis
    by (simp add: ip_String_def ParseIP_def show_ip6_not_v4 parseIPv6_show)
next
  case False
  from To4_cases16 [OF assms False] obtain a b c d where t: "To4 p = [a, b, c, d]" "p = v4InV6Prefix @ [a, b, c, d]" by blast
  have "p \<noteq> []" using assms by auto
  with t(1) assms have "ip_String p = show_ip4 [a, b, c, d]" by (simp add: ip_String_def)
  then show ?thesis by (simp add: ParseIP_def first_sep_show_ip4 parseIPv4_def parse4_show_ip4 t(2))
qed

lemma ip_String_To16:
  assumes "length p = 4 \<or> length p = 16"
  shows "ip_String (To16 p) = ip_String p" and "length (To16 p) = 16"
  using assms by (auto simp: To16_def ip_String_def To4_def v4InV6Prefix_def split: if_splits)

text \<open>So the text identifies the address.\<close>

lemma ip_String_eq_iff:
  assumes "length p = 4 \<or> length p = 16" and "length q = 4 \<or> length q = 16"
  shows "ip_String p = ip_String q \<longleftrightarrow> ip_Equal p q"
proof -
  have "ip_String p = ip_String q \<longleftrightarrow> To16 p = To16 q"
    using ParseIP_String [OF ip_String_To16(2) [OF assms(1)]] ParseIP_String [OF ip_String_To16(2) [OF assms(2)]]
      ip_String_To16(1) [OF assms(1)] ip_String_To16(1) [OF assms(2)] by (metis option.inject)
  moreover have "ip_Equal p q \<longleftrightarrow> To16 p = To16 q" using ip_Equal_iff_To16 [of p q] assms by auto
  ultimately show ?thesis by simp
qed

text \<open>\<open>ParseCIDR\<close> reads back the text of an IPv6 lease.\<close>

lemma ParseCIDR_show_ip6:
  assumes "length p = 16" and "l < 129"
  shows "ParseCIDR (show_ip6 p @ ''/'' @ show_nat l) = Some (p, \<lparr>net_IP = ip_Mask p (CIDRMask l 128), net_Mask = CIDRMask l 128\<rparr>)"
proof -
  have "CHR ''/'' \<notin> set (show_ip6 p)" by (rule show_ip6_not_v4(3) [OF assms(1)])
  then have "takeWhile (\<lambda>c. c \<noteq> CHR ''/'') (show_ip6 p @ ''/'' @ show_nat l) = show_ip6 p"
    "dropWhile (\<lambda>c. c \<noteq> CHR ''/'') (show_ip6 p @ ''/'' @ show_nat l) = ''/'' @ show_nat l"
    by (simp_all add: takeWhile_append dropWhile_append)
  moreover have "dtoi (show_nat l) = Some (l, length (show_nat l))" using dtoi_show_nat [of l "[]"] assms(2) by simp
  ultimately show ?thesis
    using assms by (simp add: ParseCIDR_def Let_def show_ip6_not_v4(2) parseIPv6_show)
qed

end
