(* ===== verification/Nat_Table.thy ===== *)
theory Nat_Table
  imports Ip_Text "HOL-Library.AList"
begin

text \<open>
  The routing tables of the traffic manager: the NAT table of \<^verbatim>\<open>src/pkg/core/tunhandler.go\<close>, which maps
  the text of an inner address to the UDP addresses behind it, and the map from inner addresses to TCP
  connections that \<^verbatim>\<open>src/pkg/core/tcphandler.go\<close> maintains.

  A \<^verbatim>\<open>net.Addr\<close> is represented by its \<open>String()\<close>, the only thing the table looks at; a TCP connection
  by a number.  The locale \<open>learning_table\<close> is what the router relies on: a table learns where an inner
  address is from traffic and knows nothing else.  Both tables interpret it.
\<close>

section \<open>Tables that learn\<close>

locale learning_table =
  fixes targets :: "'t \<Rightarrow> string \<Rightarrow> 'a set"
    and learn :: "string \<Rightarrow> 'a \<Rightarrow> 't \<Rightarrow> 't"
    and forget :: "'a \<Rightarrow> 't \<Rightarrow> 't"
  assumes learn_self: "a \<in> targets (learn k a t) k"
    and learn_only: "targets (learn k a t) j \<subseteq> targets t j \<union> (if j = k then {a} else {})"
    and forget_all: "targets (forget a t) j = targets t j - {a}"

text \<open>Every entry of a sound table was seen: that target has sent from that inner address.\<close>

definition sound_table :: "('t \<Rightarrow> string \<Rightarrow> 'a set) \<Rightarrow> 't \<Rightarrow> (string \<times> 'a) set \<Rightarrow> bool" where
  "sound_table targets t seen \<longleftrightarrow> (\<forall>k a. a \<in> targets t k \<longrightarrow> (k, a) \<in> seen)"

context learning_table
begin

lemma sound_learn: "sound_table targets t seen \<Longrightarrow> sound_table targets (learn k a t) (insert (k, a) seen)"
proof -
  assume s: "sound_table targets t seen"
  have "(j, b) \<in> insert (k, a) seen" if "b \<in> targets (learn k a t) j" for j b
    using s that learn_only [of k a t j] by (auto simp: sound_table_def split: if_splits)
  then show ?thesis by (simp add: sound_table_def)
qed

lemma sound_forget: "sound_table targets t seen \<Longrightarrow> sound_table targets (forget a t) seen"
  by (simp add: sound_table_def forget_all)

lemma sound_mono: "sound_table targets t seen \<Longrightarrow> seen \<subseteq> seen' \<Longrightarrow> sound_table targets t seen'"
  by (auto simp: sound_table_def)

lemma soundD: "sound_table targets t seen \<Longrightarrow> a \<in> targets t k \<Longrightarrow> (k, a) \<in> seen"
  by (simp add: sound_table_def)

lemma forget_learn: "a \<notin> targets (forget a (learn k a t)) j"
  by (simp add: forget_all)

end

section \<open>The NAT table\<close>

type_synonym net_addr = string

record NAT =
  nat_routes :: "(string \<times> net_addr list) list"

definition NewNAT :: NAT where
  "NewNAT = \<lparr>nat_routes = []\<rparr>"

definition nat_get :: "NAT \<Rightarrow> string \<Rightarrow> net_addr list option" where
  "nat_get n k = map_of (nat_routes n) k"

definition nat_put :: "string \<Rightarrow> net_addr list \<Rightarrow> NAT \<Rightarrow> NAT" where
  "nat_put k v n = n\<lparr>nat_routes := AList.update k v (nat_routes n)\<rparr>"

text \<open>\<open>RemoveAddr\<close>: how many entries were deleted, and the table.\<close>

definition RemoveAddr :: "net_addr \<Rightarrow> NAT \<Rightarrow> nat \<times> NAT" where
  "RemoveAddr addr n =
     (let rs = map (\<lambda>(k, v). (k, delete_loop (\<lambda>x. x = addr) 0 v 0)) (nat_routes n)
      in (sum_list (map (\<lambda>(k, v, c). c) rs), n\<lparr>nat_routes := map (\<lambda>(k, v, c). (k, v)) rs\<rparr>))"

text \<open>
  \<open>LoadOrStore\<close> reads the list under the read lock and stores under the write lock; between the two
  another goroutine may change the table (\<open>mid\<close>), and the decision still rests on the list that was read.
\<close>

definition LoadOrStore :: "(NAT \<Rightarrow> NAT) \<Rightarrow> ip \<Rightarrow> net_addr \<Rightarrow> NAT \<Rightarrow> (net_addr \<times> bool) \<times> NAT" where
  "LoadOrStore mid to addr n =
     (let key = ip_String to; addrList = nat_get n key in
      case addrList of
        Some l \<Rightarrow>
          if addr \<in> set l then ((addr, True), mid n)
          else let n' = mid n; cur = (case nat_get n' key of None \<Rightarrow> [] | Some c \<Rightarrow> c)
               in ((addr, False), nat_put key (cur @ [addr]) n')
      | None \<Rightarrow> ((addr, False), nat_put key [addr] (mid n)))"

text \<open>\<open>RouteTo\<close>: \<open>i\<close> is the number \<open>rand.Intn\<close> draws.\<close>

definition RouteTo :: "nat \<Rightarrow> ip \<Rightarrow> NAT \<Rightarrow> net_addr option" where
  "RouteTo i a n =
     (case nat_get n (ip_String a) of
        None \<Rightarrow> None
      | Some addrList \<Rightarrow>
          if length addrList = 0 then None else Some (addrList ! (i mod length addrList)))"

definition nat_Remove :: "ip \<Rightarrow> net_addr \<Rightarrow> NAT \<Rightarrow> NAT" where
  "nat_Remove a addr n =
     (case nat_get n (ip_String a) of
        None \<Rightarrow> n
      | Some addrList \<Rightarrow>
          nat_put (ip_String a) (fst (delete_loop (\<lambda>x. x = addr) 0 addrList 0)) n)"

text \<open>\<open>Range\<close> applies a function to the entries; the map gives them in no fixed order.\<close>

definition nat_Range :: "NAT \<Rightarrow> (string \<times> net_addr list) list" where
  "nat_Range n = nat_routes n"

text \<open>One round of \<open>printRoute\<close>: the text and the number of entries, for one order of the entries.\<close>

definition printRoute :: "NAT \<Rightarrow> string \<times> nat" where
  "printRoute n =
     (concat (map (\<lambda>(key, value).
        if length value \<noteq> 0 then ''to: '' @ key @ '', route: '' @ join '' '' value @ [CHR 0x0A] else [])
        (nat_Range n)), length (nat_Range n))"

subsection \<open>Lookup after each operation\<close>

definition nat_targets :: "NAT \<Rightarrow> string \<Rightarrow> net_addr set" where
  "nat_targets n k = (case nat_get n k of None \<Rightarrow> {} | Some l \<Rightarrow> set l)"

lemma nat_get_put [simp]: "nat_get (nat_put k v n) j = (if j = k then Some v else nat_get n j)"
  by (simp add: nat_get_def nat_put_def update_conv')

lemma nat_get_RemoveAddr:
  "nat_get (snd (RemoveAddr a n)) k = map_option (filter (\<lambda>x. x \<noteq> a)) (nat_get n k)"
proof -
  have "map_of (map (\<lambda>(k, v, c). (k, v)) (map (\<lambda>(k, v). (k, delete_loop (\<lambda>x. x = a) 0 v 0)) rs)) k
      = map_option (filter (\<lambda>x. x \<noteq> a)) (map_of rs k)" for rs :: "(string \<times> net_addr list) list"
    by (induction rs) auto
  then show ?thesis by (simp add: RemoveAddr_def nat_get_def Let_def)
qed

lemma RemoveAddr_count:
  "fst (RemoveAddr a n) = sum_list (map (\<lambda>e. count_list (snd e) a) (nat_routes n))"
proof -
  have "length (filter (\<lambda>x. x = a) v) = count_list v a" for v :: "net_addr list"
    by (induction v) auto
  then show ?thesis by (simp add: RemoveAddr_def Let_def case_prod_beta o_def)
qed

text \<open>Keys stay distinct, so that every entry of the list is visible to a lookup.\<close>

definition nat_wf :: "NAT \<Rightarrow> bool" where
  "nat_wf n \<longleftrightarrow> distinct (map fst (nat_routes n))"

lemma nat_wf_put: "nat_wf n \<Longrightarrow> nat_wf (nat_put k v n)"
  by (simp add: nat_wf_def nat_put_def distinct_update)

lemma nat_wf_ops:
  "nat_wf NewNAT" "nat_wf n \<Longrightarrow> nat_wf (snd (RemoveAddr a n))" "nat_wf n \<Longrightarrow> nat_wf (nat_Remove p a n)"
  "nat_wf n \<Longrightarrow> (\<And>m. nat_wf m \<Longrightarrow> nat_wf (mid m)) \<Longrightarrow> nat_wf (snd (LoadOrStore mid p a n))"
proof -
  show "nat_wf n \<Longrightarrow> nat_wf (snd (RemoveAddr a n))"
    by (simp add: nat_wf_def RemoveAddr_def Let_def case_prod_beta o_def)
  show "nat_wf NewNAT" by (simp add: nat_wf_def NewNAT_def)
qed (auto simp: nat_wf_put nat_Remove_def LoadOrStore_def Let_def split: option.splits)

lemma LoadOrStore_targets:
  "nat_targets (snd (LoadOrStore id p a n)) k =
     nat_targets n k \<union> (if k = ip_String p then {a} else {})"
  by (auto simp: LoadOrStore_def nat_targets_def Let_def split: option.splits)

lemma LoadOrStore_result:
  "fst (LoadOrStore mid p a n) = (a, a \<in> nat_targets n (ip_String p))"
  by (auto simp: LoadOrStore_def nat_targets_def Let_def split: option.splits)

lemma RouteTo_targets:
  "RouteTo i p n = Some a \<Longrightarrow> a \<in> nat_targets n (ip_String p)"
  by (auto simp: RouteTo_def nat_targets_def split: option.splits if_splits)

lemma RouteTo_None: "RouteTo i p n = None \<longleftrightarrow> nat_targets n (ip_String p) = {}"
  by (auto simp: RouteTo_def nat_targets_def split: option.splits if_splits)

definition nat_learn :: "string \<Rightarrow> net_addr \<Rightarrow> NAT \<Rightarrow> NAT" where
  "nat_learn k a n =
     (case nat_get n k of
        None \<Rightarrow> nat_put k [a] n
      | Some l \<Rightarrow> if a \<in> set l then n else nat_put k (l @ [a]) n)"

lemma LoadOrStore_learn: "snd (LoadOrStore id p a n) = nat_learn (ip_String p) a n"
  by (auto simp: LoadOrStore_def nat_learn_def Let_def split: option.splits)

interpretation nat_table: learning_table nat_targets nat_learn "\<lambda>a n. snd (RemoveAddr a n)"
proof unfold_locales
  show "a \<in> nat_targets (nat_learn k a t) k" for a k t
    by (auto simp: nat_learn_def nat_targets_def split: option.splits)
  show "nat_targets (nat_learn k a t) j \<subseteq> nat_targets t j \<union> (if j = k then {a} else {})" for a k j t
    by (auto simp: nat_learn_def nat_targets_def split: option.splits if_splits)
  show "nat_targets (snd (RemoveAddr a t)) j = nat_targets t j - {a}" for a t j
    by (auto simp: nat_targets_def nat_get_RemoveAddr split: option.splits)
qed

section \<open>The connection table\<close>

text \<open>
  \<^verbatim>\<open>RouteConnNAT\<close>, a \<^verbatim>\<open>sync.Map\<close> from the text of an inner address to the TCP connection it uses.
  \<open>conn_learn\<close> is the \<open>LoadOrStore\<close> and \<open>Store\<close> of \<^verbatim>\<open>fakeUdpHandler.Handle\<close>: a new address is added, and
  an address that another connection had moves to this one.  \<open>conn_forget\<close> is its deferred clean-up.
\<close>

type_synonym conn_table = "(string \<times> nat) list"

definition conn_learn :: "string \<Rightarrow> nat \<Rightarrow> conn_table \<Rightarrow> conn_table" where
  "conn_learn k c t =
     (case map_of t k of
        None \<Rightarrow> AList.update k c t
      | Some v \<Rightarrow> if c \<noteq> v then AList.update k c t else t)"

definition conn_forget :: "nat \<Rightarrow> conn_table \<Rightarrow> conn_table" where
  "conn_forget c t =
     (let keys = map fst (filter (\<lambda>(k, v). v = c) t) in fold AList.delete keys t)"

definition conn_targets :: "conn_table \<Rightarrow> string \<Rightarrow> nat set" where
  "conn_targets t k = set_option (map_of t k)"

lemma conn_learn_map: "map_of (conn_learn k c t) = (map_of t)(k \<mapsto> c)"
  by (auto simp: conn_learn_def update_conv' fun_eq_iff split: option.splits)

lemma fold_delete_map: "map_of (fold AList.delete ks t) k = (if k \<in> set ks then None else map_of t k)"
  by (induction ks arbitrary: t) (auto simp: delete_conv')

lemma conn_forget_map:
  assumes "distinct (map fst t)"
  shows "map_of (conn_forget c t) k = (if map_of t k = Some c then None else map_of t k)"
proof -
  have "k \<in> set (map fst (filter (\<lambda>(k, v). v = c) t)) \<longleftrightarrow> map_of t k = Some c"
    using map_of_eq_Some_iff [OF assms] by force
  then show ?thesis by (simp add: conn_forget_def Let_def fold_delete_map)
qed

lemma distinct_conn_learn: "distinct (map fst t) \<Longrightarrow> distinct (map fst (conn_learn k c t))"
  by (simp add: conn_learn_def distinct_update split: option.splits)

lemma distinct_conn_forget: "distinct (map fst t) \<Longrightarrow> distinct (map fst (conn_forget c t))"
proof -
  have "distinct (map fst s) \<Longrightarrow> distinct (map fst (fold AList.delete ks s))" for ks and s :: conn_table
    by (induction ks arbitrary: s) (simp_all add: distinct_delete)
  then show "distinct (map fst t) \<Longrightarrow> distinct (map fst (conn_forget c t))"
    by (simp add: conn_forget_def Let_def)
qed

text \<open>The tables with distinct keys, as a type of their own.\<close>

typedef conn_map = "{t :: conn_table. distinct (map fst t)}"
  by (rule exI [of _ "[]"]) simp

setup_lifting type_definition_conn_map

lift_definition cm_learn :: "string \<Rightarrow> nat \<Rightarrow> conn_map \<Rightarrow> conn_map" is conn_learn
  by (rule distinct_conn_learn)

lift_definition cm_forget :: "nat \<Rightarrow> conn_map \<Rightarrow> conn_map" is conn_forget
  by (rule distinct_conn_forget)

lift_definition cm_load :: "conn_map \<Rightarrow> string \<Rightarrow> nat option" is map_of .

lift_definition cm_empty :: conn_map is "[]" by simp

lemma cm_load_learn [simp]: "cm_load (cm_learn k c t) j = (if j = k then Some c else cm_load t j)"
  by transfer (simp add: conn_learn_map)

lemma cm_load_forget [simp]: "cm_load (cm_forget c t) j = (if cm_load t j = Some c then None else cm_load t j)"
  by transfer (simp add: conn_forget_map)

lemma cm_load_empty [simp]: "cm_load cm_empty k = None"
  by transfer simp

interpretation conn_table: learning_table "\<lambda>t k. set_option (cm_load t k)" cm_learn cm_forget
  by unfold_locales (auto split: if_splits)

section \<open>Properties of the NAT table\<close>

text \<open>C27: the NAT table routes to what it has learned and to nothing else, although it is keyed by the text of the
  addresses.  \<^verbatim>\<open>LoadOrStore\<close> adds the address to the routes of those destinations that are equal as addresses, in their four-byte
  or sixteen-byte form, and to no other, and reports whether it was there; \<^verbatim>\<open>RouteTo\<close> gives some address of
  the destination whenever there is one, whatever the random number, and after \<^verbatim>\<open>RemoveAddr\<close> no
  destination routes to the removed address while all other routes stay; the count it returns is the
  number of entries that were deleted.\<close>

theorem NAT_routes:
  assumes "length p \<in> {4, 16}" and "length q \<in> {4, 16}"
  shows "nat_targets (snd (LoadOrStore id p a n)) (ip_String q) = nat_targets n (ip_String q) \<union> (if ip_Equal p q then {a} else {})
   \<and> fst (LoadOrStore id p a n) = (a, a \<in> nat_targets n (ip_String p))
   \<and> (case RouteTo i q n of
        None \<Rightarrow> nat_targets n (ip_String q) = {}
      | Some b \<Rightarrow> b \<in> nat_targets n (ip_String q))
   \<and> nat_targets (snd (RemoveAddr a n)) (ip_String q) = nat_targets n (ip_String q) - {a}
   \<and> fst (RemoveAddr a n) = sum_list (map (\<lambda>e. count_list (snd e) a) (nat_routes n))"
proof -
  have "ip_String q = ip_String p \<longleftrightarrow> ip_Equal p q" using ip_String_eq_iff [of p q] assms by auto
  then show ?thesis
    using LoadOrStore_targets LoadOrStore_result RouteTo_targets RouteTo_None [of i q n] nat_table.forget_all
      RemoveAddr_count
    by (auto split: option.splits)
qed

theorem NAT_routes_witness:
  "nat_targets (snd (LoadOrStore id (IPv4 10 0 0 1) ''192.0.2.1:5'' NewNAT)) (ip_String [10, 0, 0, 1]) = {''192.0.2.1:5''}
   \<and> nat_targets (snd (LoadOrStore id (IPv4 10 0 0 1) ''192.0.2.1:5'' NewNAT)) (ip_String [10, 0, 0, 2]) = {}"
proof -
  have "ip_Equal (IPv4 10 0 0 1) [10, 0, 0, 1]" "\<not> ip_Equal (IPv4 10 0 0 1) [10, 0, 0, 2]" "length (IPv4 10 0 0 1) = 16" by code_simp+
  moreover have "nat_targets NewNAT k = {}" for k by (simp add: nat_targets_def nat_get_def NewNAT_def)
  ultimately show ?thesis
    using NAT_routes [of "IPv4 10 0 0 1" "[10, 0, 0, 1]" "''192.0.2.1:5''" NewNAT 0]
      NAT_routes [of "IPv4 10 0 0 1" "[10, 0, 0, 2]" "''192.0.2.1:5''" NewNAT 0] by simp
qed

text \<open>\<^verbatim>\<open>LoadOrStore\<close> is not atomic.  When two goroutines learn the same route at the same time it can end
  up in the table twice, because the second one decides on the list it read before the first one stored;
  and when they learn two different addresses for a destination that was unknown, the first address is
  lost, because the second goroutine overwrites the list.\<close>

theorem LoadOrStore_race:
  assumes "nat_get n (ip_String p) = Some l" and "a \<notin> set l" and "nat_get n (ip_String q) = None"
  shows "(\<exists>l'. nat_get (snd (LoadOrStore (\<lambda>m. snd (LoadOrStore id p a m)) p a n)) (ip_String p) = Some l'
      \<and> count_list l' a = 2)
    \<and> nat_get (snd (LoadOrStore (\<lambda>m. snd (LoadOrStore id q b m)) q a n)) (ip_String q) = Some [a]"
proof -
  from assms(2) have "count_list l a = 0" by (simp add: count_list_0_iff)
  with assms show ?thesis by (simp add: LoadOrStore_def Let_def)
qed

theorem LoadOrStore_race_witness:
  "\<exists>l'. nat_get (snd (LoadOrStore (\<lambda>m. snd (LoadOrStore id [10, 0, 0, 1] ''b:1'' m)) [10, 0, 0, 1] ''b:1''
      \<lparr>nat_routes = [(ip_String [10, 0, 0, 1], [''a:1''])]\<rparr>)) (ip_String [10, 0, 0, 1]) = Some l'
    \<and> count_list l' ''b:1'' = 2"
proof -
  let ?n = "\<lparr>nat_routes = [(ip_String [10, 0, 0, 1], [''a:1''])]\<rparr>"
  have "ip_String [10, 0, 0, 2] \<noteq> ip_String [10, 0, 0, 1]" by code_simp
  then have "nat_get ?n (ip_String [10, 0, 0, 1]) = Some [''a:1'']" "nat_get ?n (ip_String [10, 0, 0, 2]) = None"
    by (simp_all add: nat_get_def)
  from LoadOrStore_race [OF this(1) _ this(2), of "''b:1''"] show ?thesis by simp
qed

end
