(* ===== verification/Datagram.thy ===== *)
theory Datagram
  imports Net_IP "HOL-Library.Sublist"
begin

text \<open>
  The two codecs of the tunnel: UDP packets framed on a TCP stream
  (\<^verbatim>\<open>src/pkg/core/udpovertcp.go\<close>) and the header that names the endpoint of a proxied connection
  (\<^verbatim>\<open>WriteProxyInfo\<close> and \<^verbatim>\<open>ParseProxyInfo\<close> of \<^verbatim>\<open>src/pkg/core/gvisortcpforwarder.go\<close>).
  A connection is the list of the bytes still to be read; its end is the end of the list.

  The locale \<open>frame_codec\<close> is the contract of such a codec; both codecs interpret it.
\<close>

section \<open>Codecs of frames on a stream\<close>

locale frame_codec =
  fixes enc :: "'a \<Rightarrow> byte list"
    and dec :: "byte list \<Rightarrow> ('a \<times> byte list) option"
    and valid :: "'a \<Rightarrow> bool"
  assumes dec_enc: "valid x \<Longrightarrow> dec (enc x @ rest) = Some (x, rest)"
    and dec_more: "dec p = Some (y, r) \<Longrightarrow> dec (p @ q) = Some (y, r @ q)"
    and enc_pos: "valid x \<Longrightarrow> enc x \<noteq> []"

text \<open>Reading frames until the decoder refuses: the frames and what is left.\<close>

function read_frames :: "(byte list \<Rightarrow> ('a \<times> byte list) option) \<Rightarrow> byte list \<Rightarrow> 'a list \<times> byte list" where
  "read_frames dec s =
     (case dec s of
        None \<Rightarrow> ([], s)
      | Some (x, s') \<Rightarrow>
          if length s' < length s then (case read_frames dec s' of (xs, r) \<Rightarrow> (x # xs, r)) else ([], s))"
  by pat_completeness auto
termination
  by (relation "measure (\<lambda>(dec, s). length s)") auto

declare read_frames.simps [simp del]

context frame_codec
begin

text \<open>A stream splits into frames in one way only.\<close>

lemma enc_unique: "valid x \<Longrightarrow> valid y \<Longrightarrow> enc x @ r = enc y @ s \<Longrightarrow> x = y \<and> r = s"
  by (metis dec_enc option.inject prod.inject)

lemma dec_short: "valid x \<Longrightarrow> strict_prefix p (enc x) \<Longrightarrow> dec p = None"
proof (rule ccontr)
  assume v: "valid x" and "strict_prefix p (enc x)" and "dec p \<noteq> None"
  then obtain q y r where q: "enc x = p @ q" "q \<noteq> []" and "dec p = Some (y, r)"
    by (auto simp: strict_prefix_def prefix_def)
  from dec_more [OF this(3), of q] dec_enc [OF v, of "[]"] q show False by simp
qed

text \<open>Whole frames are read in order; a frame cut off by the end of the stream is not delivered.\<close>

lemma read_frames_concat:
  assumes "\<And>x. x \<in> set xs \<Longrightarrow> valid x" and "valid y" and "strict_prefix p (enc y)"
  shows "read_frames dec (concat (map enc xs) @ p) = (xs, p)"
  using assms(1)
proof (induction xs)
  case Nil
  have "dec p = None" using assms(2,3) dec_short by auto
  then show ?case by (simp add: read_frames.simps [of dec p])
next
  case (Cons x xs)
  have "dec (enc x @ concat (map enc xs) @ p) = Some (x, concat (map enc xs) @ p)"
    using Cons.prems dec_enc by simp
  with Cons enc_pos [of x] show ?case
    by (simp add: read_frames.simps [of dec "enc x @ concat (map enc xs) @ p"])
qed

end

section \<open>Reading from a connection\<close>

datatype read_err = EOF | ErrUnexpectedEOF

text \<open>\<open>io.ReadFull\<close> of \<open>n\<close> bytes: the bytes and the rest of the stream.\<close>

definition ReadFull :: "nat \<Rightarrow> byte list \<Rightarrow> (read_err, byte list \<times> byte list) outcome" where
  "ReadFull n s =
     (if n \<le> length s then Ret (take n s, drop n s)
      else if s = [] then Fail EOF else Fail ErrUnexpectedEOF)"

lemma ReadFull_append [simp]: "length a = n \<Longrightarrow> ReadFull n (a @ s) = Ret (a, s)"
  by (auto simp: ReadFull_def)

lemma ReadFull_Ret: "ReadFull n s = Ret (a, r) \<longleftrightarrow> length a = n \<and> s = a @ r"
  by (auto simp: ReadFull_def split: if_splits)

lemma ReadFull_short: "length s < n \<Longrightarrow> \<exists>e. ReadFull n s = Fail e"
  by (simp add: ReadFull_def)

text \<open>\<open>copy(b, src)\<close> of Go: the new content of \<open>b\<close>.\<close>

definition copy_into :: "byte list \<Rightarrow> byte list \<Rightarrow> byte list" where
  "copy_into b src = take (length b) src @ drop (length src) b"

lemma length_copy_into [simp]: "length (copy_into b src) = length b"
  by (auto simp: copy_into_def)

lemma take_copy_into: "length src \<le> length b \<Longrightarrow> take (length src) (copy_into b src) = src"
  by (simp add: copy_into_def)

section \<open>UDP over TCP\<close>

record datagramPacket =
  DataLength :: "16 word"
  Data :: "byte list"

definition LargeBufferSize :: nat where
  "LargeBufferSize = 2 ^ 16 - 1"

definition newDatagramPacket :: "byte list \<Rightarrow> datagramPacket" where
  "newDatagramPacket data = \<lparr>DataLength = of_nat (length data), Data = data\<rparr>"

text \<open>
  The readers fill the buffer \<open>b\<close> in place; the result is the packet, the content of the buffer
  and the rest of the stream.  \<open>b[:dataLength]\<close> panics on a buffer that is too short.
\<close>

definition readDatagramPacket ::
  "byte list \<Rightarrow> byte list \<Rightarrow> (read_err, datagramPacket \<times> byte list \<times> byte list) outcome" where
  "readDatagramPacket s b =
     (if length b < 2 then Panic
      else bind_outcome (ReadFull 2 s) (\<lambda>(hd2, s1).
        let b1 = copy_into b hd2; dataLength = (of_nat (be_nat (take 2 b1)) :: 16 word) in
        if length b1 < unat dataLength then Panic
        else bind_outcome (ReadFull (unat dataLength) s1) (\<lambda>(body, s2).
          let b2 = copy_into b1 body in
          Ret (\<lparr>DataLength = dataLength, Data = take (unat dataLength) b2\<rparr>, b2, s2))))"

definition readDatagramPacketServer ::
  "byte list \<Rightarrow> byte list \<Rightarrow> (read_err, datagramPacket \<times> byte list \<times> byte list) outcome" where
  "readDatagramPacketServer s b =
     (if length b < 2 then Panic
      else bind_outcome (ReadFull 2 s) (\<lambda>(hd2, s1).
        let b1 = copy_into b hd2; dataLength = (of_nat (be_nat (take 2 b1)) :: 16 word) in
        if length b1 < unat dataLength then Panic
        else bind_outcome (ReadFull (unat dataLength) s1) (\<lambda>(body, s2).
          let b2 = copy_into b1 body in
          Ret (\<lparr>DataLength = dataLength, Data = b2\<rparr>, b2, s2))))"

text \<open>\<open>Write\<close>: the bytes sent, with \<open>b\<close> the buffer taken from the pool.\<close>

definition datagram_Write :: "byte list \<Rightarrow> datagramPacket \<Rightarrow> byte list" where
  "datagram_Write b p =
     (let b1 = copy_into b (be_fixed 2 (unat (of_nat (length (Data p)) :: 16 word)));
          n = min (length b1 - 2) (length (Data p));
          b2 = take 2 b1 @ copy_into (drop 2 b1) (Data p)
      in take (n + 2) b2)"

text \<open>\<open>fakeUDPTunnelConn.WriteTo\<close> and \<open>ReadFrom\<close> of \<^verbatim>\<open>src/pkg/core/tcphandler.go\<close>.\<close>

definition tunnel_WriteTo :: "byte list \<Rightarrow> byte list \<Rightarrow> byte list \<times> nat" where
  "tunnel_WriteTo pool b = (datagram_Write pool (newDatagramPacket b), length b)"

definition tunnel_ReadFrom ::
  "byte list \<Rightarrow> byte list \<Rightarrow> (read_err, nat \<times> byte list \<times> byte list) outcome" where
  "tunnel_ReadFrom s b =
     map_outcome (\<lambda>(p, b', s'). (unat (DataLength p), b', s')) (readDatagramPacket s b)"

subsection \<open>The frames on the wire\<close>

lemma datagram_Write_eq:
  assumes "length b = LargeBufferSize"
  shows "datagram_Write b p =
    be_fixed 2 (length (Data p)) @ take (LargeBufferSize - 2) (Data p)"
proof -
  have h: "be_fixed 2 (unat (of_nat n :: 16 word)) = be_fixed 2 n" for n
  proof (rule be_nat_inj)
    show "be_nat (be_fixed 2 (unat (of_nat n :: 16 word))) = be_nat (be_fixed 2 n)"
      by (simp add: be_nat_fixed unat_of_nat)
  qed simp
  define b1 where "b1 = copy_into b (be_fixed 2 (length (Data p)))"
  have b1: "take 2 b1 = be_fixed 2 (length (Data p))" "length b1 = LargeBufferSize"
    using assms by (simp_all add: b1_def copy_into_def LargeBufferSize_def)
  define d where "d = drop 2 b1"
  have d: "length d = LargeBufferSize - 2" by (simp add: d_def b1)
  have "take (min (length d) (length (Data p))) (copy_into d (Data p)) = take (length d) (Data p)"
    by (auto simp: copy_into_def min_def)
  moreover have "take (n + 2) (take 2 b1 @ ys) = take 2 b1 @ take n ys" for n ys
    by (simp add: b1(1))
  ultimately show ?thesis
    by (simp add: datagram_Write_def Let_def h b1_def [symmetric] d_def [symmetric] b1 d
        del: take_append)
qed

lemma header_word:
  "n < 65536 \<Longrightarrow> (of_nat (be_nat (be_fixed 2 n)) :: 16 word) = of_nat n"
  "n < 65536 \<Longrightarrow> unat (of_nat n :: 16 word) = n"
  by (simp_all add: be_nat_fixed unat_of_nat)

lemma take2_copy_into: "length h = 2 \<Longrightarrow> 2 \<le> length b \<Longrightarrow> take 2 (copy_into b h) = h"
  using take_copy_into [of h b] by simp

lemma readDatagramPacketServer_frame:
  assumes "length b = LargeBufferSize" and "length body = n" and "n < 65536"
  shows "readDatagramPacketServer (be_fixed 2 n @ body @ rest) b =
    (let b2 = copy_into (copy_into b (be_fixed 2 n)) body in
     Ret (\<lparr>DataLength = of_nat n, Data = b2\<rparr>, b2, rest))"
  using assms
  by (simp add: readDatagramPacketServer_def Let_def take2_copy_into LargeBufferSize_def header_word)

lemma readDatagramPacket_frame:
  assumes "length b = LargeBufferSize" and "length body = n" and "n < 65536"
  shows "readDatagramPacket (be_fixed 2 n @ body @ rest) b =
    Ret (\<lparr>DataLength = of_nat n, Data = body\<rparr>, copy_into (copy_into b (be_fixed 2 n)) body, rest)"
proof -
  have "take n (copy_into c body) = body" if "n \<le> length c" for c
    using take_copy_into [of body c] assms(2) that by simp
  with assms show ?thesis
    by (simp add: readDatagramPacket_def Let_def take2_copy_into LargeBufferSize_def header_word)
qed

lemma readDatagramPacketServer_more:
  "readDatagramPacketServer s b = Ret (p, b', r) \<Longrightarrow>
   readDatagramPacketServer (s @ q) b = Ret (p, b', r @ q)"
  by (auto simp: readDatagramPacketServer_def Let_def bind_outcome_Ret_iff ReadFull_Ret split: if_splits)

text \<open>The framing as a codec of payloads, over buffers as the pool makes them.\<close>

definition dgram_enc :: "byte list \<Rightarrow> byte list" where
  "dgram_enc d = datagram_Write (replicate LargeBufferSize 0) (newDatagramPacket d)"

definition dgram_dec :: "byte list \<Rightarrow> (byte list \<times> byte list) option" where
  "dgram_dec s =
     (case readDatagramPacketServer s (replicate LargeBufferSize 0) of
        Ret (p, b, s') \<Rightarrow> Some (take (unat (DataLength p)) (Data p), s')
      | _ \<Rightarrow> None)"

definition dgram_valid :: "byte list \<Rightarrow> bool" where
  "dgram_valid d \<longleftrightarrow> length d \<le> LargeBufferSize - 2"

lemma dgram_enc_eq: "dgram_valid d \<Longrightarrow> dgram_enc d = be_fixed 2 (length d) @ d"
  by (simp add: dgram_enc_def datagram_Write_eq newDatagramPacket_def dgram_valid_def)

interpretation dgram: frame_codec dgram_enc dgram_dec dgram_valid
proof unfold_locales
  fix d rest
  assume v: "dgram_valid d"
  then have n: "length d < 65536" "length d \<le> LargeBufferSize"
    by (simp_all add: dgram_valid_def LargeBufferSize_def)
  then have "take (length d) (copy_into (copy_into (replicate LargeBufferSize 0) h) d) = d" for h
    by (intro take_copy_into) simp
  with n show "dgram_dec (dgram_enc d @ rest) = Some (d, rest)"
    by (simp add: dgram_enc_eq [OF v] dgram_dec_def readDatagramPacketServer_frame Let_def header_word)
next
  fix p y r q
  assume "dgram_dec p = Some (y, r)"
  then show "dgram_dec (p @ q) = Some (y, r @ q)"
    by (auto simp: dgram_dec_def readDatagramPacketServer_more split: outcome.splits)
next
  fix d
  assume "dgram_valid d"
  then show "dgram_enc d \<noteq> []" by (auto simp: dgram_enc_eq dest: arg_cong [where f = length])
qed

section \<open>The header of a proxied connection\<close>

record TransportEndpointID =
  LocalPort :: "16 word"
  LocalAddress :: "byte list"
  RemotePort :: "16 word"
  RemoteAddress :: "byte list"

text \<open>\<open>tcpip.AddrFromSlice\<close>: the zero \<open>Address\<close>, of length 0, for any other length.\<close>

definition AddrFromSlice :: "byte list \<Rightarrow> byte list" where
  "AddrFromSlice a = (if length a = 4 \<or> length a = 16 then a else [])"

definition WriteProxyInfo :: "TransportEndpointID \<Rightarrow> byte list" where
  "WriteProxyInfo eid =
     be_fixed 2 (unat (LocalPort eid)) @ be_fixed 2 (unat (RemotePort eid))
     @ [of_nat (length (LocalAddress eid))] @ LocalAddress eid
     @ [of_nat (length (RemoteAddress eid))] @ RemoteAddress eid"

text \<open>Each read returns early with what was parsed so far when it fails.\<close>

definition read_field ::
  "nat \<Rightarrow> byte list \<Rightarrow> 'i \<Rightarrow> (byte list \<Rightarrow> byte list \<Rightarrow> ('i \<times> read_err, 'r) outcome) \<Rightarrow> ('i \<times> read_err, 'r) outcome" where
  "read_field n s i k =
     (case ReadFull n s of Ret (b, s') \<Rightarrow> k b s' | Fail e \<Rightarrow> Fail (i, e) | Panic \<Rightarrow> Panic)"

definition ParseProxyInfo ::
  "byte list \<Rightarrow> (TransportEndpointID \<times> read_err, TransportEndpointID \<times> byte list) outcome" where
  "ParseProxyInfo s0 =
     (let i0 = \<lparr>LocalPort = 0, LocalAddress = [], RemotePort = 0, RemoteAddress = []\<rparr> in
      read_field 2 s0 i0 (\<lambda>port s1.
        let i1 = i0\<lparr>LocalPort := of_nat (be_nat port)\<rparr> in
        read_field 2 s1 i1 (\<lambda>port s2.
          let i2 = i1\<lparr>RemotePort := of_nat (be_nat port)\<rparr> in
          read_field 1 s2 i2 (\<lambda>len s3.
            read_field (unat (len ! 0)) s3 i2 (\<lambda>localAddress s4.
              let i3 = i2\<lparr>LocalAddress := AddrFromSlice localAddress\<rparr> in
              read_field 1 s4 i3 (\<lambda>len s5.
                read_field (unat (len ! 0)) s5 i3 (\<lambda>remoteAddress s6.
                  Ret (i3\<lparr>RemoteAddress := AddrFromSlice remoteAddress\<rparr>, s6))))))))"

lemma read_field_append [simp]: "length a = n \<Longrightarrow> read_field n (a @ s) i k = k a s"
  by (simp add: read_field_def)

lemma read_field_one [simp]: "read_field (Suc 0) (x # s) i k = k [x] s"
  using read_field_append [of "[x]" "Suc 0" s i k] by simp

lemma read_field_all [simp]: "length a = n \<Longrightarrow> read_field n a i k = k a []"
  using read_field_append [of a n "[]" i k] by simp

lemma read_field_short: "length s < n \<Longrightarrow> \<exists>e. read_field n s i k = Fail (i, e)"
  using ReadFull_short [of s n] by (auto simp: read_field_def)

text \<open>A gvisor address has 0, 4 or 16 bytes.\<close>

definition endpoint_valid :: "TransportEndpointID \<Rightarrow> bool" where
  "endpoint_valid eid \<longleftrightarrow>
     length (LocalAddress eid) \<in> {0, 4, 16} \<and> length (RemoteAddress eid) \<in> {0, 4, 16}"

definition proxy_dec :: "byte list \<Rightarrow> (TransportEndpointID \<times> byte list) option" where
  "proxy_dec s = (case ParseProxyInfo s of Ret r \<Rightarrow> Some r | _ \<Rightarrow> None)"

lemma ReadFull_more: "ReadFull n s = Ret (a, r) \<Longrightarrow> ReadFull n (s @ q) = Ret (a, r @ q)"
  by (auto simp: ReadFull_Ret)

lemma read_field_more:
  assumes "read_field n s i k = Ret (y, r)"
    and "\<And>a s'. k a s' = Ret (y, r) \<Longrightarrow> k a (s' @ q) = Ret (y, r @ q)"
  shows "read_field n (s @ q) i k = Ret (y, r @ q)"
  using assms by (auto simp: read_field_def ReadFull_more split: outcome.splits)

lemma ParseProxyInfo_more: "ParseProxyInfo s = Ret (y, r) \<Longrightarrow> ParseProxyInfo (s @ q) = Ret (y, r @ q)"
  unfolding ParseProxyInfo_def Let_def by (erule read_field_more)+ simp

lemma AddrFromSlice_valid: "length a \<in> {0, 4, 16} \<Longrightarrow> AddrFromSlice a = a"
  by (auto simp: AddrFromSlice_def)

lemma byte_length: "length a \<in> {0, 4, 16} \<Longrightarrow> unat (of_nat (length a) :: byte) = length a"
  by auto

lemma ParseProxyInfo_Write:
  assumes "endpoint_valid eid"
  shows "ParseProxyInfo (WriteProxyInfo eid @ rest) = Ret (eid, rest)"
proof -
  have port: "(of_nat (be_nat (be_fixed 2 (unat p))) :: 16 word) = p" for p :: "16 word"
  proof -
    have "unat p < 65536" using unsigned_less [where 'a = nat, of p] by simp
    then show ?thesis by (simp add: be_nat_fixed)
  qed
  from assms show ?thesis
    by (cases eid)
      (simp add: WriteProxyInfo_def ParseProxyInfo_def Let_def endpoint_valid_def port byte_length
        AddrFromSlice_valid)
qed

interpretation proxy: frame_codec WriteProxyInfo proxy_dec endpoint_valid
proof unfold_locales
  show "WriteProxyInfo x \<noteq> []" for x by (simp add: WriteProxyInfo_def)
qed (auto simp: proxy_dec_def ParseProxyInfo_Write ParseProxyInfo_more split: outcome.splits)

section \<open>Properties of the codecs\<close>

lemma tunnel_frame:
  assumes "length pool = LargeBufferSize" and "length b = LargeBufferSize" and "length d \<le> 65533"
  shows "\<exists>b'. readDatagramPacket (fst (tunnel_WriteTo pool d) @ rest) b = Ret (newDatagramPacket d, b', rest)
    \<and> readDatagramPacketServer (fst (tunnel_WriteTo pool d) @ rest) b
      = Ret (\<lparr>DataLength = of_nat (length d), Data = b'\<rparr>, b', rest)
    \<and> take (length d) b' = d \<and> unat (DataLength (newDatagramPacket d)) = length d"
proof -
  have w: "fst (tunnel_WriteTo pool d) = be_fixed 2 (length d) @ d"
    using assms by (simp add: tunnel_WriteTo_def datagram_Write_eq newDatagramPacket_def LargeBufferSize_def)
  let ?b = "copy_into (copy_into b (be_fixed 2 (length d))) d"
  have "take (length d) ?b = d"
    using assms by (intro take_copy_into) (simp add: LargeBufferSize_def)
  with assms show ?thesis
    by (intro exI [of _ ?b])
      (simp add: w readDatagramPacket_frame readDatagramPacketServer_frame newDatagramPacket_def Let_def
        header_word)
qed

text \<open>C8: a payload of at most 65533 bytes that \<^verbatim>\<open>fakeUDPTunnelConn.WriteTo\<close> puts on a TCP stream is
  what both readers take off it, whatever the pooled buffers held before and whatever follows on the
  stream: the client side returns exactly the payload, the server side the whole buffer with the length.\<close>

theorem datagram_roundtrip:
  assumes "length pool = LargeBufferSize" and "length b = LargeBufferSize" and "length d \<le> 65533"
  shows "\<exists>b'. readDatagramPacket (fst (tunnel_WriteTo pool d) @ rest) b = Ret (newDatagramPacket d, b', rest)
    \<and> readDatagramPacketServer (fst (tunnel_WriteTo pool d) @ rest) b
      = Ret (\<lparr>DataLength = of_nat (length d), Data = b'\<rparr>, b', rest)
    \<and> take (length d) b' = d \<and> unat (DataLength (newDatagramPacket d)) = length d"
  by (rule tunnel_frame [OF assms])

theorem datagram_roundtrip_witness:
  "\<exists>b'. readDatagramPacket (fst (tunnel_WriteTo (replicate LargeBufferSize 1) [7, 8]) @ [9])
      (replicate LargeBufferSize 2) = Ret (\<lparr>DataLength = 2, Data = [7, 8]\<rparr>, b', [9])"
  using datagram_roundtrip [of "replicate LargeBufferSize 1" "replicate LargeBufferSize 2" "[7, 8]" "[9]"]
  by (auto simp: newDatagramPacket_def)

text \<open>Payloads sent one after the other arrive complete, in order and one per frame, and a frame
  that the end of the connection cuts short is not delivered at all.\<close>

theorem datagram_stream:
  assumes "\<And>d. d \<in> set ds \<Longrightarrow> length d \<le> 65533" and "length y \<le> 65533" and "strict_prefix p (dgram_enc y)"
  shows "read_frames dgram_dec (concat (map dgram_enc ds) @ p) = (ds, p)"
  by (rule dgram.read_frames_concat [OF _ _ assms(3)])
    (use assms(1,2) in \<open>auto simp: dgram_valid_def LargeBufferSize_def\<close>)

theorem datagram_stream_witness:
  "read_frames dgram_dec (concat (map dgram_enc [[1, 2], [], [3]]) @ [0]) = ([[1, 2], [], [3]], [0])"
proof -
  have "dgram_enc [4] = [0, 1, 4]"
    by (simp add: dgram_enc_eq dgram_valid_def LargeBufferSize_def) code_simp
  then have "strict_prefix [0] (dgram_enc [4])" by simp
  then show ?thesis by (intro datagram_stream [where y = "[4]"]) auto
qed

text \<open>C20: a payload of 65534 or 65535 bytes does not survive the framing: \<^verbatim>\<open>Write\<close> announces its length
  but its pooled buffer has room for 65533 bytes only, so the reader completes the payload with the first
  bytes of whatever comes next on the stream and is out of step from there on.\<close>

theorem datagram_oversize_desync:
  assumes "length pool = LargeBufferSize" and "length b = LargeBufferSize"
    and "65533 < length d" and "length d \<le> 65535" and "length d - 65533 \<le> length rest"
  shows "\<exists>b'. readDatagramPacket (fst (tunnel_WriteTo pool d) @ rest) b =
    Ret (\<lparr>DataLength = of_nat (length d), Data = take 65533 d @ take (length d - 65533) rest\<rparr>, b',
      drop (length d - 65533) rest)"
proof -
  let ?k = "length d - 65533"
  have "fst (tunnel_WriteTo pool d) @ rest =
    be_fixed 2 (length d) @ (take 65533 d @ take ?k rest) @ drop ?k rest"
    using assms by (simp add: tunnel_WriteTo_def datagram_Write_eq newDatagramPacket_def LargeBufferSize_def)
  then show ?thesis
    using assms readDatagramPacket_frame [of b "take 65533 d @ take ?k rest" "length d" "drop ?k rest"]
    by simp
qed

theorem datagram_oversize_desync_witness:
  "\<exists>b'. readDatagramPacket (fst (tunnel_WriteTo (replicate LargeBufferSize 0) (replicate 65534 7)) @ [9, 1])
      (replicate LargeBufferSize 0) =
    Ret (\<lparr>DataLength = 65534, Data = replicate 65533 7 @ [9]\<rparr>, b', [1])"
  using datagram_oversize_desync [of "replicate LargeBufferSize 0" "replicate LargeBufferSize 0"
      "replicate 65534 7" "[9, 1]"]
  by simp

text \<open>\<^verbatim>\<open>ParseProxyInfo\<close> reads back the endpoint \<^verbatim>\<open>WriteProxyInfo\<close> wrote and leaves the bytes of the
  proxied connection untouched; any proper prefix of the header is an error.\<close>

theorem proxy_info_roundtrip:
  assumes "endpoint_valid eid"
  shows "ParseProxyInfo (WriteProxyInfo eid @ rest) = Ret (eid, rest)
    \<and> (\<forall>p. strict_prefix p (WriteProxyInfo eid) \<longrightarrow> proxy_dec p = None)"
  using assms ParseProxyInfo_Write proxy.dec_short by blast

theorem proxy_info_roundtrip_witness:
  "ParseProxyInfo (WriteProxyInfo \<lparr>LocalPort = 80, LocalAddress = [10, 0, 0, 1], RemotePort = 4660,
      RemoteAddress = [223, 254, 0, 101]\<rparr> @ [5]) =
   Ret (\<lparr>LocalPort = 80, LocalAddress = [10, 0, 0, 1], RemotePort = 4660,
      RemoteAddress = [223, 254, 0, 101]\<rparr>, [5])"
  using proxy_info_roundtrip [of "\<lparr>LocalPort = 80, LocalAddress = [10, 0, 0, 1], RemotePort = 4660,
      RemoteAddress = [223, 254, 0, 101]\<rparr>" "[5]"]
  by (simp add: endpoint_valid_def)

end
