(* ===== verification/Tun_Server.thy ===== *)
theory Tun_Server
  imports Nat_Table Datagram
begin

text \<open>
  The traffic manager's side of the tunnel (\<^verbatim>\<open>src/pkg/core/tunhandler.go\<close> and \<^verbatim>\<open>tcphandler.go\<close>): the
  goroutines of \<^verbatim>\<open>Device\<close> and \<^verbatim>\<open>Peer\<close> and the TCP handler, each as a function for one round of its loop,
  and the system they form with their buffered channels as a step relation.  The system covers one run of
  \<^verbatim>\<open>transportTun\<close>, up to its first error.
\<close>

section \<open>Packets\<close>

definition MaxSize :: nat where "MaxSize = 1000"
definition MaxThread :: nat where "MaxThread = 10"

text \<open>A packet in a pooled buffer: the whole buffer, and how much of it is packet.\<close>

record DataElem =
  de_data :: "byte list"
  de_length :: nat
  de_src :: ip
  de_dst :: ip

definition NewDataElem :: "byte list \<Rightarrow> nat \<Rightarrow> ip \<Rightarrow> ip \<Rightarrow> DataElem" where
  "NewDataElem d n src dst = \<lparr>de_data = d, de_length = n, de_src = src, de_dst = dst\<rparr>"

record udpElem =
  ue_from :: net_addr
  ue_data :: "byte list"
  ue_length :: nat
  ue_src :: ip
  ue_dst :: ip

text \<open>
  Source and destination of the packet in the first \<open>n\<close> bytes of a buffer, \<open>None\<close> for an unknown
  version.  Go checks an index against the length of a slice but a slice expression against its capacity,
  so a short IPv4 packet panics and a short IPv6 packet takes its addresses from old bytes of the buffer.
\<close>

definition ipv4_at :: "byte list \<Rightarrow> nat \<Rightarrow> ('e, ip) outcome" where
  "ipv4_at b i =
     bind_outcome (go_index b i) (\<lambda>w. bind_outcome (go_index b (i + 1)) (\<lambda>x.
     bind_outcome (go_index b (i + 2)) (\<lambda>y. bind_outcome (go_index b (i + 3)) (\<lambda>z.
     Ret (IPv4 w x y z)))))"

definition header_addrs :: "byte list \<Rightarrow> nat \<Rightarrow> ('e, (ip \<times> ip) option) outcome" where
  "header_addrs buf n =
     (let b = take n buf in
      bind_outcome (IsIPv4 b) (\<lambda>v4.
        if v4 then bind_outcome (ipv4_at b 12) (\<lambda>src. bind_outcome (ipv4_at b 16) (\<lambda>dst. Ret (Some (src, dst))))
        else bind_outcome (IsIPv6 b) (\<lambda>v6.
          if v6 then bind_outcome (go_slice buf 8 24) (\<lambda>src. bind_outcome (go_slice buf 24 40) (\<lambda>dst.
            Ret (Some (src, dst))))
          else Ret None)))"

section \<open>One round of each goroutine\<close>

text \<open>\<^verbatim>\<open>Device.parseIPHeader\<close>: the parsed element, \<open>None\<close> when it is skipped.\<close>

definition parseIPHeader :: "DataElem \<Rightarrow> ('e, DataElem option) outcome" where
  "parseIPHeader e =
     map_outcome (map_option (\<lambda>(s, d). e\<lparr>de_src := s, de_dst := d\<rparr>)) (header_addrs (de_data e) (de_length e))"

text \<open>\<^verbatim>\<open>Peer.readFromTCPConn\<close> parses the whole buffer of the datagram.\<close>

definition readFromTCPConn :: "datagramPacket \<Rightarrow> ('e, udpElem option) outcome" where
  "readFromTCPConn p =
     map_outcome (map_option (\<lambda>(s, d). \<lparr>ue_from = [], ue_data = Data p, ue_length = unat (DataLength p),
        ue_src = s, ue_dst = d\<rparr>)) (header_addrs (Data p) (length (Data p)))"

text \<open>
  \<^verbatim>\<open>Peer.parseHeader\<close>: a worker keeps its two flags.  The result is the parsed element, the new flags
  and whether the worker goes on to learn the route of the sender.
\<close>

definition parseHeader :: "bool \<times> bool \<Rightarrow> udpElem \<Rightarrow> ('e, (udpElem \<times> (bool \<times> bool) \<times> bool) option) outcome" where
  "parseHeader flags e =
     bind_outcome (header_addrs (ue_data e) (ue_length e)) (\<lambda>h.
       case h of
         None \<Rightarrow> Ret None
       | Some (s, d) \<Rightarrow>
           let e' = e\<lparr>ue_src := s, ue_dst := d\<rparr>; (firstIPv4, firstIPv6) = flags in
           if firstIPv4 \<or> firstIPv6
           then bind_outcome (IsIPv4 (take (ue_length e) (ue_data e))) (\<lambda>v4.
             Ret (Some (e', (if v4 then (False, firstIPv6) else (firstIPv4, False)), True)))
           else Ret (Some (e', flags, False)))"

datatype route = ViaUDP net_addr | ViaTCP nat | ViaTun | NoRoute

text \<open>The decisions of \<^verbatim>\<open>routePeer\<close> and \<^verbatim>\<open>routeTUN\<close>, with \<open>i\<close> the random number of \<open>RouteTo\<close>.\<close>

definition routePeer :: "nat \<Rightarrow> ip \<Rightarrow> NAT \<Rightarrow> conn_map \<Rightarrow> route" where
  "routePeer i dst tbl conns =
     (case RouteTo i dst tbl of
        Some a \<Rightarrow> ViaUDP a
      | None \<Rightarrow> (case cm_load conns (ip_String dst) of Some c \<Rightarrow> ViaTCP c | None \<Rightarrow> ViaTun))"

definition routeTUN :: "nat \<Rightarrow> ip \<Rightarrow> NAT \<Rightarrow> conn_map \<Rightarrow> route" where
  "routeTUN i dst tbl conns =
     (case RouteTo i dst tbl of
        Some a \<Rightarrow> ViaUDP a
      | None \<Rightarrow> (case cm_load conns (ip_String dst) of Some c \<Rightarrow> ViaTCP c | None \<Rightarrow> NoRoute))"

text \<open>
  \<^verbatim>\<open>fakeUdpHandler.Handle\<close>: one round on the TCP connection \<open>c\<close> with the pooled buffer \<open>b\<close>.  A read
  error ends the handler, whose deferred function deletes the keys of the connection.
\<close>

datatype tcp_round =
    TcpClosed conn_map
  | TcpSkipped "byte list"
  | TcpPacket conn_map datagramPacket "byte list" ip

definition tcp_source :: "datagramPacket \<Rightarrow> ('e, ip option) outcome" where
  "tcp_source p =
     (let bb = take (unat (DataLength p)) (Data p) in
      bind_outcome (IsIPv4 bb) (\<lambda>v4.
        if v4 then map_outcome Some (ipv4_at bb 12)
        else bind_outcome (IsIPv6 bb) (\<lambda>v6.
          if v6 then map_outcome Some (go_slice (Data p) 8 24) else Ret None)))"

definition tcp_handle :: "nat \<Rightarrow> byte list \<Rightarrow> byte list \<Rightarrow> conn_map \<Rightarrow> (read_err, tcp_round) outcome" where
  "tcp_handle c b s conns =
     (case readDatagramPacketServer s b of
        Panic \<Rightarrow> Panic
      | Fail _ \<Rightarrow> Ret (TcpClosed (cm_forget c conns))
      | Ret (dgram, b', s') \<Rightarrow>
          bind_outcome (tcp_source dgram) (\<lambda>src.
            case src of
              None \<Rightarrow> Ret (TcpSkipped s')
            | Some a \<Rightarrow> Ret (TcpPacket (cm_learn (ip_String a) c conns) dgram s' a)))"

section \<open>The system\<close>

datatype delivery = UdpOut net_addr "byte list" | TcpOut nat "byte list" | TunOut "byte list" | Dropped

record worker =
  wk_flags :: "bool \<times> bool"
  wk_store :: "(udpElem \<times> net_addr list option) option"

text \<open>
  The channels, the tables, the workers of \<open>parseHeader\<close> (a worker between the two locks of \<open>LoadOrStore\<close>
  holds its element and the list it has read), and four histories: the sources seen per UDP address, per
  TCP connection, the packets received, and what was routed where, by destination.
\<close>

record tun_sys =
  ts_nat :: NAT
  ts_conns :: conn_map
  ts_connInbound :: "udpElem list"
  ts_parsed :: "udpElem list"
  ts_workers :: "worker list"
  ts_tunRaw :: "DataElem list"
  ts_tunIn :: "DataElem list"
  ts_tunOut :: "DataElem list"
  ts_chan :: "datagramPacket list"
  ts_seen :: "(string \<times> net_addr) set"
  ts_seenConn :: "(string \<times> nat) set"
  ts_received :: "byte list set"
  ts_log :: "(string \<times> delivery) list"
  ts_crashed :: bool

definition tun_init :: tun_sys where
  "tun_init =
     \<lparr>ts_nat = NewNAT, ts_conns = cm_empty, ts_connInbound = [], ts_parsed = [],
      ts_workers = replicate MaxThread \<lparr>wk_flags = (True, True), wk_store = None\<rparr>,
      ts_tunRaw = [], ts_tunIn = [], ts_tunOut = [], ts_chan = [],
      ts_seen = {}, ts_seenConn = {}, ts_received = {}, ts_log = [], ts_crashed = False\<rparr>"

text \<open>What leaves the process for a routed element.\<close>

definition send_route :: "byte list \<Rightarrow> route \<Rightarrow> byte list \<Rightarrow> delivery" where
  "send_route pool r d =
     (case r of
        ViaUDP a \<Rightarrow> UdpOut a d
      | ViaTCP c \<Rightarrow> TcpOut c (datagram_Write pool (newDatagramPacket d))
      | ViaTun \<Rightarrow> TunOut d
      | NoRoute \<Rightarrow> Dropped)"

text \<open>The second half of \<open>LoadOrStore\<close>, under the write lock.\<close>

definition nat_store :: "net_addr list option \<Rightarrow> string \<Rightarrow> net_addr \<Rightarrow> NAT \<Rightarrow> NAT" where
  "nat_store addrList key addr n =
     (case addrList of
        None \<Rightarrow> nat_put key [addr] n
      | Some l \<Rightarrow>
          if addr \<in> set l then n
          else nat_put key ((case nat_get n key of None \<Rightarrow> [] | Some c \<Rightarrow> c) @ [addr]) n)"

lemma LoadOrStore_two_steps:
  "snd (LoadOrStore mid p a n) = nat_store (nat_get n (ip_String p)) (ip_String p) a (mid n)"
  by (auto simp: LoadOrStore_def nat_store_def Let_def split: option.splits)

text \<open>What a packet from a UDP address teaches.\<close>

definition saw :: "(unit, (ip \<times> ip) option) outcome \<Rightarrow> net_addr \<Rightarrow> (string \<times> net_addr) set \<Rightarrow> (string \<times> net_addr) set" where
  "saw h a S = (case h of Ret (Some (src, _)) \<Rightarrow> insert (ip_String src, a) S | _ \<Rightarrow> S)"

definition new_elem :: "net_addr \<Rightarrow> byte list \<Rightarrow> byte list \<Rightarrow> udpElem" where
  "new_elem a b pkt =
     \<lparr>ue_from = a, ue_data = copy_into b pkt, ue_length = length pkt, ue_src = [], ue_dst = []\<rparr>"

definition queue_tun :: "route \<Rightarrow> udpElem \<Rightarrow> DataElem list \<Rightarrow> DataElem list" where
  "queue_tun r e q =
     (if r = ViaTun then q @ [NewDataElem (ue_data e) (ue_length e) (ue_src e) (ue_dst e)] else q)"

inductive tun_step :: "tun_sys \<Rightarrow> tun_sys \<Rightarrow> bool" where
  recv_udp: "\<not> ts_crashed s \<Longrightarrow> length b = LargeBufferSize \<Longrightarrow> length pkt \<le> LargeBufferSize \<Longrightarrow>
    length (ts_connInbound s) < MaxSize \<Longrightarrow>
    tun_step s (s\<lparr>ts_connInbound := ts_connInbound s @ [new_elem a b pkt],
      ts_seen := saw (header_addrs (copy_into b pkt) (length pkt)) a (ts_seen s), ts_received := insert pkt (ts_received s)\<rparr>)"
| recv_tcp: "\<not> ts_crashed s \<Longrightarrow> length b = LargeBufferSize \<Longrightarrow> length (ts_chan s) < MaxSize \<Longrightarrow>
    tcp_handle c b stream (ts_conns s) = Ret (TcpPacket conns dgram rest src) \<Longrightarrow>
    tun_step s (s\<lparr>ts_conns := conns, ts_chan := ts_chan s @ [dgram],
      ts_seenConn := insert (ip_String src, c) (ts_seenConn s),
      ts_received := insert (take (unat (DataLength dgram)) (Data dgram)) (ts_received s)\<rparr>)"
| close_tcp: "\<not> ts_crashed s \<Longrightarrow> length b = LargeBufferSize \<Longrightarrow>
    tcp_handle c b stream (ts_conns s) = Ret (TcpClosed conns) \<Longrightarrow>
    tun_step s (s\<lparr>ts_conns := conns\<rparr>)"
| panic_tcp: "\<not> ts_crashed s \<Longrightarrow> length b = LargeBufferSize \<Longrightarrow>
    tcp_handle c b stream (ts_conns s) = Panic \<Longrightarrow> tun_step s (s\<lparr>ts_crashed := True\<rparr>)"
| take_tcp: "\<not> ts_crashed s \<Longrightarrow> ts_chan s = p # ps \<Longrightarrow> length (ts_parsed s) < MaxSize \<Longrightarrow>
    (readFromTCPConn p :: (unit, _) outcome) = Ret (Some u) \<Longrightarrow>
    tun_step s (s\<lparr>ts_chan := ps, ts_parsed := ts_parsed s @ [u]\<rparr>)"
| skip_tcp: "\<not> ts_crashed s \<Longrightarrow> ts_chan s = p # ps \<Longrightarrow>
    (readFromTCPConn p :: (unit, _) outcome) = Ret None \<Longrightarrow> tun_step s (s\<lparr>ts_chan := ps\<rparr>)"
| parse_learn: "\<not> ts_crashed s \<Longrightarrow> ts_connInbound s = e # es \<Longrightarrow> i < length (ts_workers s) \<Longrightarrow>
    wk_store (ts_workers s ! i) = None \<Longrightarrow>
    (parseHeader (wk_flags (ts_workers s ! i)) e :: (unit, _) outcome) = Ret (Some (e', fl, True)) \<Longrightarrow>
    tun_step s (s\<lparr>ts_connInbound := es,
      ts_workers := (ts_workers s)[i := \<lparr>wk_flags = fl, wk_store = Some (e', nat_get (ts_nat s) (ip_String (ue_src e')))\<rparr>]\<rparr>)"
| parse_store: "\<not> ts_crashed s \<Longrightarrow> i < length (ts_workers s) \<Longrightarrow> wk_store (ts_workers s ! i) = Some (e, l) \<Longrightarrow>
    length (ts_parsed s) < MaxSize \<Longrightarrow>
    tun_step s (s\<lparr>ts_nat := nat_store l (ip_String (ue_src e)) (ue_from e) (ts_nat s),
      ts_parsed := ts_parsed s @ [e], ts_workers := (ts_workers s)[i := (ts_workers s ! i)\<lparr>wk_store := None\<rparr>]\<rparr>)"
| parse_pass: "\<not> ts_crashed s \<Longrightarrow> ts_connInbound s = e # es \<Longrightarrow> i < length (ts_workers s) \<Longrightarrow>
    wk_store (ts_workers s ! i) = None \<Longrightarrow> length (ts_parsed s) < MaxSize \<Longrightarrow>
    (parseHeader (wk_flags (ts_workers s ! i)) e :: (unit, _) outcome) = Ret (Some (e', fl, False)) \<Longrightarrow>
    tun_step s (s\<lparr>ts_connInbound := es, ts_parsed := ts_parsed s @ [e']\<rparr>)"
| parse_skip: "\<not> ts_crashed s \<Longrightarrow> ts_connInbound s = e # es \<Longrightarrow> i < length (ts_workers s) \<Longrightarrow>
    wk_store (ts_workers s ! i) = None \<Longrightarrow>
    (parseHeader (wk_flags (ts_workers s ! i)) e :: (unit, _) outcome) = Ret None \<Longrightarrow>
    tun_step s (s\<lparr>ts_connInbound := es\<rparr>)"
| parse_panic: "\<not> ts_crashed s \<Longrightarrow> ts_connInbound s = e # es \<Longrightarrow> i < length (ts_workers s) \<Longrightarrow>
    wk_store (ts_workers s ! i) = None \<Longrightarrow>
    (parseHeader (wk_flags (ts_workers s ! i)) e :: (unit, _) outcome) = Panic \<Longrightarrow>
    tun_step s (s\<lparr>ts_crashed := True\<rparr>)"
| route_peer: "\<not> ts_crashed s \<Longrightarrow> ts_parsed s = e # es \<Longrightarrow> r = routePeer k (ue_dst e) (ts_nat s) (ts_conns s) \<Longrightarrow>
    length (ts_tunOut s) < MaxSize \<Longrightarrow> length pool = LargeBufferSize \<Longrightarrow>
    tun_step s (s\<lparr>ts_parsed := es, ts_tunOut := queue_tun r e (ts_tunOut s),
      ts_log := ts_log s @ [(ip_String (ue_dst e), send_route pool r (take (ue_length e) (ue_data e)))]\<rparr>)"
| read_tun: "\<not> ts_crashed s \<Longrightarrow> length b = LargeBufferSize \<Longrightarrow> length pkt \<le> LargeBufferSize \<Longrightarrow>
    length (ts_tunRaw s) < MaxSize \<Longrightarrow>
    tun_step s (s\<lparr>ts_tunRaw := ts_tunRaw s @ [NewDataElem (copy_into b pkt) (length pkt) [] []],
      ts_received := insert pkt (ts_received s)\<rparr>)"
| parse_tun: "\<not> ts_crashed s \<Longrightarrow> ts_tunRaw s = e # es \<Longrightarrow> length (ts_tunIn s) < MaxSize \<Longrightarrow>
    (parseIPHeader e :: (unit, _) outcome) = Ret (Some e') \<Longrightarrow>
    tun_step s (s\<lparr>ts_tunRaw := es, ts_tunIn := ts_tunIn s @ [e']\<rparr>)"
| skip_tun: "\<not> ts_crashed s \<Longrightarrow> ts_tunRaw s = e # es \<Longrightarrow> (parseIPHeader e :: (unit, _) outcome) = Ret None \<Longrightarrow>
    tun_step s (s\<lparr>ts_tunRaw := es\<rparr>)"
| panic_tun: "\<not> ts_crashed s \<Longrightarrow> ts_tunRaw s = e # es \<Longrightarrow> (parseIPHeader e :: (unit, _) outcome) = Panic \<Longrightarrow>
    tun_step s (s\<lparr>ts_crashed := True\<rparr>)"
| route_tun: "\<not> ts_crashed s \<Longrightarrow> ts_tunIn s = e # es \<Longrightarrow> r = routeTUN k (de_dst e) (ts_nat s) (ts_conns s) \<Longrightarrow> length pool = LargeBufferSize \<Longrightarrow>
    tun_step s (s\<lparr>ts_tunIn := es,
      ts_log := ts_log s @ [(ip_String (de_dst e), send_route pool r (take (de_length e) (de_data e)))]\<rparr>)"
| write_tun: "\<not> ts_crashed s \<Longrightarrow> ts_tunOut s = e # es \<Longrightarrow> tun_step s (s\<lparr>ts_tunOut := es\<rparr>)"

section \<open>The abstract router\<close>

text \<open>
  What the traffic manager promises: it learns which senders speak for an inner address, and it forwards
  a packet only to a sender that speaks for the destination of the packet, or to the network of the cluster, and
  what it forwards is a packet it has received, byte for byte.  The destination of a packet that ends inside its
  header is read from the rest of the pooled buffer, which is arbitrary.
\<close>

record router =
  rt_seen :: "(string \<times> net_addr) set"
  rt_seenConn :: "(string \<times> nat) set"
  rt_received :: "byte list set"
  rt_log :: "(string \<times> delivery) list"

definition addressed :: "string \<Rightarrow> byte list \<Rightarrow> bool" where
  "addressed k d \<longleftrightarrow> (\<exists>rest n src dst. length d \<le> n \<and>
     (header_addrs (d @ rest) n :: (unit, _) outcome) = Ret (Some (src, dst)) \<and> ip_String dst = k)"

definition framed :: "byte list \<Rightarrow> byte list \<Rightarrow> bool" where
  "framed d f \<longleftrightarrow> (\<exists>pool. length pool = LargeBufferSize \<and> f = datagram_Write pool (newDatagramPacket d))"

fun may_deliver :: "router \<Rightarrow> string \<Rightarrow> delivery \<Rightarrow> bool" where
  "may_deliver r k (UdpOut a d) = ((k, a) \<in> rt_seen r \<and> d \<in> rt_received r \<and> addressed k d)"
| "may_deliver r k (TcpOut c f) = ((k, c) \<in> rt_seenConn r \<and> (\<exists>d\<in>rt_received r. addressed k d \<and> framed d f))"
| "may_deliver r k (TunOut d) = (d \<in> rt_received r \<and> addressed k d)"
| "may_deliver r k Dropped = True"

inductive router_step :: "router \<Rightarrow> router \<Rightarrow> bool" where
  r_idle: "router_step r r"
| r_receive: "router_step r (r\<lparr>rt_received := insert d (rt_received r)\<rparr>)"
| r_learn: "router_step r (r\<lparr>rt_seen := insert x (rt_seen r), rt_received := insert d (rt_received r)\<rparr>)"
| r_learn_conn: "router_step r (r\<lparr>rt_seenConn := insert y (rt_seenConn r), rt_received := insert d (rt_received r)\<rparr>)"
| r_forward: "may_deliver r k d \<Longrightarrow> router_step r (r\<lparr>rt_log := rt_log r @ [(k, d)]\<rparr>)"

definition abs_router :: "tun_sys \<Rightarrow> router" where
  "abs_router s = \<lparr>rt_seen = ts_seen s, rt_seenConn = ts_seenConn s, rt_received = ts_received s, rt_log = ts_log s\<rparr>"

definition router_ok :: "router \<Rightarrow> bool" where
  "router_ok r \<longleftrightarrow> (\<forall>(k, d)\<in>set (rt_log r). may_deliver r k d)"

lemma may_deliver_mono:
  "may_deliver r k d \<Longrightarrow> rt_seen r \<subseteq> rt_seen r' \<Longrightarrow> rt_seenConn r \<subseteq> rt_seenConn r' \<Longrightarrow> rt_received r \<subseteq> rt_received r' \<Longrightarrow>
    may_deliver r' k d"
  by (cases d) auto

lemma router_ok_step: "router_step r r' \<Longrightarrow> router_ok r \<Longrightarrow> router_ok r'"
proof (induction rule: router_step.induct)
  case (r_receive r d)
  then show ?case
    unfolding router_ok_def by (auto intro: may_deliver_mono [of r])
next
  case (r_learn r x d)
  then show ?case
    unfolding router_ok_def by (auto intro: may_deliver_mono [of r])
next
  case (r_learn_conn r y d)
  then show ?case
    unfolding router_ok_def by (auto intro: may_deliver_mono [of r])
next
  case (r_forward r k d)
  then show ?case
    unfolding router_ok_def by (auto intro: may_deliver_mono [of r])
qed simp

section \<open>The invariant\<close>

definition speaks :: "tun_sys \<Rightarrow> udpElem \<Rightarrow> bool" where
  "speaks s e \<longleftrightarrow> (ip_String (ue_src e), ue_from e) \<in> ts_seen s"

text \<open>The sender of an element that waits to be parsed was recorded when the packet came in.\<close>

definition recorded :: "(string \<times> net_addr) set \<Rightarrow> udpElem \<Rightarrow> bool" where
  "recorded S e \<longleftrightarrow>
     (\<forall>src dst. (header_addrs (ue_data e) (ue_length e) :: (unit, _) outcome) = Ret (Some (src, dst)) \<longrightarrow>
        (ip_String src, ue_from e) \<in> S)"

definition worker_ok :: "(string \<times> net_addr) set \<Rightarrow> worker \<Rightarrow> bool" where
  "worker_ok S w \<longleftrightarrow>
     (case wk_store w of None \<Rightarrow> True | Some (e, l) \<Rightarrow> (ip_String (ue_src e), ue_from e) \<in> S)"

text \<open>The elements in the channels hold packets that were received, and a parsed one its destination.\<close>

definition ue_packet :: "udpElem \<Rightarrow> byte list" where
  "ue_packet e = take (ue_length e) (ue_data e)"

definition de_packet :: "DataElem \<Rightarrow> byte list" where
  "de_packet e = take (de_length e) (de_data e)"

definition parsed_ok :: "byte list set \<Rightarrow> udpElem \<Rightarrow> bool" where
  "parsed_ok R e \<longleftrightarrow> ue_packet e \<in> R \<and> addressed (ip_String (ue_dst e)) (ue_packet e)"

definition stored_ok :: "byte list set \<Rightarrow> worker \<Rightarrow> bool" where
  "stored_ok R w \<longleftrightarrow> (case wk_store w of None \<Rightarrow> True | Some (e, l) \<Rightarrow> parsed_ok R e)"

definition packets_ok :: "tun_sys \<Rightarrow> bool" where
  "packets_ok s \<longleftrightarrow>
     (\<forall>e\<in>set (ts_connInbound s). ue_packet e \<in> ts_received s)
   \<and> (\<forall>e\<in>set (ts_parsed s). parsed_ok (ts_received s) e)
   \<and> (\<forall>w\<in>set (ts_workers s). stored_ok (ts_received s) w)
   \<and> (\<forall>p\<in>set (ts_chan s). take (unat (DataLength p)) (Data p) \<in> ts_received s)
   \<and> (\<forall>e\<in>set (ts_tunRaw s). de_packet e \<in> ts_received s)
   \<and> (\<forall>e\<in>set (ts_tunIn s). de_packet e \<in> ts_received s \<and> addressed (ip_String (de_dst e)) (de_packet e))"

definition tun_inv :: "tun_sys \<Rightarrow> bool" where
  "tun_inv s \<longleftrightarrow>
     sound_table nat_targets (ts_nat s) (ts_seen s)
   \<and> sound_table (\<lambda>t k. set_option (cm_load t k)) (ts_conns s) (ts_seenConn s)
   \<and> (\<forall>e\<in>set (ts_connInbound s). recorded (ts_seen s) e)
   \<and> (\<forall>w\<in>set (ts_workers s). worker_ok (ts_seen s) w)
   \<and> length (ts_workers s) = MaxThread
   \<and> length (ts_connInbound s) \<le> MaxSize \<and> length (ts_parsed s) \<le> MaxSize \<and> length (ts_chan s) \<le> MaxSize
   \<and> length (ts_tunRaw s) \<le> MaxSize \<and> length (ts_tunIn s) \<le> MaxSize \<and> length (ts_tunOut s) \<le> MaxSize"

lemma saw_mono: "S \<subseteq> saw h a S"
  by (auto simp: saw_def split: outcome.splits option.splits)

lemma recorded_mono: "recorded S e \<Longrightarrow> S \<subseteq> S' \<Longrightarrow> recorded S' e"
  by (auto simp: recorded_def)

lemma worker_ok_mono: "worker_ok S w \<Longrightarrow> S \<subseteq> S' \<Longrightarrow> worker_ok S' w"
  by (auto simp: worker_ok_def split: option.splits)

lemma recorded_new:
  "recorded (saw (header_addrs (copy_into b pkt) (length pkt)) a S) (new_elem a b pkt)"
  by (simp add: recorded_def new_elem_def saw_def)

lemma nat_store_targets:
  "nat_targets (nat_store l k a n) j \<subseteq> nat_targets n j \<union> (if j = k then {a} else {})"
  by (auto simp: nat_store_def nat_targets_def split: option.splits if_splits)

lemma sound_store:
  assumes "sound_table nat_targets n S" and "(k, a) \<in> S"
  shows "sound_table nat_targets (nat_store l k a n) S"
proof -
  have "(j, b) \<in> S" if "b \<in> nat_targets (nat_store l k a n) j" for j b
    using assms that nat_store_targets [of l k a n j] by (auto simp: sound_table_def split: if_splits)
  then show ?thesis by (simp add: sound_table_def)
qed

lemma parseHeader_learns:
  assumes "(parseHeader fl e :: (unit, _) outcome) = Ret (Some (e', fl', learn))" and "recorded S e"
  shows "(ip_String (ue_src e'), ue_from e') \<in> S"
proof -
  from assms(1) obtain h where h: "(header_addrs (ue_data e) (ue_length e) :: (unit, _) outcome) = Ret h"
    by (auto simp: parseHeader_def bind_outcome_Ret_iff)
  obtain f4 f6 where fl: "fl = (f4, f6)" by fastforce
  from assms(1) h fl obtain src dst where "h = Some (src, dst)" by (cases h) (auto simp: parseHeader_def)
  moreover from assms(1) h fl this have "e' = e\<lparr>ue_src := src, ue_dst := dst\<rparr>"
    by (auto simp: parseHeader_def Let_def bind_outcome_Ret_iff split: if_splits)
  moreover note h
  ultimately show ?thesis using assms(2) by (auto simp: recorded_def)
qed

lemma tcp_handle_conns:
  assumes "sound_table (\<lambda>t k. set_option (cm_load t k)) t S"
  shows "tcp_handle c b stream t = Ret (TcpPacket t' dgram rest src) \<Longrightarrow>
      sound_table (\<lambda>t k. set_option (cm_load t k)) t' (insert (ip_String src, c) S)"
    and "tcp_handle c b stream t = Ret (TcpClosed t') \<Longrightarrow> sound_table (\<lambda>t k. set_option (cm_load t k)) t' S"
proof -
  show "sound_table (\<lambda>t k. set_option (cm_load t k)) t' (insert (ip_String src, c) S)"
    if "tcp_handle c b stream t = Ret (TcpPacket t' dgram rest src)"
  proof -
    from that have "t' = cm_learn (ip_String src) c t"
      by (auto simp: tcp_handle_def bind_outcome_Ret_iff split: outcome.splits option.splits prod.splits)
    then show ?thesis using conn_table.sound_learn [OF assms] by simp
  qed
  show "sound_table (\<lambda>t k. set_option (cm_load t k)) t' S" if "tcp_handle c b stream t = Ret (TcpClosed t')"
  proof -
    from that have "t' = cm_forget c t"
      by (auto simp: tcp_handle_def bind_outcome_Ret_iff split: outcome.splits option.splits prod.splits)
    then show ?thesis using conn_table.sound_forget [OF assms] by simp
  qed
qed

text \<open>The channels never hold more than they can.\<close>

lemma queue_tun_length: "length q < MaxSize \<Longrightarrow> length (queue_tun r e q) \<le> MaxSize"
  by (simp add: queue_tun_def)

lemma set_list_update_worker:
  "\<forall>w\<in>set ws. P w \<Longrightarrow> P v \<Longrightarrow> \<forall>w\<in>set (ws[i := v]). P w"
  using set_update_subset_insert by fastforce

lemma tun_inv_init: "tun_inv tun_init"
  by (simp add: tun_inv_def tun_init_def sound_table_def nat_targets_def nat_get_def NewNAT_def worker_ok_def
      MaxThread_def)

lemma tun_inv_step: "tun_step s t \<Longrightarrow> tun_inv s \<Longrightarrow> tun_inv t"
proof (induction rule: tun_step.induct)
  case (recv_udp s b pkt a)
  let ?S = "saw (header_addrs (copy_into b pkt) (length pkt)) a (ts_seen s)"
  note mono = saw_mono [of "ts_seen s" "header_addrs (copy_into b pkt) (length pkt)" a]
  from recv_udp mono show ?case
    using recorded_new [of b pkt a "ts_seen s"] nat_table.sound_mono [OF _ mono]
    by (auto simp: tun_inv_def intro: recorded_mono worker_ok_mono)
next
  case (recv_tcp s b c stream conns dgram rest src)
  then show ?case using tcp_handle_conns(1) [OF _ recv_tcp.hyps(4)] by (auto simp: tun_inv_def)
next
  case (close_tcp s b c stream conns)
  then show ?case using tcp_handle_conns(2) [OF _ close_tcp.hyps(3)] by (auto simp: tun_inv_def)
next
  case (parse_learn s e es i e' fl)
  then have "(ip_String (ue_src e'), ue_from e') \<in> ts_seen s"
    using parseHeader_learns [OF parse_learn.hyps(5)] by (simp add: tun_inv_def)
  then have "worker_ok (ts_seen s) \<lparr>wk_flags = fl, wk_store = Some (e', nat_get (ts_nat s) (ip_String (ue_src e')))\<rparr>"
    by (simp add: worker_ok_def)
  with parse_learn show ?case
    using set_list_update_worker [of "ts_workers s" "worker_ok (ts_seen s)"] by (auto simp: tun_inv_def)
next
  case (parse_store s i e l)
  then have "worker_ok (ts_seen s) (ts_workers s ! i)" by (simp add: tun_inv_def)
  with parse_store.hyps(3) have k: "(ip_String (ue_src e), ue_from e) \<in> ts_seen s" by (simp add: worker_ok_def)
  have "worker_ok (ts_seen s) ((ts_workers s ! i)\<lparr>wk_store := None\<rparr>)" by (simp add: worker_ok_def)
  with parse_store k show ?case
    using set_list_update_worker [of "ts_workers s" "worker_ok (ts_seen s)"] sound_store [OF _ k]
    by (auto simp: tun_inv_def)
next
  case (route_peer s e es r k pool)
  then show ?case using queue_tun_length by (auto simp: tun_inv_def)
qed (auto simp: tun_inv_def)

lemma tun_inv_reach: "tun_step\<^sup>*\<^sup>* tun_init s \<Longrightarrow> tun_inv s"
  by (induction rule: rtranclp_induct) (auto intro: tun_inv_init tun_inv_step)

lemma addressed_header:
  assumes "(header_addrs buf n :: (unit, _) outcome) = Ret (Some (src, dst))" and "m \<le> n"
  shows "addressed (ip_String dst) (take m buf)"
  unfolding addressed_def using assms
  by (intro exI [of _ "drop m buf"] exI [of _ n] exI [of _ src] exI [of _ dst]) simp

lemma parseHeader_element:
  assumes "(parseHeader fl e :: (unit, _) outcome) = Ret (Some (e', fl', learn))"
  shows "ue_packet e' = ue_packet e" and "addressed (ip_String (ue_dst e')) (ue_packet e')"
proof -
  from assms obtain h where h: "(header_addrs (ue_data e) (ue_length e) :: (unit, _) outcome) = Ret h"
    by (auto simp: parseHeader_def bind_outcome_Ret_iff)
  obtain f4 f6 where fl: "fl = (f4, f6)" by fastforce
  from assms h fl obtain src dst where hs: "h = Some (src, dst)" by (cases h) (auto simp: parseHeader_def)
  with assms h fl have e': "e' = e\<lparr>ue_src := src, ue_dst := dst\<rparr>"
    by (auto simp: parseHeader_def Let_def bind_outcome_Ret_iff split: if_splits)
  show "ue_packet e' = ue_packet e" by (simp add: e' ue_packet_def)
  show "addressed (ip_String (ue_dst e')) (ue_packet e')"
    using addressed_header [OF h [unfolded hs], of "ue_length e"] by (simp add: e' ue_packet_def)
qed

lemma readFromTCPConn_element:
  assumes "(readFromTCPConn p :: (unit, _) outcome) = Ret (Some u)"
  shows "ue_packet u = take (unat (DataLength p)) (Data p)" and "addressed (ip_String (ue_dst u)) (ue_packet u)"
proof -
  from assms obtain src dst where h: "(header_addrs (Data p) (length (Data p)) :: (unit, _) outcome) = Ret (Some (src, dst))"
    and u: "u = \<lparr>ue_from = [], ue_data = Data p, ue_length = unat (DataLength p), ue_src = src, ue_dst = dst\<rparr>"
    by (auto simp: readFromTCPConn_def map_outcome_Ret_iff map_option_case split: option.splits prod.splits)
  show p: "ue_packet u = take (unat (DataLength p)) (Data p)" by (simp add: u ue_packet_def)
  have "ue_packet u = take (min (unat (DataLength p)) (length (Data p))) (Data p)" by (simp add: p min_def)
  with addressed_header [OF h, of "min (unat (DataLength p)) (length (Data p))"]
  show "addressed (ip_String (ue_dst u)) (ue_packet u)" by (simp add: u)
qed

lemma parseIPHeader_element:
  assumes "(parseIPHeader e :: (unit, _) outcome) = Ret (Some e')"
  shows "de_packet e' = de_packet e" and "addressed (ip_String (de_dst e')) (de_packet e')"
proof -
  from assms obtain src dst where h: "(header_addrs (de_data e) (de_length e) :: (unit, _) outcome) = Ret (Some (src, dst))"
    and e': "e' = e\<lparr>de_src := src, de_dst := dst\<rparr>" by (auto simp: parseIPHeader_def map_outcome_Ret_iff map_option_case split: option.splits prod.splits)
  show "de_packet e' = de_packet e" by (simp add: e' de_packet_def)
  show "addressed (ip_String (de_dst e')) (de_packet e')"
    using addressed_header [OF h, of "de_length e"] by (simp add: e' de_packet_def)
qed

lemma packets_ok_init: "packets_ok tun_init"
  by (simp add: packets_ok_def tun_init_def stored_ok_def)

lemma stored_ok_mono: "stored_ok R w \<Longrightarrow> stored_ok (insert d R) w"
  by (auto simp: stored_ok_def parsed_ok_def split: option.splits)

lemma new_packet: "length pkt \<le> length b \<Longrightarrow> take (length pkt) (copy_into b pkt) = pkt"
  by (rule take_copy_into)

lemma packets_ok_step: "tun_step s t \<Longrightarrow> packets_ok s \<Longrightarrow> packets_ok t"
proof (induction rule: tun_step.induct)
  case (recv_udp s b pkt a)
  have "ue_packet (new_elem a b pkt) = pkt" using recv_udp.hyps by (simp add: new_elem_def ue_packet_def new_packet)
  with recv_udp show ?case by (auto simp: packets_ok_def parsed_ok_def intro: stored_ok_mono)
next
  case (recv_tcp s b c stream conns dgram rest src)
  then show ?case by (auto simp: packets_ok_def parsed_ok_def intro: stored_ok_mono)
next
  case (take_tcp s p ps u)
  then show ?case using readFromTCPConn_element [OF take_tcp.hyps(4)] by (auto simp: packets_ok_def parsed_ok_def)
next
  case (parse_learn s e es i e' fl)
  then have "stored_ok (ts_received s) \<lparr>wk_flags = fl, wk_store = Some (e', nat_get (ts_nat s) (ip_String (ue_src e')))\<rparr>"
    using parseHeader_element [OF parse_learn.hyps(5)] by (simp add: packets_ok_def stored_ok_def parsed_ok_def)
  with parse_learn show ?case
    using set_list_update_worker [of "ts_workers s" "stored_ok (ts_received s)"] by (auto simp: packets_ok_def)
next
  case (parse_store s i e l)
  then have "stored_ok (ts_received s) (ts_workers s ! i)" by (simp add: packets_ok_def)
  with parse_store.hyps(3) have e: "parsed_ok (ts_received s) e" by (simp add: stored_ok_def)
  have "stored_ok (ts_received s) ((ts_workers s ! i)\<lparr>wk_store := None\<rparr>)" by (simp add: stored_ok_def)
  with parse_store e show ?case
    using set_list_update_worker [of "ts_workers s" "stored_ok (ts_received s)"] by (auto simp: packets_ok_def)
next
  case (parse_pass s e es i e' fl)
  then show ?case using parseHeader_element [OF parse_pass.hyps(6)] by (auto simp: packets_ok_def parsed_ok_def)
next
  case (read_tun s b pkt)
  have "de_packet (NewDataElem (copy_into b pkt) (length pkt) [] []) = pkt"
    using read_tun.hyps by (simp add: NewDataElem_def de_packet_def new_packet)
  with read_tun show ?case by (auto simp: packets_ok_def parsed_ok_def intro: stored_ok_mono)
next
  case (parse_tun s e es e')
  then show ?case using parseIPHeader_element [OF parse_tun.hyps(4)] by (auto simp: packets_ok_def)
qed (auto simp: packets_ok_def)

lemma packets_ok_reach: "tun_step\<^sup>*\<^sup>* tun_init s \<Longrightarrow> packets_ok s"
  by (induction rule: rtranclp_induct) (auto intro: packets_ok_init packets_ok_step)

text \<open>A routing decision is backed by the tables.\<close>

lemma route_allowed:
  assumes "tun_inv s" and "r = routePeer k dst (ts_nat s) (ts_conns s) \<or> r = routeTUN k dst (ts_nat s) (ts_conns s)"
    and "length pool = LargeBufferSize" and "d \<in> ts_received s" and "addressed (ip_String dst) d"
  shows "may_deliver (abs_router s) (ip_String dst) (send_route pool r d)"
proof -
  have n: "sound_table nat_targets (ts_nat s) (ts_seen s)"
    and c: "sound_table (\<lambda>t k. set_option (cm_load t k)) (ts_conns s) (ts_seenConn s)"
    using assms(1) by (simp_all add: tun_inv_def)
  have "RouteTo k dst (ts_nat s) = Some a \<Longrightarrow> (ip_String dst, a) \<in> ts_seen s" for a
    using nat_table.soundD [OF n RouteTo_targets] by blast
  moreover have "cm_load (ts_conns s) (ip_String dst) = Some c \<Longrightarrow> (ip_String dst, c) \<in> ts_seenConn s" for c
    using conn_table.soundD [OF c, of c "ip_String dst"] by simp
  ultimately show ?thesis
    using assms(2-5) by (auto simp: routePeer_def routeTUN_def send_route_def abs_router_def framed_def split: option.splits)
qed

lemma router_forward: "may_deliver (abs_router s) k d \<Longrightarrow>
  router_step (abs_router s) \<lparr>rt_seen = ts_seen s, rt_seenConn = ts_seenConn s, rt_received = ts_received s, rt_log = ts_log s @ [(k, d)]\<rparr>"
  using r_forward [of "abs_router s" k d] by (simp add: abs_router_def)

lemma router_idle: "abs_router t = abs_router s \<Longrightarrow> router_step (abs_router s) (abs_router t)"
  using r_idle by simp

lemma tun_simulates:
  assumes "tun_step s t" and "tun_inv s" and "packets_ok s"
  shows "router_step (abs_router s) (abs_router t)"
  using assms
proof (induction rule: tun_step.induct)
  case (recv_udp s b pkt a)
  show ?case
  proof (cases "header_addrs (copy_into b pkt) (length pkt) :: (unit, _) outcome")
    case (Ret h)
    then show ?thesis
      using r_learn [where r = "abs_router s" and d = pkt] r_receive [of "abs_router s" pkt]
      by (cases h) (auto simp: abs_router_def saw_def)
  qed (use r_receive [of "abs_router s" pkt] in \<open>simp_all add: abs_router_def saw_def\<close>)
next
  case (recv_tcp s b c stream conns dgram rest src)
  then show ?case using r_learn_conn [where r = "abs_router s"] by (simp add: abs_router_def)
next
  case (route_peer s e es r k pool)
  then have "ue_packet e \<in> ts_received s" "addressed (ip_String (ue_dst e)) (ue_packet e)"
    by (simp_all add: packets_ok_def parsed_ok_def)
  with route_peer show ?case
    using router_forward [OF route_allowed [of s r k "ue_dst e" pool "ue_packet e"]] by (simp add: abs_router_def ue_packet_def)
next
  case (read_tun s b pkt)
  then show ?case using r_receive [of "abs_router s" pkt] by (simp add: abs_router_def)
next
  case (route_tun s e es r k pool)
  then have "de_packet e \<in> ts_received s" "addressed (ip_String (de_dst e)) (de_packet e)"
    by (simp_all add: packets_ok_def)
  with route_tun show ?case
    using router_forward [OF route_allowed [of s r k "de_dst e" pool "de_packet e"]] by (simp add: abs_router_def de_packet_def)
qed (rule router_idle, simp add: abs_router_def)+

section \<open>Packets that bring the process down\<close>

lemma go_index_Panic: "go_index b i = Panic \<longleftrightarrow> length b \<le> i"
  by (simp add: go_index_def)

lemma ipv4_at_Ret: "i + 4 \<le> length b \<Longrightarrow> ipv4_at b i = Ret (IPv4 (b ! i) (b ! (i + 1)) (b ! (i + 2)) (b ! (i + 3)))"
  by (simp add: ipv4_at_def)

lemma ipv4_at_Panic: "length b < i + 4 \<Longrightarrow> ipv4_at b i = Panic"
proof -
  assume "length b < i + 4"
  then consider "length b \<le> i" | "length b = i + 1" | "length b = i + 2" | "length b = i + 3" by linarith
  then show ?thesis by cases (simp_all add: ipv4_at_def go_index_def)
qed

lemma header_addrs_v4:
  assumes "n \<le> length buf" and "20 \<le> n" and "drop_bit 4 (buf ! 0) = 4"
  shows "header_addrs buf n = Ret (Some (IPv4 (buf ! 12) (buf ! 13) (buf ! 14) (buf ! 15),
    IPv4 (buf ! 16) (buf ! 17) (buf ! 18) (buf ! 19)))"
  using assms by (simp add: header_addrs_def Let_def IsIPv4_def ipv4_at_Ret)

text \<open>Which packets make \<open>header_addrs\<close> panic, for a buffer of the pool.\<close>

lemma header_addrs_cases:
  assumes "length buf = LargeBufferSize" and "n \<le> LargeBufferSize"
  shows "(header_addrs buf n :: ('e, _) outcome) = Panic \<longleftrightarrow> n = 0 \<or> drop_bit 4 (buf ! 0) = 4 \<and> n < 20"
    and "0 < n \<Longrightarrow> drop_bit 4 (buf ! 0) \<noteq> 4 \<Longrightarrow> drop_bit 4 (buf ! 0) \<noteq> 6 \<Longrightarrow>
      (header_addrs buf n :: ('e, _) outcome) = Ret None"
proof -
  have len: "length (take n buf) = n" "40 \<le> length buf" using assms by (simp_all add: LargeBufferSize_def)
  have z: "n = 0 \<Longrightarrow> (header_addrs buf n :: ('e, _) outcome) = Panic"
    by (simp add: header_addrs_def IsIPv4_def go_index_def)
  have p4: "n < 20 \<Longrightarrow> 0 < n \<Longrightarrow> drop_bit 4 (buf ! 0) = 4 \<Longrightarrow> (header_addrs buf n :: ('e, _) outcome) = Panic"
  proof (cases "n < 16")
    case True
    then show "0 < n \<Longrightarrow> drop_bit 4 (buf ! 0) = 4 \<Longrightarrow> (header_addrs buf n :: ('e, _) outcome) = Panic"
      using len by (simp add: header_addrs_def Let_def IsIPv4_def ipv4_at_Panic)
  next
    case False
    moreover assume "n < 20"
    ultimately show "0 < n \<Longrightarrow> drop_bit 4 (buf ! 0) = 4 \<Longrightarrow> (header_addrs buf n :: ('e, _) outcome) = Panic"
      using len by (simp add: header_addrs_def Let_def IsIPv4_def ipv4_at_Panic ipv4_at_Ret)
  qed
  have v4: "20 \<le> n \<Longrightarrow> drop_bit 4 (buf ! 0) = 4 \<Longrightarrow> (header_addrs buf n :: ('e, _) outcome) \<noteq> Panic"
    using assms by (simp add: header_addrs_v4)
  have ok: "0 < n \<Longrightarrow> drop_bit 4 (buf ! 0) \<noteq> 4 \<Longrightarrow> (header_addrs buf n :: ('e, _) outcome) \<noteq> Panic"
    using len by (simp add: header_addrs_def Let_def IsIPv4_def IsIPv6_def go_slice_def)
  show "(header_addrs buf n :: ('e, _) outcome) = Panic \<longleftrightarrow> n = 0 \<or> drop_bit 4 (buf ! 0) = 4 \<and> n < 20"
    using z p4 ok v4 by (cases "n = 0"; cases "n < 20"; cases "drop_bit 4 (buf ! 0) = 4") simp_all
  show "0 < n \<Longrightarrow> drop_bit 4 (buf ! 0) \<noteq> 4 \<Longrightarrow> drop_bit 4 (buf ! 0) \<noteq> 6 \<Longrightarrow>
      (header_addrs buf n :: ('e, _) outcome) = Ret None"
    using len by (auto simp: header_addrs_def Let_def IsIPv4_def IsIPv6_def)
qed

section \<open>Properties of the traffic manager\<close>

text \<open>C2: the goroutines of the traffic manager implement the abstract router.  From every state they can
  reach, each step of a goroutine is a step of the router or changes nothing it promises: what is
  forwarded is a packet that was received, byte for byte, and it goes to a UDP address or, framed, to a TCP connection only
  if that sender has itself sent a packet whose source is the destination, however the goroutines interleave and although \<^verbatim>\<open>LoadOrStore\<close> is not atomic.\<close>

theorem tun_refines_router:
  assumes "tun_step\<^sup>*\<^sup>* tun_init s"
  shows "(\<forall>t. tun_step s t \<longrightarrow> router_step (abs_router s) (abs_router t))
    \<and> (\<forall>(k, d)\<in>set (ts_log s). may_deliver (abs_router s) k d)"
proof -
  have "router_ok (abs_router s)"
    using assms
  proof (induction rule: rtranclp_induct)
    case base
    then show ?case by (simp add: router_ok_def abs_router_def tun_init_def)
  next
    case (step s t)
    then show ?case using router_ok_step [OF tun_simulates [OF _ tun_inv_reach packets_ok_reach]] by blast
  qed
  then have "\<forall>(k, d)\<in>set (ts_log s). may_deliver (abs_router s) k d"
    by (simp add: router_ok_def) (simp add: abs_router_def)
  then show ?thesis using tun_simulates [OF _ tun_inv_reach [OF assms] packets_ok_reach [OF assms]] by simp
qed

text \<open>A packet from 10.0.0.1 to itself, and the run that routes it back to its sender.\<close>

definition example_packet :: "byte list" where
  "example_packet = [0x45, 0, 0, 20, 0, 0, 0, 0, 64, 17, 0, 0, 10, 0, 0, 1, 10, 0, 0, 1]"

definition example_buffer :: "byte list" where
  "example_buffer = replicate LargeBufferSize 0"

lemma example_length: "length example_packet = 20"
  by (simp add: example_packet_def)

lemma example_take: "take 20 (copy_into example_buffer example_packet) = example_packet"
  using take_copy_into [of example_packet example_buffer]
  by (simp add: example_length example_buffer_def LargeBufferSize_def)

lemma example_nth: "i < 20 \<Longrightarrow> copy_into example_buffer example_packet ! i = example_packet ! i"
  by (metis example_take nth_take)

lemma example_header:
  "header_addrs (copy_into example_buffer example_packet) 20 = Ret (Some (IPv4 10 0 0 1, IPv4 10 0 0 1))"
proof -
  let ?b = "copy_into example_buffer example_packet"
  have b: "20 \<le> length ?b" by (simp add: example_buffer_def LargeBufferSize_def)
  have "drop_bit 4 (example_packet ! 0) = 4" by code_simp
  then have "header_addrs ?b 20 = Ret (Some (IPv4 (?b ! 12) (?b ! 13) (?b ! 14) (?b ! 15),
      IPv4 (?b ! 16) (?b ! 17) (?b ! 18) (?b ! 19)))"
    using header_addrs_v4 [OF b] by (simp add: example_nth)
  also have "\<dots> = Ret (Some (IPv4 10 0 0 1, IPv4 10 0 0 1))"
    by (simp add: example_nth) (simp add: example_packet_def)
  finally show ?thesis .
qed

lemma example_run:
  "\<exists>s. tun_step\<^sup>*\<^sup>* tun_init s \<and> ts_log s = [(ip_String (IPv4 10 0 0 1), UdpOut ''192.0.2.1:5'' example_packet)]"
proof -
  let ?a = "''192.0.2.1:5''" and ?x = "IPv4 10 0 0 1"
  let ?e = "new_elem ?a example_buffer example_packet"
  note len = example_length
  have h: "(header_addrs (ue_data ?e) (ue_length ?e) :: (unit, _) outcome) = Ret (Some (?x, ?x))"
    using example_header by (simp add: new_elem_def len)
  have v4: "(IsIPv4 (take (ue_length ?e) (ue_data ?e)) :: (unit, _) outcome) = Ret True"
  proof -
    have "drop_bit 4 (example_packet ! 0) = 4" by code_simp
    then show ?thesis by (simp add: new_elem_def len example_take IsIPv4_def)
  qed
  define e where "e = ?e\<lparr>ue_src := ?x, ue_dst := ?x\<rparr>"
  have ph: "(parseHeader (True, True) ?e :: (unit, _) outcome) = Ret (Some (e, (False, True), True))"
    unfolding parseHeader_def h v4 by (simp add: Let_def e_def)
  define s1 where "s1 = tun_init\<lparr>ts_connInbound := [?e], ts_seen := saw (header_addrs (copy_into example_buffer example_packet) (length example_packet)) ?a {},
    ts_received := {example_packet}\<rparr>"
  define s2 where "s2 = s1\<lparr>ts_connInbound := [], ts_workers := (ts_workers s1)[0 := \<lparr>wk_flags = (False, True), wk_store = Some (e, None)\<rparr>]\<rparr>"
  define s3 where "s3 = s2\<lparr>ts_nat := nat_store None (ip_String ?x) ?a (ts_nat s2), ts_parsed := [e],
    ts_workers := (ts_workers s2)[0 := (ts_workers s2 ! 0)\<lparr>wk_store := None\<rparr>]\<rparr>"
  define s4 where "s4 = s3\<lparr>ts_parsed := [], ts_tunOut := queue_tun (ViaUDP ?a) e [],
    ts_log := ts_log s3 @ [(ip_String (ue_dst e), send_route example_buffer (ViaUDP ?a) (take (ue_length e) (ue_data e)))]\<rparr>"
  have "tun_step tun_init s1"
    using recv_udp [of tun_init example_buffer example_packet ?a]
    by (simp add: s1_def tun_init_def example_buffer_def MaxSize_def len LargeBufferSize_def)
  moreover have "tun_step s1 s2"
    using parse_learn [of s1 ?e "[]" 0 e "(False, True)"] ph
    by (simp add: s2_def s1_def tun_init_def MaxThread_def nat_get_def NewNAT_def)
  moreover have "tun_step s2 s3"
    using parse_store [of s2 0 e None]
    by (simp add: s3_def s2_def s1_def tun_init_def MaxThread_def MaxSize_def e_def new_elem_def)
  moreover have "tun_step s3 s4"
    using route_peer [of s3 e "[]" "ViaUDP ?a" 0 example_buffer]
    by (simp add: s4_def s3_def s2_def s1_def tun_init_def MaxSize_def e_def routePeer_def RouteTo_def nat_store_def example_buffer_def)
  ultimately have "tun_step\<^sup>*\<^sup>* tun_init s4" by auto
  moreover have "ts_log s4 = [(ip_String ?x, UdpOut ?a example_packet)]"
    by (simp add: s4_def s3_def s2_def s1_def tun_init_def send_route_def e_def new_elem_def len example_take)
  ultimately show ?thesis by blast
qed

theorem tun_refines_router_witness:
  "\<exists>s. tun_step\<^sup>*\<^sup>* tun_init s \<and> ts_log s = [(ip_String (IPv4 10 0 0 1), UdpOut ''192.0.2.1:5'' example_packet)]
    \<and> may_deliver (abs_router s) (ip_String (IPv4 10 0 0 1)) (UdpOut ''192.0.2.1:5'' example_packet)"
proof -
  obtain s where s: "tun_step\<^sup>*\<^sup>* tun_init s"
    "ts_log s = [(ip_String (IPv4 10 0 0 1), UdpOut ''192.0.2.1:5'' example_packet)]"
    using example_run by blast
  from tun_refines_router [OF s(1)] s show ?thesis by auto
qed



text \<open>Which packets stop the process.  For a packet of \<open>n\<close> bytes in a buffer of the pool, whatever the
  flags of the worker, the parsing goroutine panics exactly when the packet is empty or is marked IPv4 and
  is shorter than an IPv4 header; every other packet is parsed or skipped.  The reader of the device
  panics on the same packets.\<close>

theorem parseHeader_panics:
  assumes "length (ue_data e) = LargeBufferSize" and "ue_length e \<le> LargeBufferSize"
  shows "((parseHeader fl e :: (unit, _) outcome) = Panic \<longleftrightarrow>
      ue_length e = 0 \<or> drop_bit 4 (ue_data e ! 0) = 4 \<and> ue_length e < 20)
    \<and> ((parseIPHeader (NewDataElem (ue_data e) (ue_length e) [] []) :: (unit, _) outcome) = Panic \<longleftrightarrow>
      ue_length e = 0 \<or> drop_bit 4 (ue_data e ! 0) = 4 \<and> ue_length e < 20)"
proof -
  obtain f4 f6 where fl: "fl = (f4, f6)" by fastforce
  note h = header_addrs_cases(1) [OF assms, where ?'e = unit]
  show ?thesis
  proof (cases "header_addrs (ue_data e) (ue_length e) :: (unit, _) outcome")
    case Panic
    then show ?thesis using h by (simp add: parseHeader_def parseIPHeader_def NewDataElem_def)
  next
    case (Fail x)
    then show ?thesis using h by (simp add: parseHeader_def parseIPHeader_def NewDataElem_def)
  next
    case (Ret r)
    with h have n: "ue_length e \<noteq> 0" by auto
    have "\<exists>v. (IsIPv4 (take (ue_length e) (ue_data e)) :: (unit, _) outcome) = Ret v"
      using assms n by (simp add: IsIPv4_def go_index_def LargeBufferSize_def)
    then obtain v where v: "(IsIPv4 (take (ue_length e) (ue_data e)) :: (unit, _) outcome) = Ret v" by blast
    from Ret h have np: "\<not> (ue_length e = 0 \<or> drop_bit 4 (ue_data e ! 0) = 4 \<and> ue_length e < 20)" by auto
    have "(parseHeader fl e :: (unit, _) outcome) \<noteq> Panic"
      unfolding parseHeader_def Ret v fl by (cases r) (auto simp: Let_def split: if_splits)
    moreover have "(parseIPHeader (NewDataElem (ue_data e) (ue_length e) [] []) :: (unit, _) outcome) \<noteq> Panic"
      using Ret by (simp add: parseIPHeader_def NewDataElem_def)
    ultimately show ?thesis using np by blast
  qed
qed

theorem parseHeader_panics_witness:
  "(parseHeader (True, True) (new_elem ''192.0.2.1:5'' (replicate LargeBufferSize 0) [0x45, 0, 0, 4]) :: (unit, _) outcome) = Panic"
proof -
  let ?e = "new_elem ''192.0.2.1:5'' (replicate LargeBufferSize 0) [0x45, 0, 0, 4]"
  have "drop_bit 4 (0x45 :: byte) = 4" by code_simp
  then have "drop_bit 4 (ue_data ?e ! 0) = 4" "length (ue_data ?e) = LargeBufferSize"
    by (simp_all add: new_elem_def copy_into_def LargeBufferSize_def)
  then show ?thesis
    using parseHeader_panics [of ?e "(True, True)"] by (simp add: new_elem_def LargeBufferSize_def)
qed

text \<open>The elements of one worker in turn: which of them it learns from.\<close>

fun worker_learns :: "bool \<times> bool \<Rightarrow> udpElem list \<Rightarrow> (unit, bool list) outcome" where
  "worker_learns fl [] = Ret []"
| "worker_learns fl (e # es) =
     bind_outcome (parseHeader fl e) (\<lambda>r.
       case r of
         None \<Rightarrow> worker_learns fl es
       | Some (e', fl', l) \<Rightarrow> map_outcome (Cons l) (worker_learns fl' es))"

definition is_v4 :: "udpElem \<Rightarrow> bool" where
  "is_v4 e \<longleftrightarrow> drop_bit 4 (ue_data e ! 0) = 4"

definition is_packet :: "udpElem \<Rightarrow> bool" where
  "is_packet e \<longleftrightarrow> length (ue_data e) = LargeBufferSize \<and> ue_length e \<le> LargeBufferSize \<and>
     (if is_v4 e then 20 \<le> ue_length e else drop_bit 4 (ue_data e ! 0) = 6 \<and> 40 \<le> ue_length e)"

lemma parseHeader_packet:
  assumes "is_packet e"
  shows "\<exists>e'. (parseHeader (f4, f6) e :: (unit, _) outcome) =
    Ret (Some (e', if f4 \<or> f6 then (if is_v4 e then (False, f6) else (f4, False)) else (f4, f6), f4 \<or> f6))"
proof -
  have n: "0 < ue_length e" "length (ue_data e) = LargeBufferSize" "ue_length e \<le> LargeBufferSize"
    using assms by (auto simp: is_packet_def split: if_splits)
  then have v: "(IsIPv4 (take (ue_length e) (ue_data e)) :: (unit, _) outcome) = Ret (is_v4 e)"
    by (auto simp: IsIPv4_def go_index_def is_v4_def LargeBufferSize_def)
  have "\<exists>s d. (header_addrs (ue_data e) (ue_length e) :: (unit, _) outcome) = Ret (Some (s, d))"
  proof (cases "is_v4 e")
    case True
    with assms have "20 \<le> ue_length e" by (simp add: is_packet_def)
    with True n show ?thesis using header_addrs_v4 [of "ue_length e" "ue_data e"] by (auto simp: is_v4_def)
  next
    case False
    with assms n have "drop_bit 4 (ue_data e ! 0) = 6" by (simp add: is_packet_def)
    with False n v show ?thesis
      by (simp add: header_addrs_def Let_def IsIPv6_def go_index_def go_slice_def LargeBufferSize_def)
  qed
  then obtain s d where "(header_addrs (ue_data e) (ue_length e) :: (unit, _) outcome) = Ret (Some (s, d))"
    by blast
  then show ?thesis by (simp add: parseHeader_def Let_def v)
qed

lemma worker_learns_from:
  "\<forall>e\<in>set es. is_packet e \<Longrightarrow>
    worker_learns (f4, f6) es =
      Ret (map (\<lambda>i. f4 \<and> (\<forall>e\<in>set (take i es). \<not> is_v4 e) \<or> f6 \<and> (\<forall>e\<in>set (take i es). is_v4 e)) [0..<length es])"
proof (induction es arbitrary: f4 f6)
  case Nil
  then show ?case by simp
next
  case (Cons e es)
  let ?fl = "if f4 \<or> f6 then (if is_v4 e then (False, f6) else (f4, False)) else (f4, f6)"
  obtain e' where e': "(parseHeader (f4, f6) e :: (unit, _) outcome) = Ret (Some (e', ?fl, f4 \<or> f6))"
    using Cons.prems parseHeader_packet [of e f4 f6] by auto
  have up: "[0..<length (e # es)] = 0 # map Suc [0..<length es]"
    by (simp add: upt_conv_Cons map_Suc_upt del: upt_Suc)
  have fl: "?fl = (f4 \<and> \<not> is_v4 e, f6 \<and> is_v4 e)" by auto
  from Cons.IH Cons.prems have "worker_learns ?fl es =
      Ret (map (\<lambda>i. (f4 \<and> \<not> is_v4 e) \<and> (\<forall>e\<in>set (take i es). \<not> is_v4 e)
        \<or> (f6 \<and> is_v4 e) \<and> (\<forall>e\<in>set (take i es). is_v4 e)) [0..<length es])"
    unfolding fl by simp
  then show ?case unfolding worker_learns.simps e' up by (simp add: conj_ac)
qed

text \<open>a worker learns routes only until it has seen both an IPv4 and an IPv6 packet.  From a sequence
  of well-formed packets it learns the sender of the \<open>i\<close>-th exactly when the packets before it are all
  of one version, so a worker that has seen both versions never learns a sender again, not even a
  client that connects later.\<close>

theorem worker_learns_until_both:
  assumes "\<forall>e\<in>set es. is_packet e"
  shows "worker_learns (True, True) es =
    Ret (map (\<lambda>i. (\<forall>e\<in>set (take i es). \<not> is_v4 e) \<or> (\<forall>e\<in>set (take i es). is_v4 e)) [0..<length es])"
  using worker_learns_from [OF assms, of True True] by simp

definition example_v6 :: udpElem where
  "example_v6 = new_elem ''192.0.2.2:5'' example_buffer (0x60 # replicate 39 0)"

lemma example_is_packet:
  "is_packet (new_elem a example_buffer example_packet)" "is_v4 (new_elem a example_buffer example_packet)"
  "is_packet example_v6" "\<not> is_v4 example_v6"
proof -
  have d: "drop_bit 4 (example_packet ! 0) = 4" "drop_bit 4 (0x60 :: byte) = 6" "(6 :: byte) \<noteq> 4" by code_simp+
  show v4: "is_v4 (new_elem a example_buffer example_packet)"
    using d example_nth [of 0] by (simp add: is_v4_def new_elem_def)
  then show "is_packet (new_elem a example_buffer example_packet)"
    by (simp add: is_packet_def) (simp add: new_elem_def example_length example_buffer_def LargeBufferSize_def)
  have z: "drop_bit 4 (ue_data example_v6 ! 0) = 6"
    using d by (simp add: example_v6_def new_elem_def copy_into_def example_buffer_def LargeBufferSize_def)
  then show v6: "\<not> is_v4 example_v6" using d(3) by (simp add: is_v4_def)
  with z show "is_packet example_v6"
    by (simp add: is_packet_def) (simp add: example_v6_def new_elem_def example_buffer_def LargeBufferSize_def)
qed

theorem worker_learns_until_both_witness:
  "let e = new_elem ''192.0.2.1:5'' example_buffer example_packet;
       new = new_elem ''192.0.2.9:5'' example_buffer example_packet in
   worker_learns (True, True) [e, example_v6, new] = Ret [True, True, False]"
  using worker_learns_until_both [of "[new_elem ''192.0.2.1:5'' example_buffer example_packet, example_v6,
      new_elem ''192.0.2.9:5'' example_buffer example_packet]"]
  by (simp add: example_is_packet Let_def upt_rec numeral_2_eq_2)



end
