(* ===== verification/Tun_Client.thy ===== *)
theory Tun_Client
  imports Icmp_Packet Tun_Server
begin

text \<open>
  The client's side of the tunnel: finding the tunnel interface (\<^verbatim>\<open>src/pkg/util/net.go\<close> and \<^verbatim>\<open>cidr.go\<close>), the
  heartbeats (\<^verbatim>\<open>src/pkg/core/tunhandler.go\<close>), the choice between the user-space stack and the raw tunnel
  (\<^verbatim>\<open>tunendpoint.go\<close>) and the two pumps between the device and the connection to the traffic manager
  (\<^verbatim>\<open>tunhandlerclient.go\<close>).
\<close>

section \<open>The tunnel interface\<close>

text \<open>An interface of the system: its name, and its addresses as \<^verbatim>\<open>Addrs\<close> prints them (\<open>None\<close> for an error).\<close>

record net_interface =
  if_name :: string
  if_addrs :: "string list option"

datatype device_err = AddrsFailed | NoDevice | NotAllIPs

fun GetTunDevice :: "ip list \<Rightarrow> net_interface list \<Rightarrow> device_err + net_interface" where
  "GetTunDevice ips [] = Inl NoDevice"
| "GetTunDevice ips (i # is) =
     (case if_addrs i of
        None \<Rightarrow> Inl AddrsFailed
      | Some addrs \<Rightarrow>
          if list_ex (\<lambda>a. list_ex (\<lambda>x. str_contains a (ip_String x)) ips) addrs then Inr i
          else GetTunDevice ips is)"

fun GetTunDeviceByConn :: "string \<Rightarrow> net_interface list \<Rightarrow> device_err + net_interface" where
  "GetTunDeviceByConn localAddr [] = Inl NoDevice"
| "GetTunDeviceByConn localAddr (i # is) =
     (case if_addrs i of
        None \<Rightarrow> Inl AddrsFailed
      | Some addrs \<Rightarrow>
          if list_ex (\<lambda>a. str_contains a localAddr) addrs then Inr i
          else GetTunDeviceByConn localAddr is)"

text \<open>\<^verbatim>\<open>GetLocalTunIP\<close>: the last address of each version; text that is no CIDR is skipped.\<close>

fun local_ips :: "string list \<Rightarrow> ip \<times> ip \<Rightarrow> ip \<times> ip" where
  "local_ips [] r = r"
| "local_ips (a # as) (v4, v6) =
     (case ParseCIDR a of
        None \<Rightarrow> local_ips as (v4, v6)
      | Some (p, _) \<Rightarrow> local_ips as (if To4 p \<noteq> [] then (p, v6) else (v4, p)))"

definition GetLocalTunIP :: "string \<Rightarrow> net_interface list \<Rightarrow> device_err + ip \<times> ip" where
  "GetLocalTunIP tunName ifs =
     (case find (\<lambda>i. if_name i = tunName) ifs of
        None \<Rightarrow> Inl NoDevice
      | Some i \<Rightarrow>
          (case if_addrs i of
             None \<Rightarrow> Inl AddrsFailed
           | Some addrs \<Rightarrow>
               (case local_ips addrs ([], []) of
                  (v4, v6) \<Rightarrow> if v4 = [] \<or> v6 = [] then Inl NotAllIPs else Inr (v4, v6))))"

section \<open>Heartbeats\<close>

text \<open>
  \<^verbatim>\<open>heartbeats\<close> up to its loop: the addresses to send from, or \<open>None\<close> when it returns at once.  The second
  comparison is with \<^verbatim>\<open>RouterIP6.To4()\<close>, which is nil.
\<close>

definition heartbeat_source :: "string \<Rightarrow> net_interface list \<Rightarrow> (ip \<times> ip) option" where
  "heartbeat_source localAddr ifs =
     (case GetTunDeviceByConn localAddr ifs of
        Inl _ \<Rightarrow> None
      | Inr dev \<Rightarrow>
          (case GetLocalTunIP (if_name dev) ifs of
             Inl _ \<Rightarrow> None
           | Inr (src4, src6) \<Rightarrow>
               if ip_Equal (To4 RouterIP) src4 then None
               else if ip_Equal (To4 RouterIP6) src6 then None
               else Some (src4, src6)))"

text \<open>
  One round of the inner loop, with the packets kept from earlier rounds and two buffers of the pool:
  the packets to keep, and the elements put on the channel to the traffic manager.
\<close>

definition heartbeat_round ::
  "ip \<times> ip \<Rightarrow> byte list \<Rightarrow> byte list \<Rightarrow> byte list option \<times> byte list option \<Rightarrow>
   (byte list option \<times> byte list option) \<times> DataElem list" where
  "heartbeat_round src pool pool6 cache =
     (case (case fst cache of Some b \<Rightarrow> Inr b | None \<Rightarrow> genICMPPacket (fst src) RouterIP) of
        Inl _ \<Rightarrow> ((None, snd cache), [])
      | Inr b \<Rightarrow>
          (case (case snd cache of Some b6 \<Rightarrow> Inr b6 | None \<Rightarrow> genICMPPacketIPv6 (snd src) RouterIP6) of
             Inl _ \<Rightarrow> ((Some b, None), [])
           | Inr b6 \<Rightarrow>
               ((Some b, Some b6),
                [NewDataElem (copy_into pool b) (min (length pool) (length b)) (fst src) RouterIP,
                 NewDataElem (copy_into pool6 b6) (min (length pool6) (length b6)) (snd src) RouterIP6])))"

fun heartbeat_rounds ::
  "ip \<times> ip \<Rightarrow> (byte list \<times> byte list) list \<Rightarrow> byte list option \<times> byte list option \<Rightarrow> DataElem list" where
  "heartbeat_rounds src [] cache = []"
| "heartbeat_rounds src ((p, p6) # ps) cache =
     (case heartbeat_round src p p6 cache of (cache', es) \<Rightarrow> es @ heartbeat_rounds src ps cache')"

section \<open>From the device to the tunnel\<close>

datatype engine = EngineGvisor | EngineMix | EngineRaw

text \<open>
  Protocol, source and destination of an IP packet: \<^verbatim>\<open>ipv4.ParseHeader\<close> wants the whole header with its
  options, \<^verbatim>\<open>ipv6.ParseHeader\<close> forty bytes.
\<close>

definition parse_v4 :: "byte list \<Rightarrow> (byte \<times> ip \<times> ip) option" where
  "parse_v4 b =
     (if length b < 20 then None
      else if length b < unat (b ! 0 AND 0x0f) * 4 then None
      else Some (b ! 9, IPv4 (b ! 12) (b ! 13) (b ! 14) (b ! 15), IPv4 (b ! 16) (b ! 17) (b ! 18) (b ! 19)))"

definition parse_v6 :: "byte list \<Rightarrow> (byte \<times> ip \<times> ip) option" where
  "parse_v6 b =
     (if length b < 40 then None
      else Some (b ! 6, take 16 (drop 8 b), take 16 (drop 24 b)))"

text \<open>The protocol comes from the version nibble of a packet that is not empty.\<close>

definition parse_packet :: "byte list \<Rightarrow> (byte \<times> ip \<times> ip) option" where
  "parse_packet b =
     (if drop_bit 4 (b ! 0) = 4 then parse_v4 b
      else if drop_bit 4 (b ! 0) = 6 then parse_v6 b else None)"

text \<open>
  What the reader of the device does with \<open>n\<close> bytes in a buffer: skip them, hand them to the user-space
  stack, or put them on the channel to the traffic manager.
\<close>

datatype tun_action = SkipPacket | InjectInbound nat "byte list" | RawElem DataElem

definition needs_gvisor :: "engine \<Rightarrow> byte \<Rightarrow> ip \<Rightarrow> bool" where
  "needs_gvisor eng proto dst \<longleftrightarrow>
     (proto = 17 \<or> proto = 136 \<or> proto = 6) \<and>
     (eng = EngineGvisor \<or> eng = EngineMix \<and> \<not> net_Contains CIDR dst \<and> \<not> net_Contains CIDR6 dst)"

definition endpoint_read :: "engine \<Rightarrow> byte list \<Rightarrow> nat \<Rightarrow> tun_action" where
  "endpoint_read eng bytes n =
     (if n = 0 then SkipPacket
      else
        let protocol = (if drop_bit 4 (bytes ! 0) = 4 then 0x0800 else 0x86dd)
        in case parse_packet (take n bytes) of
             None \<Rightarrow> SkipPacket
           | Some (proto, src, dst) \<Rightarrow>
               if needs_gvisor eng proto dst then InjectInbound protocol (take n bytes)
               else RawElem (NewDataElem bytes n src dst))"

text \<open>
  \<^verbatim>\<open>transportTunClient\<close>: an element whose source is its destination goes back to the device, any other is
  written to the connection; what the connection delivers goes to the device.
\<close>

datatype client_action = BackToTun DataElem | ToRemote "byte list"

definition client_send :: "DataElem \<Rightarrow> client_action" where
  "client_send e =
     (if ip_Equal (de_src e) (de_dst e) then BackToTun e else ToRemote (take (de_length e) (de_data e)))"

definition client_receive ::
  "byte list \<Rightarrow> byte list \<Rightarrow> (read_err, DataElem \<times> byte list) outcome" where
  "client_receive stream pool =
     map_outcome (\<lambda>(n, b, s). (NewDataElem b n [] [], s)) (tunnel_ReadFrom stream pool)"

text \<open>What the endpoint writes to the device for an element.\<close>

definition endpoint_write :: "DataElem \<Rightarrow> byte list" where
  "endpoint_write e = take (de_length e) (de_data e)"

section \<open>Addresses that parse have sixteen bytes\<close>

lemma parse4_from_length: "parse4_from k acc s = Some p \<Longrightarrow> length p = length acc + k"
  by (induction k acc s rule: parse4_from.induct)
    (auto simp: Let_def split: if_splits option.splits)

lemma parseIPv4_length: "parseIPv4 s = Some p \<Longrightarrow> length p = 16"
  using parse4_from_length by (fastforce simp: parseIPv4_def v4InV6Prefix_def)

lemma parse6_loop_length:
  "parse6_loop acc ell s = Some (a, e, r) \<Longrightarrow> even (length acc) \<Longrightarrow> length acc \<le> 16 \<Longrightarrow> length a \<le> 16"
proof (induction "16 - length acc" arbitrary: acc ell s rule: less_induct)
  case less
  show ?case
  proof (cases "length acc < 16")
    case True
    with less.prems(2) have two: "length acc + 2 \<le> 16" by (auto elim!: evenE)
    from less.prems(1) True obtain n c where x: "xtoi s = Some (n, c)" "\<not> n > 0xFFFF"
      by (auto simp: parse6_loop.simps [of acc] split: option.splits if_splits)
    let ?acc = "acc @ [word_of_nat (n div 256), word_of_nat (n mod 256)]"
    have IH: "parse6_loop ?acc l t = Some (a, e, r) \<Longrightarrow> length a \<le> 16" for l t
      using less.hyps [of ?acc l t] True two less.prems(2) by simp
    show ?thesis
    proof (cases "c < length s \<and> s ! c = CHR ''.''")
      case dot: True
      then show ?thesis
        using less.prems(1) True x
        by (auto simp: parse6_loop.simps [of acc] parseIPv4_length split: if_splits option.splits)
    next
      case False
      note e = less.prems(1) [unfolded parse6_loop.simps [of acc]]
      from e True x False two IH show ?thesis
        by (simp add: Let_def split: if_splits) (use two in auto)
    qed
  next
    case False
    with less.prems show ?thesis by (simp add: parse6_loop.simps [of acc])
  qed
qed

lemma parseIPv6_length: "parseIPv6 s = Some p \<Longrightarrow> length p = 16"
  using parse6_loop_length [of "[]"]
  by (fastforce simp: parseIPv6_def Let_def split: if_splits option.splits)

lemma ParseCIDR_length: "ParseCIDR s = Some (p, n) \<Longrightarrow> length p = 16"
  by (auto simp: ParseCIDR_def Let_def parseIPv4_length parseIPv6_length split: if_splits option.splits)

section \<open>Client and server read the same header\<close>

lemma header_addrs_v6:
  assumes "0 < n" and "n \<le> length buf" and "40 \<le> length buf" and "drop_bit 4 (buf ! 0) = 6"
  shows "header_addrs buf n = Ret (Some (take 16 (drop 8 buf), take 16 (drop 24 buf)))"
proof -
  have "(6 :: byte) \<noteq> 4" by code_simp
  with assms show ?thesis
    by (auto simp: header_addrs_def Let_def IsIPv4_def IsIPv6_def go_index_def go_slice_def)
qed

lemma nth_take_eq: "take n xs = take n ys \<Longrightarrow> i < n \<Longrightarrow> xs ! i = ys ! i"
  by (metis nth_take)

lemma slice_take_eq: "take n xs = take n ys \<Longrightarrow> i + k \<le> n \<Longrightarrow> take k (drop i xs) = take k (drop i ys)"
  by (metis take_drop take_take min_absorb1 add.commute)

text \<open>
  A packet with a complete header: every reader of the traffic manager finds the addresses the client
  found, in any buffer that starts with the packet and whatever part of it counts as packet.
\<close>

lemma header_addrs_packet:
  assumes "parse_packet (take n bytes) = Some (proto, src, dst)" and "n \<le> length bytes"
    and "take n buf = take n bytes" and "n \<le> m" and "m \<le> length buf"
  shows "header_addrs buf m = Ret (Some (src, dst))"
proof -
  have l: "length (take n bytes) = n" using assms(2) by simp
  consider (v4) "drop_bit 4 (take n bytes ! 0) = 4" "parse_v4 (take n bytes) = Some (proto, src, dst)"
    | (v6) "drop_bit 4 (take n bytes ! 0) = 6" "parse_v6 (take n bytes) = Some (proto, src, dst)"
    using assms(1) by (auto simp: parse_packet_def split: if_splits)
  then show ?thesis
  proof cases
    case v4
    then have n: "20 \<le> n" using l by (auto simp: parse_v4_def split: if_splits)
    then have b: "drop_bit 4 (buf ! 0) = 4" using v4(1) nth_take_eq [OF assms(3), of 0] by simp
    from v4(2) l n show ?thesis
      using header_addrs_v4 [OF assms(5) _ b] assms(4) nth_take_eq [OF assms(3)]
      by (simp add: parse_v4_def split: if_splits)
  next
    case v6
    then have n: "40 \<le> n" using l by (auto simp: parse_v6_def split: if_splits)
    then have b: "drop_bit 4 (buf ! 0) = 6" using v6(1) nth_take_eq [OF assms(3), of 0] by simp
    have sl: "take 16 (drop i (take n bytes)) = take 16 (drop i buf)" if "i + 16 \<le> n" for i
      using slice_take_eq [of n "take n bytes" buf i 16] assms(3) that by simp
    from v6(2) l n have "src = take 16 (drop 8 buf)" "dst = take 16 (drop 24 buf)"
      using sl [of 8] sl [of 24] by (simp_all add: parse_v6_def split: if_splits)
    then show ?thesis using header_addrs_v6 [OF _ assms(5) _ b] n assms(4,5) by simp
  qed
qed

lemma endpoint_raw:
  assumes "endpoint_read eng bytes n = RawElem e"
  obtains proto where "parse_packet (take n bytes) = Some (proto, de_src e, de_dst e)"
    and "de_data e = bytes" and "de_length e = n" and "0 < n" and "\<not> needs_gvisor eng proto (de_dst e)"
  using assms by (auto simp: endpoint_read_def Let_def NewDataElem_def split: if_splits option.splits)

text \<open>Every element of a heartbeat is a packet with the addresses the element carries.\<close>

lemma drop_bit_versions: "drop_bit 4 (0x45 :: byte) = 4" "drop_bit 4 (0x60 :: byte) = 6" "(6 :: byte) \<noteq> 4"
  by code_simp+

lemma nth_four: "take 4 (drop i xs) = [a, b, c, d] \<Longrightarrow> xs ! i = a \<and> xs ! (i + 1) = b \<and> xs ! (i + 2) = c \<and> xs ! (i + 3) = d"
proof -
  assume e: "take 4 (drop i xs) = [a, b, c, d]"
  have "length (take 4 (drop i xs)) = 4" by (simp add: e)
  then have l: "i + 4 \<le> length xs" by simp
  have "xs ! (i + k) = [a, b, c, d] ! k" if "k < 4" for k
    using that l by (metis e add_leD1 nth_drop nth_take)
  from this [of 0] this [of 1] this [of 2] this [of 3] show ?thesis by simp
qed

lemma ip_Equal_IPv4:
  assumes "To4 p = [a, b, c, d]"
  shows "ip_Equal (IPv4 a b c d) p"
proof (cases "length p = 4")
  case True
  with assms show ?thesis by (simp add: ip_Equal_def IPv4_def To4_def v4InV6Prefix_def)
next
  case False
  with assms have "length p = 16" "take 12 p = v4InV6Prefix" "drop 12 p = [a, b, c, d]"
    by (auto simp: To4_def split: if_splits)
  then have "p = IPv4 a b c d" by (metis IPv4_def append_take_drop_id)
  then show ?thesis by simp
qed

lemma heartbeat4_parses:
  assumes "genICMPPacket src dst = Inr p"
  shows "length p = 28"
    and "\<exists>s d. parse_packet p = Some (1, s, d) \<and> ip_Equal s src \<and> ip_Equal d dst"
    and "tcpipChecksum (take 20 p) 0 = 0" and "tcpipChecksum (drop 20 p) 0 = 0"
proof -
  note h = ip4_header [OF assms [unfolded genICMPPacket_def]]
  show l: "length p = 28" using h(5) by simp
  show "tcpipChecksum (take 20 p) 0 = 0" by (rule h(1))
  show "tcpipChecksum (drop 20 p) 0 = 0" unfolding h(2) by (rule icmp4_verifies)
  from assms have ne: "To4 src \<noteq> []" "To4 dst \<noteq> []"
    by (auto simp: genICMPPacket_def serialize_ip4_def split: if_splits)
  obtain a b c d where s: "To4 src = [a, b, c, d]" using To4_16_cases [of src] ne by auto
  obtain e f g i where t: "To4 dst = [e, f, g, i]" using To4_16_cases [of dst] ne by auto
  have n: "p ! 12 = a" "p ! 13 = b" "p ! 14 = c" "p ! 15 = d" "p ! 16 = e" "p ! 17 = f" "p ! 18 = g" "p ! 19 = i"
    using nth_four [of 12 p a b c d] nth_four [of 16 p e f g i] h(3,4) s t by simp_all
  have "unat ((0x45 :: byte) AND 0x0f) * 4 = 20" by code_simp
  then have "parse_packet p = Some (1, IPv4 a b c d, IPv4 e f g i)"
    using l n h(6,7) drop_bit_versions by (simp add: parse_packet_def parse_v4_def)
  then show "\<exists>s d. parse_packet p = Some (1, s, d) \<and> ip_Equal s src \<and> ip_Equal d dst"
    using ip_Equal_IPv4 s t by blast
qed

lemma heartbeat6_parses:
  assumes "genICMPPacketIPv6 src dst = Inr p"
  shows "length p = 44" and "parse_packet p = Some (58, src, dst)"
proof -
  from assms have l: "length src = 16" "length dst = 16"
    and p: "p = [0x60, 0, 0, 0] @ be_fixed 2 4 @ [58, 255] @ src @ dst @ serialize_icmp6 128 0"
    by (auto simp: genICMPPacketIPv6_def serialize_ip6_def split: if_splits)
  have be: "be_fixed 2 4 = [0, 4]" by code_simp
  show n: "length p = 44" using l by (simp add: p)
  show "parse_packet p = Some (58, src, dst)"
    using l n drop_bit_versions by (simp add: parse_packet_def parse_v6_def p be)
qed

lemma local_ips_cases:
  assumes "local_ips as (v4, v6) = (w4, w6)"
    and "v4 = [] \<or> length v4 = 16 \<and> To4 v4 \<noteq> []" and "v6 = [] \<or> length v6 = 16 \<and> To4 v6 = []"
  shows "(w4 = [] \<or> length w4 = 16 \<and> To4 w4 \<noteq> []) \<and> (w6 = [] \<or> length w6 = 16 \<and> To4 w6 = [])"
  using assms
proof (induction as arbitrary: v4 v6)
  case (Cons a as)
  show ?case
  proof (cases "ParseCIDR a")
    case None
    then show ?thesis using Cons by simp
  next
    case (Some r)
    obtain p n where r: "r = (p, n)" by fastforce
    then have "length p = 16" using Some ParseCIDR_length by blast
    then show ?thesis using Cons.IH [of "if To4 p \<noteq> [] then p else v4" "if To4 p \<noteq> [] then v6 else p"] Cons.prems Some r
      by (auto split: if_splits)
  qed
qed simp

lemma heartbeat_source_ips:
  assumes "heartbeat_source la ifs = Some (s4, s6)"
  shows "length s4 = 16" and "To4 s4 \<noteq> []" and "length s6 = 16" and "To4 s6 = []"
    and "\<not> ip_Equal (To4 RouterIP) s4"
proof -
  obtain addrs where a: "local_ips addrs ([], []) = (s4, s6)" "s4 \<noteq> []" "s6 \<noteq> []"
    and g: "\<not> ip_Equal (To4 RouterIP) s4"
    using assms
    by (auto simp: heartbeat_source_def GetLocalTunIP_def split: sum.splits option.splits if_splits prod.splits)
  show "\<not> ip_Equal (To4 RouterIP) s4" by (rule g)
  from local_ips_cases [OF a(1)] a(2,3) show "length s4 = 16" "To4 s4 \<noteq> []" "length s6 = 16" "To4 s6 = []"
    by auto
qed

text \<open>
  The comparison with \<^verbatim>\<open>RouterIP6.To4()\<close> never holds: a node with the router's IPv6 address sends
  heartbeats as any other.
\<close>

lemma heartbeat_v6_guard_dead:
  assumes "GetTunDeviceByConn la ifs = Inr dev" and "GetLocalTunIP (if_name dev) ifs = Inr (s4, s6)"
  shows "heartbeat_source la ifs = (if ip_Equal (To4 RouterIP) s4 then None else Some (s4, s6))"
proof -
  obtain addrs where a: "local_ips addrs ([], []) = (s4, s6)" and "s6 \<noteq> []"
    using assms(2) by (auto simp: GetLocalTunIP_def split: option.splits if_splits prod.splits)
  with local_ips_cases [OF a] have "length s6 = 16" by auto
  moreover have "To4 RouterIP6 = []" by code_simp
  ultimately have "\<not> ip_Equal (To4 RouterIP6) s6" by (auto simp: ip_Equal_def)
  with assms show ?thesis by (simp add: heartbeat_source_def)
qed

text \<open>A heartbeat element: its bytes are a complete packet whose addresses are those of the element.\<close>

definition heartbeat_elem :: "DataElem \<Rightarrow> bool" where
  "heartbeat_elem e \<longleftrightarrow>
     length (de_data e) = LargeBufferSize \<and> de_length e \<le> LargeBufferSize - 2 \<and>
     (\<exists>proto s d. parse_packet (take (de_length e) (de_data e)) = Some (proto, s, d) \<and>
        ip_Equal s (de_src e) \<and> ip_Equal d (de_dst e) \<and>
        (proto = 1 \<longrightarrow> tcpipChecksum (take 20 (de_data e)) 0 = 0 \<and>
           tcpipChecksum (drop 20 (take (de_length e) (de_data e))) 0 = 0))"

lemma gen_succeeds:
  assumes "To4 s4 \<noteq> []" and "length s6 = 16"
  shows "\<exists>b. genICMPPacket s4 RouterIP = Inr b" and "\<exists>b6. genICMPPacketIPv6 s6 RouterIP6 = Inr b6"
proof -
  have "To4 RouterIP \<noteq> []" "length RouterIP6 = 16" by code_simp+
  with assms show "\<exists>b. genICMPPacket s4 RouterIP = Inr b" "\<exists>b6. genICMPPacketIPv6 s6 RouterIP6 = Inr b6"
    by (simp_all add: genICMPPacket_def serialize_ip4_def genICMPPacketIPv6_def serialize_ip6_def Let_def)
qed

lemma heartbeat_round_elems:
  assumes "genICMPPacket s4 RouterIP = Inr b" and "genICMPPacketIPv6 s6 RouterIP6 = Inr b6"
    and "c4 = None \<or> c4 = Some b" and "c6 = None \<or> c6 = Some b6"
    and "length p = LargeBufferSize" and "length p6 = LargeBufferSize"
  shows "\<exists>e e6. heartbeat_round (s4, s6) p p6 (c4, c6) = ((Some b, Some b6), [e, e6]) \<and>
    heartbeat_elem e \<and> heartbeat_elem e6 \<and>
    de_length e = 28 \<and> de_src e = s4 \<and> de_dst e = RouterIP \<and>
    de_length e6 = 44 \<and> de_src e6 = s6 \<and> de_dst e6 = RouterIP6"
proof -
  note h4 = heartbeat4_parses [OF assms(1)] and h6 = heartbeat6_parses [OF assms(2)]
  have t4: "take 28 (copy_into p b) = b" using take_copy_into [of b p] h4(1) assms(5) by (simp add: LargeBufferSize_def)
  have t6: "take 44 (copy_into p6 b6) = b6" using take_copy_into [of b6 p6] h6(1) assms(6) by (simp add: LargeBufferSize_def)
  have "take 20 (copy_into p b) = take 20 (take 28 (copy_into p b))" by (simp add: min_def)
  then have t20: "take 20 (copy_into p b) = take 20 b" by (simp only: t4)
  let ?e = "NewDataElem (copy_into p b) 28 s4 RouterIP" and ?e6 = "NewDataElem (copy_into p6 b6) 44 s6 RouterIP6"
  have "heartbeat_round (s4, s6) p p6 (c4, c6) = ((Some b, Some b6), [?e, ?e6])"
    using assms h4(1) h6(1) by (auto simp: heartbeat_round_def LargeBufferSize_def)
  moreover have "heartbeat_elem ?e"
    using h4 assms(5) by (auto simp: heartbeat_elem_def NewDataElem_def t4 t20 LargeBufferSize_def)
  moreover have "heartbeat_elem ?e6"
    using h6 assms(6) by (auto simp: heartbeat_elem_def NewDataElem_def t6 LargeBufferSize_def)
  ultimately show ?thesis by (auto simp: NewDataElem_def)
qed

lemma heartbeat_rounds_elems:
  assumes "genICMPPacket s4 RouterIP = Inr b" and "genICMPPacketIPv6 s6 RouterIP6 = Inr b6"
    and "\<forall>(p, p6)\<in>set pools. length p = LargeBufferSize \<and> length p6 = LargeBufferSize"
    and "c4 = None \<or> c4 = Some b" and "c6 = None \<or> c6 = Some b6"
  shows "map (\<lambda>e. (de_length e, de_src e, de_dst e)) (heartbeat_rounds (s4, s6) pools (c4, c6)) =
      concat (replicate (length pools) [(28, s4, RouterIP), (44, s6, RouterIP6)])
    \<and> (\<forall>e\<in>set (heartbeat_rounds (s4, s6) pools (c4, c6)). heartbeat_elem e)"
  using assms(3-)
proof (induction pools arbitrary: c4 c6)
  case (Cons q qs)
  obtain p p6 where q: "q = (p, p6)" by fastforce
  with Cons.prems obtain e e6 where
    "heartbeat_round (s4, s6) p p6 (c4, c6) = ((Some b, Some b6), [e, e6])"
    "heartbeat_elem e" "heartbeat_elem e6" "de_length e = 28" "de_src e = s4" "de_dst e = RouterIP"
    "de_length e6 = 44" "de_src e6 = s6" "de_dst e6 = RouterIP6"
    using heartbeat_round_elems [OF assms(1,2), of c4 c6 p p6] by auto
  with Cons.IH [of "Some b" "Some b6"] Cons.prems(1) show ?case by (simp add: q)
qed simp

section \<open>Properties of the client\<close>


definition example_ifs :: "net_interface list" where
  "example_ifs =
     [\<lparr>if_name = ''lo'', if_addrs = Some [''127.0.0.1/8'']\<rparr>,
      \<lparr>if_name = ''utun4'', if_addrs = Some [''223.254.0.102/16'', ''efff:ffff:ffff:ffff:ffff:ffff:ffff:999a/64'']\<rparr>]"


text \<open>C31: the raw tunnel carries only what the traffic manager can read.  For whatever bytes come from the
  device, an element that the endpoint puts on the tunnel has a complete IP header, and its addresses are those
  every reader of the traffic manager finds in the packet, so none of them panics or skips it; TCP and UDP
  packets go to the user-space stack exactly as the engine says.\<close>

theorem endpoint_raw_readable:
  assumes "endpoint_read eng bytes n = RawElem e" and "n \<le> length bytes"
    and "take n buf = take n bytes" and "n \<le> m" and "m \<le> length buf"
  shows "(header_addrs buf m :: (unit, _) outcome) = Ret (Some (de_src e, de_dst e))
    \<and> endpoint_write e = take n bytes
    \<and> (eng = EngineGvisor \<longrightarrow> (\<exists>proto. parse_packet (take n bytes) = Some (proto, de_src e, de_dst e) \<and> proto \<notin> {6, 17, 136}))
    \<and> (eng = EngineMix \<longrightarrow> (\<exists>proto. parse_packet (take n bytes) = Some (proto, de_src e, de_dst e) \<and>
        (proto \<notin> {6, 17, 136} \<or> net_Contains CIDR (de_dst e) \<or> net_Contains CIDR6 (de_dst e))))"
proof -
  obtain proto where p: "parse_packet (take n bytes) = Some (proto, de_src e, de_dst e)"
    "de_data e = bytes" "de_length e = n" "\<not> needs_gvisor eng proto (de_dst e)"
    using endpoint_raw [OF assms(1)] by metis
  then show ?thesis
    using header_addrs_packet [OF p(1) assms(2-5)] by (auto simp: endpoint_write_def needs_gvisor_def)
qed

theorem endpoint_raw_readable_witness:
  "endpoint_read EngineMix (example_packet[9 := 6, 16 := 223, 17 := 254]) 20 =
     RawElem (NewDataElem (example_packet[9 := 6, 16 := 223, 17 := 254]) 20 (IPv4 10 0 0 1) (IPv4 223 254 0 1)) \<and>
   (header_addrs (example_packet[9 := 6, 16 := 223, 17 := 254] @ replicate 30 7) 50 :: (unit, _) outcome) =
     Ret (Some (IPv4 10 0 0 1, IPv4 223 254 0 1))"
proof -
  let ?b = "example_packet[9 := 6, 16 := 223, 17 := 254]"
  have e: "endpoint_read EngineMix ?b 20 = RawElem (NewDataElem ?b 20 (IPv4 10 0 0 1) (IPv4 223 254 0 1))"
    by code_simp
  show ?thesis
    using endpoint_raw_readable [OF e, of "?b @ replicate 30 7" 50] e
    by (simp add: example_length NewDataElem_def)
qed

end
