(* ===== verification/Go_Url.thy ===== *)
theory Go_Url
  imports Go_Strings
begin

text \<open>
  \<^verbatim>\<open>url.Parse\<close>, \<^verbatim>\<open>URL.EscapedPath\<close> and \<^verbatim>\<open>URL.Query\<close> of Go 1.20's \<^verbatim>\<open>net/url\<close>, which the node syntax of
  \<^verbatim>\<open>src/pkg/core/node.go\<close> rests on, with the facts for text that needs no escapes.
\<close>

section \<open>Escapes\<close>

datatype url_mode = EncodePath | EncodeHost | EncodeZone | EncodeUserPassword | EncodeQueryComponent | EncodeFragment

datatype url_err = InvalidControl | MissingScheme | ColonInSegment | BadEscape | InvalidHost | InvalidPort
  | MissingBracket | InvalidUserinfo

definition code :: "char \<Rightarrow> nat" where
  "code c = of_char c"

definition is_lower :: "char \<Rightarrow> bool" where "is_lower c \<longleftrightarrow> 97 \<le> code c \<and> code c \<le> 122"
definition is_upper :: "char \<Rightarrow> bool" where "is_upper c \<longleftrightarrow> 65 \<le> code c \<and> code c \<le> 90"
definition is_digit :: "char \<Rightarrow> bool" where "is_digit c \<longleftrightarrow> 48 \<le> code c \<and> code c \<le> 57"

definition unhex :: "char \<Rightarrow> nat option" where
  "unhex c =
     (if is_digit c then Some (code c - 48)
      else if 97 \<le> code c \<and> code c \<le> 102 then Some (code c - 87)
      else if 65 \<le> code c \<and> code c \<le> 70 then Some (code c - 55)
      else None)"

text \<open>\<^verbatim>\<open>shouldEscape\<close>: the reserved characters each part of a URL may hold as they are.\<close>

definition shouldEscape :: "char \<Rightarrow> url_mode \<Rightarrow> bool" where
  "shouldEscape c mode =
     (if is_lower c \<or> is_upper c \<or> is_digit c then False
      else if (mode = EncodeHost \<or> mode = EncodeZone) \<and> c \<in> set ''!$&()*+,;=:[]<>'' \<union> {CHR 0x22, CHR 0x27} then False
      else if c \<in> set ''-_.~'' then False
      else if c \<in> set ''$&+,/:;=?@'' then
        (case mode of
           EncodePath \<Rightarrow> c = CHR ''?''
         | EncodeUserPassword \<Rightarrow> c \<in> set ''@/?:''
         | EncodeQueryComponent \<Rightarrow> True
         | EncodeFragment \<Rightarrow> False
         | _ \<Rightarrow> True)
      else if mode = EncodeFragment \<and> c \<in> set ''!()*'' then False
      else True)"

text \<open>\<^verbatim>\<open>unescape\<close>: the checks of its first loop and the decoding of its second in one pass.\<close>

fun unescape :: "url_mode \<Rightarrow> string \<Rightarrow> url_err + string" where
  "unescape mode [] = Inr []"
| "unescape mode (c # s) =
     (if c = CHR ''%'' then
        (case s of
           a # b # r \<Rightarrow>
             (case (unhex a, unhex b) of
                (Some h, Some l) \<Rightarrow>
                  if mode = EncodeHost \<and> h < 8 \<and> [c, a, b] \<noteq> ''%25'' then Inl BadEscape
                  else if mode = EncodeZone \<and> [c, a, b] \<noteq> ''%25'' \<and> char_of (h * 16 + l) \<noteq> CHR '' '' \<and>
                    shouldEscape (char_of (h * 16 + l)) EncodeHost then Inl BadEscape
                  else map_sum id (Cons (char_of (h * 16 + l))) (unescape mode r)
              | _ \<Rightarrow> Inl BadEscape)
         | _ \<Rightarrow> Inl BadEscape)
      else if c = CHR ''+'' then
        map_sum id (Cons (if mode = EncodeQueryComponent then CHR '' '' else c)) (unescape mode s)
      else if (mode = EncodeHost \<or> mode = EncodeZone) \<and> code c < 128 \<and> shouldEscape c mode then Inl InvalidHost
      else map_sum id (Cons c) (unescape mode s))"

definition upperhex :: "nat \<Rightarrow> char" where
  "upperhex d = ''0123456789ABCDEF'' ! d"

definition escape :: "url_mode \<Rightarrow> string \<Rightarrow> string" where
  "escape mode s =
     concat (map (\<lambda>c.
       if shouldEscape c mode then
         (if c = CHR '' '' \<and> mode = EncodeQueryComponent then ''+''
          else [CHR ''%'', upperhex (code c div 16), upperhex (code c mod 16)])
       else [c]) s)"

definition validEncoded :: "url_mode \<Rightarrow> string \<Rightarrow> bool" where
  "validEncoded mode s =
     list_all (\<lambda>c. c \<in> set ''!$&()*+,;=:@[]%'' \<union> {CHR 0x27} \<or> \<not> shouldEscape c mode) s"

section \<open>Parsing\<close>

text \<open>\<^verbatim>\<open>strings.Cut\<close> at a byte: what is before it, and what is after it if it occurs.\<close>

definition cut :: "char \<Rightarrow> string \<Rightarrow> string \<times> string option" where
  "cut d s =
     (takeWhile (\<lambda>c. c \<noteq> d) s,
      case dropWhile (\<lambda>c. c \<noteq> d) s of [] \<Rightarrow> None | _ # r \<Rightarrow> Some r)"

text \<open>\<^verbatim>\<open>getScheme\<close>: the loop with the position of the byte it is at.\<close>

fun scheme_from :: "nat \<Rightarrow> string \<Rightarrow> string \<Rightarrow> url_err + string \<times> string" where
  "scheme_from i raw [] = Inr ([], raw)"
| "scheme_from i raw (c # s) =
     (if is_lower c \<or> is_upper c then scheme_from (Suc i) raw s
      else if is_digit c \<or> c \<in> set ''+-.'' then
        (if i = 0 then Inr ([], raw) else scheme_from (Suc i) raw s)
      else if c = CHR '':'' then (if i = 0 then Inl MissingScheme else Inr (take i raw, s))
      else Inr ([], raw))"

definition getScheme :: "string \<Rightarrow> url_err + string \<times> string" where
  "getScheme raw = scheme_from 0 raw raw"

definition to_lower :: "string \<Rightarrow> string" where
  "to_lower s = map (\<lambda>c. if is_upper c then char_of (code c + 32) else c) s"

text \<open>\<^verbatim>\<open>validOptionalPort\<close>, \<^verbatim>\<open>parseHost\<close> and \<^verbatim>\<open>parseAuthority\<close>; the user name is only checked.\<close>

definition validOptionalPort :: "string \<Rightarrow> bool" where
  "validOptionalPort port =
     (case port of [] \<Rightarrow> True | c # r \<Rightarrow> c = CHR '':'' \<and> list_all is_digit r)"

definition bind_sum :: "'e + 'a \<Rightarrow> ('a \<Rightarrow> 'e + 'b) \<Rightarrow> 'e + 'b" where
  "bind_sum r k = (case r of Inl e \<Rightarrow> Inl e | Inr x \<Rightarrow> k x)"

fun index_of :: "string \<Rightarrow> string \<Rightarrow> nat option" where
  "index_of [] sub = (if sub = [] then Some 0 else None)"
| "index_of (c # s) sub = (if starts_with (c # s) sub then Some 0 else map_option Suc (index_of s sub))"

definition parseHost :: "string \<Rightarrow> url_err + string" where
  "parseHost host =
     (if starts_with host ''['' then
        (case last_index host '']'' of
           None \<Rightarrow> Inl MissingBracket
         | Some i \<Rightarrow>
             if \<not> validOptionalPort (drop (Suc i) host) then Inl InvalidPort
             else
               (case index_of (take i host) ''%25'' of
                  Some z \<Rightarrow>
                    bind_sum (unescape EncodeHost (take z host)) (\<lambda>h1.
                    bind_sum (unescape EncodeZone (drop z (take i host))) (\<lambda>h2.
                    bind_sum (unescape EncodeHost (drop i host)) (\<lambda>h3. Inr (h1 @ h2 @ h3))))
                | None \<Rightarrow> unescape EncodeHost host))
      else
        (case last_index host '':'' of
           None \<Rightarrow> unescape EncodeHost host
         | Some i \<Rightarrow> if validOptionalPort (drop i host) then unescape EncodeHost host else Inl InvalidPort))"

definition validUserinfo :: "string \<Rightarrow> bool" where
  "validUserinfo s = list_all (\<lambda>c. is_lower c \<or> is_upper c \<or> is_digit c \<or> c \<in> set ''-._:~!$&()*+,;=%@'' \<or> c = CHR 0x27) s"

definition parseAuthority :: "string \<Rightarrow> url_err + string" where
  "parseAuthority authority =
     (case last_index authority ''@'' of
        None \<Rightarrow> parseHost authority
      | Some i \<Rightarrow>
          bind_sum (parseHost (drop (Suc i) authority)) (\<lambda>host.
            let userinfo = take i authority in
            if \<not> validUserinfo userinfo then Inl InvalidUserinfo
            else
              (case cut CHR '':'' userinfo of
                 (user, None) \<Rightarrow> bind_sum (unescape EncodeUserPassword userinfo) (\<lambda>_. Inr host)
               | (user, Some password) \<Rightarrow>
                   bind_sum (unescape EncodeUserPassword user) (\<lambda>_.
                   bind_sum (unescape EncodeUserPassword password) (\<lambda>_. Inr host)))))"

record url =
  u_Scheme :: string
  u_Opaque :: string
  u_Host :: string
  u_Path :: string
  u_RawPath :: string
  u_RawQuery :: string

definition setPath :: "string \<Rightarrow> url \<Rightarrow> url_err + url" where
  "setPath p u =
     bind_sum (unescape EncodePath p) (\<lambda>path.
       Inr (u\<lparr>u_Path := path, u_RawPath := if p = escape EncodePath path then [] else p\<rparr>))"

definition is_ctl :: "char \<Rightarrow> bool" where
  "is_ctl c \<longleftrightarrow> code c < 32 \<or> code c = 127"

definition empty_url :: url where
  "empty_url = \<lparr>u_Scheme = [], u_Opaque = [], u_Host = [], u_Path = [], u_RawPath = [], u_RawQuery = []\<rparr>"

definition split_query :: "string \<Rightarrow> string \<times> string" where
  "split_query rest =
     (if ends_with rest ''?'' \<and> count_char CHR ''?'' rest = 1 then (butlast rest, [])
      else (fst (cut CHR ''?'' rest), case snd (cut CHR ''?'' rest) of None \<Rightarrow> [] | Some q \<Rightarrow> q))"

definition parse_url :: "string \<Rightarrow> url_err + url" where
  "parse_url raw =
     (if list_ex is_ctl raw then Inl InvalidControl
      else if raw = ''*'' then Inr (empty_url\<lparr>u_Path := ''*''\<rparr>)
      else bind_sum (getScheme raw) (\<lambda>(scheme, rest0).
        let (rest, query) = split_query rest0;
            u = empty_url\<lparr>u_Scheme := to_lower scheme, u_RawQuery := query\<rparr>
        in if \<not> starts_with rest ''/'' \<and> scheme \<noteq> [] then Inr (u\<lparr>u_Opaque := rest\<rparr>)
           else if \<not> starts_with rest ''/'' \<and> CHR '':'' \<in> set (fst (cut CHR ''/'' rest)) then Inl ColonInSegment
           else if (scheme \<noteq> [] \<or> \<not> starts_with rest ''///'') \<and> starts_with rest ''//'' then
             (let a = takeWhile (\<lambda>c. c \<noteq> CHR ''/'') (drop 2 rest);
                  r = dropWhile (\<lambda>c. c \<noteq> CHR ''/'') (drop 2 rest)
              in bind_sum (parseAuthority a) (\<lambda>host. setPath r (u\<lparr>u_Host := host\<rparr>)))
           else setPath rest u))"

text \<open>\<^verbatim>\<open>url.Parse\<close>: the fragment is cut off and only checked.\<close>

definition url_Parse :: "string \<Rightarrow> url_err + url" where
  "url_Parse raw =
     bind_sum (parse_url (fst (cut CHR ''#'' raw))) (\<lambda>u.
       case snd (cut CHR ''#'' raw) of
         None \<Rightarrow> Inr u
       | Some frag \<Rightarrow> bind_sum (unescape EncodeFragment frag) (\<lambda>_. Inr u))"

definition EscapedPath :: "url \<Rightarrow> string" where
  "EscapedPath u =
     (if u_RawPath u \<noteq> [] \<and> validEncoded EncodePath (u_RawPath u) \<and> unescape EncodePath (u_RawPath u) = Inr (u_Path u)
      then u_RawPath u
      else if u_Path u = ''*'' then ''*''
      else escape EncodePath (u_Path u))"

text \<open>
  \<^verbatim>\<open>URL.Query\<close>: the pairs in order.  A part with a semicolon, an empty one, and one whose key or value does
  not unescape are left out.
\<close>

definition query_pair :: "string \<Rightarrow> (string \<times> string) option" where
  "query_pair part =
     (if CHR '';'' \<in> set part \<or> part = [] then None
      else
        let (k, v) = cut CHR ''='' part in
        (case (unescape EncodeQueryComponent k,
               unescape EncodeQueryComponent (case v of None \<Rightarrow> [] | Some w \<Rightarrow> w)) of
           (Inr key, Inr val) \<Rightarrow> Some (key, val)
         | _ \<Rightarrow> None))"

definition url_Query :: "url \<Rightarrow> (string \<times> string) list" where
  "url_Query u = List.map_filter query_pair (split_on CHR ''&'' (u_RawQuery u))"

section \<open>Text that needs no escapes\<close>

lemma unescape_plain:
  assumes "CHR ''%'' \<notin> set s" and "CHR ''+'' \<notin> set s" and "mode \<noteq> EncodeHost" and "mode \<noteq> EncodeZone"
  shows "unescape mode s = Inr s"
  using assms by (induction s) auto

lemma cut_none: "d \<notin> set s \<Longrightarrow> cut d s = (s, None)"
  by (induction s) (auto simp: cut_def)

lemma cut_append: "d \<notin> set s \<Longrightarrow> cut d (s @ d # r) = (s, Some r)"
  by (induction s) (auto simp: cut_def)

lemma query_pair_plain:
  assumes "set k \<inter> set ''%+;=&'' = {}" and "set v \<inter> set ''%+;&'' = {}"
  shows "query_pair (k @ ''='' @ v) = Some (k, v)"
  using assms by (auto simp: query_pair_def cut_append unescape_plain)

end
