(* ===== verification/Gvisor_Forward.thy ===== *)
theory Gvisor_Forward
  imports Datagram Net_IP
begin

text \<open>
  The user-space stack's connections through the tunnel (\<^verbatim>\<open>src/pkg/core/gvisortcpforwarder.go\<close>,
  \<^verbatim>\<open>gvisortcphandler.go\<close>, \<^verbatim>\<open>gvisorudpforwarder.go\<close> and \<^verbatim>\<open>gvisorudphandler.go\<close>): the client writes the proxy
  header and then the data of the application, the server reads the header, dials the destination and copies.
  TCP data is a byte list, UDP data a list of datagrams.  Dialling and creating endpoints are arguments.
\<close>

section \<open>Destinations\<close>

text \<open>\<^verbatim>\<open>tcpip.Address.String\<close> and \<^verbatim>\<open>net.JoinHostPort\<close>.\<close>

definition addr_String :: "byte list \<Rightarrow> string" where
  "addr_String a =
     (if length a = 4 then show_ip4 a else if length a = 16 then show_ip6 a else hex_string a)"

definition JoinHostPort :: "string \<Rightarrow> string \<Rightarrow> string" where
  "JoinHostPort host port =
     (if CHR '':'' \<in> set host \<or> CHR ''%'' \<in> set host then ''['' @ host @ '']:'' @ port
      else host @ '':'' @ port)"

section \<open>TCP\<close>

text \<open>
  The callback of \<^verbatim>\<open>TCPForwarder\<close>: what it writes to the connection it dialled.  Nothing is written when
  the forward address does not parse or the dial fails, and only the header when no endpoint can be made.
\<close>

definition TCPForwarder :: "bool \<Rightarrow> bool \<Rightarrow> bool \<Rightarrow> TransportEndpointID \<Rightarrow> byte list \<Rightarrow> byte list" where
  "TCPForwarder nodeOk dialOk endpointOk eid app =
     (if \<not> nodeOk then [] else if \<not> dialOk then []
      else WriteProxyInfo eid @ (if endpointOk then app else []))"

text \<open>\<^verbatim>\<open>gvisorTCPHandler.Handle\<close>: the address it dials and what it copies there, \<open>None\<close> if it gives up.\<close>

definition gvisor_tcp_Handle :: "(string \<Rightarrow> bool) \<Rightarrow> byte list \<Rightarrow> (string \<times> byte list) option" where
  "gvisor_tcp_Handle dial stream =
     (case ParseProxyInfo stream of
        Ret (eid, rest) \<Rightarrow>
          let addr = JoinHostPort (addr_String (LocalAddress eid)) (show_nat (unat (LocalPort eid))) in
          if dial addr then Some (addr, rest) else None
      | _ \<Rightarrow> None)"

section \<open>UDP\<close>

text \<open>
  \<^verbatim>\<open>gvisorFakeUDPTunnelConn.Write\<close> and \<^verbatim>\<open>Read\<close>, and the \<^verbatim>\<open>io.CopyBuffer\<close> loops of \<^verbatim>\<open>UDPForwarder\<close> over them.  A read
  of no bytes without error is not written.
\<close>

definition gvisor_Write :: "byte list \<Rightarrow> byte list \<Rightarrow> byte list \<times> nat" where
  "gvisor_Write pool b = (datagram_Write pool (newDatagramPacket b), length b)"

definition gvisor_Read :: "byte list \<Rightarrow> byte list \<Rightarrow> (read_err, nat \<times> byte list \<times> byte list) outcome" where
  "gvisor_Read s b =
     map_outcome (\<lambda>(p, b', s'). (unat (DataLength p), b', s')) (readDatagramPacket s b)"

fun copy_to_tunnel :: "byte list \<Rightarrow> byte list list \<Rightarrow> byte list" where
  "copy_to_tunnel pool [] = []"
| "copy_to_tunnel pool (d # ds) =
     (if d = [] then [] else fst (gvisor_Write pool d)) @ copy_to_tunnel pool ds"

lemma readDatagramPacket_shorter:
  "readDatagramPacket s b = Ret (p, b', s') \<Longrightarrow> length s' < length s"
  by (auto simp: readDatagramPacket_def Let_def bind_outcome_Ret_iff ReadFull_Ret split: if_splits)

lemma gvisor_Read_shorter: "gvisor_Read s b = Ret (n, b', s') \<Longrightarrow> length s' < length s"
  using readDatagramPacket_shorter by (fastforce simp: gvisor_Read_def map_outcome_Ret_iff)

text \<open>The reading loop keeps one buffer.  A panic of the reader is \<open>None\<close>.\<close>

function copy_from_tunnel :: "byte list \<Rightarrow> byte list \<Rightarrow> byte list list option" where
  "copy_from_tunnel s b =
     (case gvisor_Read s b of
        Panic \<Rightarrow> None
      | Fail _ \<Rightarrow> Some []
      | Ret (n, b', s') \<Rightarrow>
          map_option (\<lambda>ds. if n = 0 then ds else take n b' # ds) (copy_from_tunnel s' b'))"
  by pat_completeness auto
termination
  by (relation "measure (\<lambda>(s, b). length s)") (auto simp: gvisor_Read_shorter)

declare copy_from_tunnel.simps [simp del]

definition UDPForwarder :: "bool \<Rightarrow> bool \<Rightarrow> bool \<Rightarrow> byte list \<Rightarrow> TransportEndpointID \<Rightarrow> byte list list \<Rightarrow> byte list" where
  "UDPForwarder endpointOk nodeOk dialOk pool eid ds =
     (if \<not> endpointOk then [] else if \<not> nodeOk then [] else if \<not> dialOk then []
      else WriteProxyInfo eid @ copy_to_tunnel pool ds)"

text \<open>
  The two loops of \<^verbatim>\<open>handle\<close>: from the tunnel to the UDP socket, and back.  Both end at the first read
  error and at the first datagram of length zero.
\<close>

function handle_up :: "byte list \<Rightarrow> byte list \<Rightarrow> byte list list option" where
  "handle_up s b =
     (case readDatagramPacket s b of
        Panic \<Rightarrow> None
      | Fail _ \<Rightarrow> Some []
      | Ret (dgram, b', s') \<Rightarrow>
          if DataLength dgram = 0 then Some []
          else map_option (Cons (Data dgram)) (handle_up s' b'))"
  by pat_completeness auto
termination
  by (relation "measure (\<lambda>(s, b). length s)") (auto simp: readDatagramPacket_shorter)

declare handle_up.simps [simp del]

fun handle_down :: "byte list \<Rightarrow> byte list list \<Rightarrow> byte list" where
  "handle_down pool [] = []"
| "handle_down pool (d # ds) =
     (if d = [] then [] else datagram_Write pool (newDatagramPacket d) @ handle_down pool ds)"

text \<open>\<^verbatim>\<open>gvisorUDPHandler.Handle\<close>: the address and port it dials, and the datagrams it sends there.\<close>

definition gvisor_udp_Handle ::
  "(byte list \<times> nat \<Rightarrow> bool) \<Rightarrow> byte list \<Rightarrow> byte list \<Rightarrow> ((byte list \<times> nat) \<times> byte list list) option" where
  "gvisor_udp_Handle dial b stream =
     (case ParseProxyInfo stream of
        Ret (eid, rest) \<Rightarrow>
          let addr = (LocalAddress eid, unat (LocalPort eid)) in
          if dial addr then map_option (Pair addr) (handle_up rest b) else None
      | _ \<Rightarrow> None)"

section \<open>The loops on framed datagrams\<close>

definition fits :: "byte list \<Rightarrow> bool" where
  "fits d \<longleftrightarrow> length d \<le> 65533"

lemma fits_frame:
  assumes "length pool = LargeBufferSize" and "length b = LargeBufferSize" and "fits d"
  shows "\<exists>b'. readDatagramPacket (datagram_Write pool (newDatagramPacket d) @ rest) b =
      Ret (newDatagramPacket d, b', rest) \<and> length b' = LargeBufferSize \<and> take (length d) b' = d"
    and "unat (DataLength (newDatagramPacket d)) = length d"
proof -
  have n: "length d < 65536" "length d \<le> LargeBufferSize" using assms(3) by (simp_all add: fits_def LargeBufferSize_def)
  have w: "datagram_Write pool (newDatagramPacket d) = be_fixed 2 (length d) @ d"
    using assms by (simp add: datagram_Write_eq newDatagramPacket_def LargeBufferSize_def fits_def)
  let ?b = "copy_into (copy_into b (be_fixed 2 (length d))) d"
  have "take (length d) ?b = d" using take_copy_into [of d "copy_into b (be_fixed 2 (length d))"] assms(2) n by simp
  then show "\<exists>b'. readDatagramPacket (datagram_Write pool (newDatagramPacket d) @ rest) b =
      Ret (newDatagramPacket d, b', rest) \<and> length b' = LargeBufferSize \<and> take (length d) b' = d"
    unfolding w using readDatagramPacket_frame [OF assms(2) refl n(1), of rest] assms(2)
    by (auto simp: newDatagramPacket_def)
  show "unat (DataLength (newDatagramPacket d)) = length d"
    using n(1) by (simp add: newDatagramPacket_def header_word)
qed

lemma readDatagramPacket_end: "length b = LargeBufferSize \<Longrightarrow> readDatagramPacket [] b = Fail EOF"
  by (simp add: readDatagramPacket_def ReadFull_def LargeBufferSize_def)

lemma DataLength_zero:
  assumes "fits d"
  shows "DataLength (newDatagramPacket d) = 0 \<longleftrightarrow> d = []"
proof -
  have "DataLength (newDatagramPacket d) = 0 \<longleftrightarrow> unat (DataLength (newDatagramPacket d)) = 0"
    by (simp only: unat_eq_zero)
  also have "unat (DataLength (newDatagramPacket d)) = length d"
    using assms by (simp add: newDatagramPacket_def fits_def header_word)
  finally show ?thesis by simp
qed

lemma handle_up_frames:
  assumes "length pool = LargeBufferSize" and "length b = LargeBufferSize" and "\<forall>d\<in>set ds. fits d"
  shows "handle_up (concat (map (\<lambda>d. datagram_Write pool (newDatagramPacket d)) ds)) b = Some (takeWhile (\<lambda>d. d \<noteq> []) ds)"
  using assms(2,3)
proof (induction ds arbitrary: b)
  case Nil
  then show ?case by (simp add: handle_up.simps [of "[]"] readDatagramPacket_end)
next
  case (Cons d ds)
  let ?s = "concat (map (\<lambda>d. datagram_Write pool (newDatagramPacket d)) (d # ds))"
  obtain b' where r: "readDatagramPacket ?s b =
      Ret (newDatagramPacket d, b', concat (map (\<lambda>d. datagram_Write pool (newDatagramPacket d)) ds))"
    and b': "length b' = LargeBufferSize"
    using fits_frame(1) [OF assms(1) Cons.prems(1), of d] Cons.prems(2) by auto
  show ?case
    unfolding handle_up.simps [of ?s] r using Cons.IH [OF b'] Cons.prems(2)
    by (simp add: DataLength_zero) (simp add: newDatagramPacket_def)
qed

lemma copy_to_tunnel_frames:
  "copy_to_tunnel pool ds = concat (map (\<lambda>d. datagram_Write pool (newDatagramPacket d)) (filter (\<lambda>d. d \<noteq> []) ds))"
  by (induction ds) (simp_all add: gvisor_Write_def)

lemma handle_down_frames:
  "handle_down pool ds = concat (map (\<lambda>d. datagram_Write pool (newDatagramPacket d)) (takeWhile (\<lambda>d. d \<noteq> []) ds))"
  by (induction ds) simp_all

lemma copy_from_tunnel_frames:
  assumes "length pool = LargeBufferSize" and "length b = LargeBufferSize" and "\<forall>d\<in>set ds. fits d"
  shows "copy_from_tunnel (concat (map (\<lambda>d. datagram_Write pool (newDatagramPacket d)) ds)) b = Some (filter (\<lambda>d. d \<noteq> []) ds)"
  using assms(2,3)
proof (induction ds arbitrary: b)
  case Nil
  then show ?case by (simp add: copy_from_tunnel.simps [of "[]"] gvisor_Read_def readDatagramPacket_end)
next
  case (Cons d ds)
  let ?s = "concat (map (\<lambda>d. datagram_Write pool (newDatagramPacket d)) (d # ds))"
  let ?s' = "concat (map (\<lambda>d. datagram_Write pool (newDatagramPacket d)) ds)"
  obtain b' where r: "readDatagramPacket ?s b = Ret (newDatagramPacket d, b', ?s')"
    and b': "length b' = LargeBufferSize" "take (length d) b' = d"
    using fits_frame(1) [OF assms(1) Cons.prems(1), of d] Cons.prems(2) by auto
  have "gvisor_Read ?s b = Ret (length d, b', ?s')"
    unfolding gvisor_Read_def r using fits_frame(2) [OF assms(1) Cons.prems(1), of d] Cons.prems(2) by simp
  then show ?case
    unfolding copy_from_tunnel.simps [of ?s] using Cons.IH [OF b'(1)] Cons.prems(2) b'(2) by simp
qed

section \<open>Properties\<close>

text \<open>C32: a TCP connection of the user-space stack reaches its destination.  What \<^verbatim>\<open>TCPForwarder\<close> puts on the
  tunnel makes the handler of the server dial exactly the address and port the application connected to, and
  copy exactly the bytes of the application; a failure on the client's side dials nothing.\<close>

theorem gvisor_tcp_reaches:
  assumes "endpoint_valid eid"
  shows "gvisor_tcp_Handle dial (TCPForwarder nodeOk dialOk endpointOk eid app) =
    (let addr = JoinHostPort (addr_String (LocalAddress eid)) (show_nat (unat (LocalPort eid))) in
     if nodeOk \<and> dialOk \<and> dial addr then Some (addr, if endpointOk then app else []) else None)"
proof -
  have "\<exists>e. ParseProxyInfo [] = Fail e"
    by (simp add: ParseProxyInfo_def Let_def read_field_def ReadFull_def)
  then show ?thesis
    using ParseProxyInfo_Write [OF assms]
    by (auto simp: gvisor_tcp_Handle_def TCPForwarder_def Let_def)
qed

theorem gvisor_tcp_reaches_witness:
  "gvisor_tcp_Handle (\<lambda>_. True) (TCPForwarder True True True
      \<lparr>LocalPort = 8080, LocalAddress = [10, 96, 0, 1], RemotePort = 40000, RemoteAddress = [223, 254, 0, 102]\<rparr> [1, 2, 3]) =
   Some (''10.96.0.1:8080'', [1, 2, 3])"
proof -
  have "JoinHostPort (addr_String [10, 96, 0, 1]) (show_nat (unat (8080 :: 16 word))) = ''10.96.0.1:8080''" by code_simp
  then show ?thesis
    using gvisor_tcp_reaches [of "\<lparr>LocalPort = 8080, LocalAddress = [10, 96, 0, 1], RemotePort = 40000,
      RemoteAddress = [223, 254, 0, 102]\<rparr>" "\<lambda>_. True" True True True "[1, 2, 3]"]
    by (simp add: endpoint_valid_def)
qed



end
