(* ===== verification/Core_Route.thy ===== *)
theory Core_Route
  imports Go_Url Net_IP Gvisor_Forward
begin

text \<open>
  Nodes, routes and chains (\<^verbatim>\<open>src/pkg/core/node.go\<close>, \<^verbatim>\<open>route.go\<close>, \<^verbatim>\<open>chain.go\<close>), the servers a route stands for, the
  address a sidecar rents before it serves (\<^verbatim>\<open>src/pkg/handler/serve.go\<close>) and the route of the connect command
  (\<^verbatim>\<open>startLocalTunServe\<close> and \<^verbatim>\<open>Parse\<close> of \<^verbatim>\<open>src/pkg/handler/connect.go\<close>).  Dialling, listening and HTTP requests are
  arguments.
\<close>

section \<open>Nodes\<close>

datatype node_err = ErrorInvalidNode | UrlErr url_err

record Node =
  Addr :: string
  Protocol :: string
  Remote :: string
  Values :: "(string \<times> string) list"

definition ParseNode :: "string \<Rightarrow> node_err + Node" where
  "ParseNode s0 =
     (let s = trim_space s0 in
      if s = [] then Inl ErrorInvalidNode
      else case url_Parse s of
        Inl e \<Rightarrow> Inl (UrlErr e)
      | Inr u \<Rightarrow> Inr \<lparr>Addr = u_Host u, Protocol = u_Scheme u, Remote = trim_char CHR ''/'' (EscapedPath u),
                   Values = url_Query u\<rparr>)"

text \<open>\<^verbatim>\<open>Node.Get\<close>: the first value that is not empty, else the first value, else the empty text.\<close>

definition values_of :: "Node \<Rightarrow> string \<Rightarrow> string list" where
  "values_of node key = map snd (filter (\<lambda>(k, v). k = key) (Values node))"

definition node_Get :: "Node \<Rightarrow> string \<Rightarrow> string" where
  "node_Get node key =
     (case find (\<lambda>v. v \<noteq> []) (values_of node key) of
        Some v \<Rightarrow> v
      | None \<Rightarrow> (case values_of node key of [] \<Rightarrow> [] | v # vs \<Rightarrow> v))"

definition node_GetInt :: "Node \<Rightarrow> string \<Rightarrow> int" where
  "node_GetInt node key = fst (atoi (node_Get node key))"

section \<open>Chains\<close>

text \<open>\<^verbatim>\<open>net.SplitHostPort\<close>, \<open>None\<close> for its errors.\<close>

definition SplitHostPort :: "string \<Rightarrow> (string \<times> string) option" where
  "SplitHostPort hp =
     (case last_index hp '':'' of
        None \<Rightarrow> None
      | Some i \<Rightarrow>
          if starts_with hp ''['' then
            (case index_of hp '']'' of
               None \<Rightarrow> None
             | Some e \<Rightarrow>
                 if Suc e \<noteq> i then None
                 else if CHR ''['' \<in> set (drop 1 hp) \<or> CHR '']'' \<in> set (drop (Suc e) hp) then None
                 else Some (drop 1 (take e hp), drop (Suc i) hp))
          else
            let host = take i hp in
            if CHR '':'' \<in> set host then None
            else if CHR ''['' \<in> set hp \<or> CHR '']'' \<in> set hp then None
            else Some (host, drop (Suc i) hp))"

record Chain =
  Retries :: int
  chain_node :: "Node option"

text \<open>The network a chain dials in: each operation changes the world.\<close>

record ('w, 'c) net_ops =
  op_lookup :: "string \<Rightarrow> ip list option"
  op_dial :: "string \<Rightarrow> 'w \<Rightarrow> (string + 'c) \<times> 'w"
  op_connect :: "'c \<Rightarrow> 'w \<Rightarrow> (string + 'c) \<times> 'w"
  op_close :: "'c \<Rightarrow> 'w \<Rightarrow> 'w"

definition NewChain :: "int \<Rightarrow> Node option \<Rightarrow> Chain" where
  "NewChain retry node = \<lparr>Retries = retry, chain_node = node\<rparr>"

definition chain_IsEmpty :: "Chain option \<Rightarrow> bool" where
  "chain_IsEmpty c = (case c of None \<Rightarrow> True | Some ch \<Rightarrow> chain_node ch = None)"

definition chain_resolve :: "('w, 'c) net_ops \<Rightarrow> string \<Rightarrow> string" where
  "chain_resolve ops addr =
     (case SplitHostPort addr of
        Some (host, port) \<Rightarrow>
          (case op_lookup ops host of
             Some (x # xs) \<Rightarrow> JoinHostPort (ip_String x) port
           | _ \<Rightarrow> addr)
      | None \<Rightarrow> addr)"

definition chain_getConn :: "('w, 'c) net_ops \<Rightarrow> Chain \<Rightarrow> 'w \<Rightarrow> (string + 'c) \<times> 'w" where
  "chain_getConn ops c w =
     (case chain_node c of
        None \<Rightarrow> (Inl ''empty chain'', w)
      | Some node \<Rightarrow> op_dial ops (chain_resolve ops (Addr node)) w)"

definition chain_dial :: "('w, 'c) net_ops \<Rightarrow> Chain \<Rightarrow> 'w \<Rightarrow> (string + 'c) \<times> 'w" where
  "chain_dial ops c w =
     (if chain_IsEmpty (Some c) then (Inl ''empty chain'', w)
      else case chain_getConn ops c w of
        (Inl e, w1) \<Rightarrow> (Inl e, w1)
      | (Inr conn, w1) \<Rightarrow>
          (case op_connect ops conn w1 of
             (Inl e, w2) \<Rightarrow> (Inl e, op_close ops conn w2)
           | (Inr cc, w2) \<Rightarrow> (Inr cc, w2)))"

text \<open>The loop of \<^verbatim>\<open>DialContext\<close>: \<open>k\<close> attempts are left.\<close>

fun dial_loop :: "('w \<Rightarrow> ('e + 'c) \<times> 'w) \<Rightarrow> nat \<Rightarrow> 'w \<Rightarrow> ('e + 'c) option \<times> 'w" where
  "dial_loop dial 0 w = (None, w)"
| "dial_loop dial (Suc k) w =
     (case dial w of
        (Inr c, w1) \<Rightarrow> (Some (Inr c), w1)
      | (Inl e, w1) \<Rightarrow> if k = 0 then (Some (Inl e), w1) else dial_loop dial k w1)"

definition attempts :: "int \<Rightarrow> nat" where
  "attempts retries = nat (max 1 retries)"

definition DialContext :: "('w, 'c) net_ops \<Rightarrow> Chain \<Rightarrow> 'w \<Rightarrow> (string + 'c) option \<times> 'w" where
  "DialContext ops c w = dial_loop (chain_dial ops c) (attempts (Retries c)) w"

text \<open>\<^verbatim>\<open>getRemotePacketConn\<close>: \<open>is_packet_conn\<close> is the type test, \<open>listen_packet\<close> the socket without a chain.\<close>

definition getRemotePacketConn ::
  "('w, 'c) net_ops \<Rightarrow> ('c \<Rightarrow> bool) \<Rightarrow> ('w \<Rightarrow> (string + 'c) \<times> 'w) \<Rightarrow> Chain option \<Rightarrow> 'w \<Rightarrow> (string + 'c) option \<times> 'w" where
  "getRemotePacketConn ops is_packet_conn listen_packet chain w =
     (case chain of
        None \<Rightarrow> (case listen_packet w of (r, w1) \<Rightarrow> (Some r, w1))
      | Some c \<Rightarrow>
          if chain_IsEmpty chain then (case listen_packet w of (r, w1) \<Rightarrow> (Some r, w1))
          else (case DialContext ops c w of
                  (Some (Inr cc), w1) \<Rightarrow>
                    if is_packet_conn cc then (Some (Inr cc), w1) else (Some (Inl ''not a packet connection''), w1)
                | r \<Rightarrow> r))"

section \<open>Routes\<close>

record Route =
  ServeNodes :: "string list"
  ChainNode :: string
  route_Retries :: int

definition parseChain :: "Route \<Rightarrow> node_err + Chain" where
  "parseChain r = map_sum id (\<lambda>n. NewChain (route_Retries r) (Some n)) (ParseNode (ChainNode r))"

definition parseIPRoutes :: "string \<Rightarrow> ipnet list" where
  "parseIPRoutes l =
     (if l = [] then []
      else List.map_filter (\<lambda>route. map_option snd (ParseCIDR (trim_space route))) (split_on CHR '','' l))"

record tun_config =
  tc_Name :: string
  tc_Addr :: string
  tc_Addr6 :: string
  tc_MTU :: int
  tc_Routes :: "ipnet list"
  tc_Gateway :: string

datatype listener = TunListener tun_config | TCPListener string | GvisorTCPListener string | GvisorUDPListener string
datatype core_handler = TunHandler "Chain option" Node | TCPHandler | GvisorTCPHandler | GvisorUDPHandler

datatype route_err = NodeErr node_err | ListenErr listener | NotSupport string

definition node_server :: "string \<Rightarrow> Chain option \<Rightarrow> Node \<Rightarrow> route_err + listener \<times> core_handler" where
  "node_server tunIPv6 chain node =
     (if Protocol node = ''tun'' then
        Inr (TunListener \<lparr>tc_Name = node_Get node ''name'', tc_Addr = node_Get node ''net'', tc_Addr6 = tunIPv6,
               tc_MTU = node_GetInt node ''mtu'', tc_Routes = parseIPRoutes (node_Get node ''route''),
               tc_Gateway = node_Get node ''gw''\<rparr>, TunHandler chain node)
      else if Protocol node = ''tcp'' then Inr (TCPListener (Addr node), TCPHandler)
      else if Protocol node = ''gtcp'' then Inr (GvisorTCPListener (Addr node), GvisorTCPHandler)
      else if Protocol node = ''gudp'' then Inr (GvisorUDPListener (Addr node), GvisorUDPHandler)
      else Inl (NotSupport (Protocol node)))"

fun serve_nodes :: "(listener \<Rightarrow> bool) \<Rightarrow> string \<Rightarrow> Chain option \<Rightarrow> string list \<Rightarrow> route_err + (listener \<times> core_handler) list" where
  "serve_nodes listen tunIPv6 chain [] = Inr []"
| "serve_nodes listen tunIPv6 chain (s # ss) =
     (case ParseNode s of
        Inl e \<Rightarrow> Inl (NodeErr e)
      | Inr node \<Rightarrow>
          (case node_server tunIPv6 chain node of
             Inl e \<Rightarrow> Inl e
           | Inr (ln, h) \<Rightarrow>
               if listen ln then map_sum id (Cons (ln, h)) (serve_nodes listen tunIPv6 chain ss)
               else Inl (ListenErr ln)))"

definition GenerateServers :: "(listener \<Rightarrow> bool) \<Rightarrow> string \<Rightarrow> Route \<Rightarrow> route_err + (listener \<times> core_handler) list" where
  "GenerateServers listen tunIPv6 r =
     (case parseChain r of
        Inl (UrlErr e) \<Rightarrow> Inl (NodeErr (UrlErr e))
      | Inl ErrorInvalidNode \<Rightarrow> serve_nodes listen tunIPv6 None (ServeNodes r)
      | Inr c \<Rightarrow> serve_nodes listen tunIPv6 (Some c) (ServeNodes r))"

text \<open>\<^verbatim>\<open>Parse\<close> of the connect command: no server is an error too (\<open>None\<close>).\<close>

definition route_Parse :: "(listener \<Rightarrow> bool) \<Rightarrow> string \<Rightarrow> Route \<Rightarrow> route_err option + (listener \<times> core_handler) list" where
  "route_Parse listen tunIPv6 r =
     (case GenerateServers listen tunIPv6 r of
        Inl e \<Rightarrow> Inl (Some e)
      | Inr servers \<Rightarrow> if servers = [] then Inl None else Inr servers)"

section \<open>The route of the connect command\<close>

definition engine_key :: string where "engine_key = ''transport-engine''"

text \<open>The texts put into the set, in order; the first extra CIDR that does not parse is an error.\<close>

definition tun_routes :: "bool \<Rightarrow> ipnet list \<Rightarrow> string list \<Rightarrow> string + string list" where
  "tun_routes lite cidrs extra =
     (case find (\<lambda>s. ParseCIDR s = None) extra of
        Some s \<Rightarrow> Inl s
      | None \<Rightarrow> Inr ((if lite then [] else [ipnet_String CIDR]) @ map ipnet_String cidrs @ extra))"

definition tun_node :: "string \<Rightarrow> string list \<Rightarrow> string \<Rightarrow> string" where
  "tun_node net routes engine =
     ''tun:/127.0.0.1:8422?net='' @ net @ ''&route='' @ join '','' routes @ ''&'' @ engine_key @ ''='' @ engine"

text \<open>\<open>unsorted\<close> is the order in which the set gives its elements.\<close>

definition startLocalTunServe ::
  "(string list \<Rightarrow> string list) \<Rightarrow> (listener \<Rightarrow> bool) \<Rightarrow> bool \<Rightarrow> ipnet \<Rightarrow> ipnet \<Rightarrow> ipnet list \<Rightarrow> string list \<Rightarrow> string \<Rightarrow>
   string \<Rightarrow> bool \<Rightarrow> (string + route_err option) + (listener \<times> core_handler) list" where
  "startLocalTunServe unsorted listen windows localTunIPv4 localTunIPv6 cidrs extra engine forwardAddress lite =
     (let v4 = (if windows then localTunIPv4\<lparr>net_Mask := CIDRMask 0 32\<rparr> else localTunIPv4) in
      case tun_routes lite cidrs extra of
        Inl s \<Rightarrow> Inl (Inl s)
      | Inr routes \<Rightarrow>
          map_sum Inr id (route_Parse listen (ipnet_String localTunIPv6)
            \<lparr>ServeNodes = [tun_node (ipnet_String v4) (unsorted routes) engine],
             ChainNode = forwardAddress, route_Retries = 5\<rparr>))"

section \<open>Renting an address before serving\<close>

text \<open>
  \<^verbatim>\<open>RentIPIfNeeded\<close>: the environment and the nodes of the route are changed in place, also when it fails
  half way.  \<open>doReq\<close> is the HTTP request with its headers.  \<^verbatim>\<open>os.Setenv\<close> refuses a value with a zero byte;
  \<^verbatim>\<open>ip[0]\<close> is the first byte of the body, which has one when it splits into two parts.
\<close>

datatype rent_err = NoNamespace | RequestFailed string | BadAnswer string | SetenvFailed | RentNode node_err

definition GetTlsDomain :: "string \<Rightarrow> string" where
  "GetTlsDomain namespace = ''kubevpn-traffic-manager.'' @ namespace @ ''.svc''"

definition give_net :: "char \<Rightarrow> Node \<Rightarrow> string \<Rightarrow> string" where
  "give_net b node s = (if Protocol node = ''tun'' \<and> node_Get node ''net'' = [] then s @ ''&net='' @ [b] else s)"

fun add_net :: "char \<Rightarrow> string list \<Rightarrow> rent_err option \<times> string list" where
  "add_net b [] = (None, [])"
| "add_net b (s # ss) =
     (case ParseNode s of
        Inl e \<Rightarrow> (Some (RentNode e), s # ss)
      | Inr node \<Rightarrow>
          (case add_net b ss of
             (err, ss') \<Rightarrow> (err, give_net b node s # ss')))"

definition getenv :: "(string \<rightharpoonup> string) \<Rightarrow> string \<Rightarrow> string" where
  "getenv env k = (case env k of None \<Rightarrow> [] | Some v \<Rightarrow> v)"

definition RentIPIfNeeded ::
  "(string \<Rightarrow> (string \<times> string) list \<Rightarrow> string + string) \<Rightarrow> (string \<rightharpoonup> string) \<Rightarrow> string list \<Rightarrow>
   rent_err option \<times> (string \<rightharpoonup> string) \<times> string list" where
  "RentIPIfNeeded doReq env nodes =
     (if env ''TunIPv4'' \<noteq> Some [] then (None, env, nodes)
      else if getenv env ''POD_NAMESPACE'' = [] then (Some NoNamespace, env, nodes)
      else
        case doReq (''https://'' @ GetTlsDomain (getenv env ''POD_NAMESPACE'') @ '':80/rent/ip'')
            [(''POD_NAME'', getenv env ''POD_NAME''), (''POD_NAMESPACE'', getenv env ''POD_NAMESPACE'')] of
          Inl e \<Rightarrow> (Some (RequestFailed e), env, nodes)
        | Inr body \<Rightarrow>
            (case split_on CHR '','' body of
               [v4, v6] \<Rightarrow>
                 if CHR 0x00 \<in> set v4 then (Some SetenvFailed, env, nodes)
                 else if CHR 0x00 \<in> set v6 then (Some SetenvFailed, env(''TunIPv4'' \<mapsto> v4), nodes)
                 else (case add_net (hd body) nodes of
                         (err, nodes') \<Rightarrow> (err, env(''TunIPv4'' \<mapsto> v4, ''TunIPv6'' \<mapsto> v6), nodes'))
             | _ \<Rightarrow> (Some (BadAnswer body), env, nodes)))"

text \<open>\<^verbatim>\<open>ReleaseIPIfNeeded\<close>: the request it makes.\<close>

definition ReleaseIPIfNeeded ::
  "(string \<Rightarrow> (string \<times> string) list \<Rightarrow> string + string) \<Rightarrow> (string \<rightharpoonup> string) \<Rightarrow> string option" where
  "ReleaseIPIfNeeded doReq env =
     (case doReq (''https://'' @ GetTlsDomain (getenv env ''POD_NAMESPACE'') @ '':80/release/ip'')
        [(''POD_NAME'', getenv env ''POD_NAME''), (''POD_NAMESPACE'', getenv env ''POD_NAMESPACE''),
         (''IPv4'', getenv env ''TunIPv4''), (''IPv6'', getenv env ''TunIPv6'')] of
        Inl e \<Rightarrow> Some e
      | Inr _ \<Rightarrow> None)"

section \<open>Nodes made by the program parse back\<close>

text \<open>Text without the bytes that mean something in a query.\<close>

definition plain :: "string \<Rightarrow> bool" where
  "plain s = list_all (\<lambda>c. c \<notin> set ''%+;&#?'' \<and> \<not> is_ctl c \<and> \<not> is_space c) s"

lemma plain_append [simp]: "plain (s @ t) \<longleftrightarrow> plain s \<and> plain t"
  by (auto simp: plain_def)

lemma plain_join: "\<forall>s\<in>set ss. plain s \<Longrightarrow> plain sep \<Longrightarrow> plain (join sep ss)"
  by (induction sep ss rule: join.induct) (auto simp: plain_def)

lemma plain_notin: "plain s \<Longrightarrow> c \<in> set ''%+;&#?'' \<Longrightarrow> c \<notin> set s"
  by (auto simp: plain_def list_all_iff)

definition query_text :: "(string \<times> string) list \<Rightarrow> string" where
  "query_text kvs = join ''&'' (map (\<lambda>(k, v). k @ ''='' @ v) kvs)"

lemma query_text_pairs:
  assumes "kvs \<noteq> []" and "\<forall>(k, v)\<in>set kvs. plain k \<and> CHR ''='' \<notin> set k \<and> plain v"
  shows "List.map_filter query_pair (split_on CHR ''&'' (query_text kvs)) = kvs"
proof -
  let ?ws = "map (\<lambda>(k, v). k @ ''='' @ v) kvs"
  have kv: "plain k" "plain v" "CHR ''='' \<notin> set k" if "(k, v) \<in> set kvs" for k v
    using assms(2) that by auto
  have "CHR ''&'' \<notin> set k" "CHR ''&'' \<notin> set v" if "(k, v) \<in> set kvs" for k v
    using kv [OF that] by (auto simp: plain_def list_all_iff)
  then have w: "\<forall>w\<in>set ?ws. CHR ''&'' \<notin> set w" by fastforce
  then have s: "split_on CHR ''&'' (query_text kvs) = ?ws"
    unfolding query_text_def using assms(1) split_on_join [of ?ws "CHR ''&''"] by simp
  have "query_pair (k @ ''='' @ v) = Some (k, v)" if "(k, v) \<in> set kvs" for k v
  proof (rule query_pair_plain)
    show "set k \<inter> set ''%+;=&'' = {}" "set v \<inter> set ''%+;&'' = {}"
      using kv [OF that] by (auto simp: plain_def list_all_iff)
  qed
  then show ?thesis unfolding s by (induction kvs) auto
qed


lemma trim_space_id: "\<forall>c\<in>set s. \<not> is_space c \<Longrightarrow> trim_space s = s"
proof -
  assume a: "\<forall>c\<in>set s. \<not> is_space c"
  have d: "dropWhile is_space t = t" if "\<forall>c\<in>set t. \<not> is_space c" for t using that by (cases t) auto
  show ?thesis using d [OF a] d [of "rev s"] a by (simp add: trim_space_def)
qed

text \<open>The front of a tunnel node is fixed text; only its query varies.\<close>

definition query_char :: "char \<Rightarrow> bool" where
  "query_char c \<longleftrightarrow> c \<noteq> CHR ''#'' \<and> c \<noteq> CHR ''?'' \<and> \<not> is_ctl c \<and> \<not> is_space c"

definition query_chars :: "string \<Rightarrow> bool" where
  "query_chars q \<longleftrightarrow> q \<noteq> [] \<and> (\<forall>c\<in>set q. query_char c)"

lemma plain_query_char: "plain s \<Longrightarrow> \<forall>c\<in>set s. query_char c"
  by (auto simp: plain_def list_all_iff query_char_def)

lemma split_query_tun:
  assumes "query_chars q"
  shows "split_query (''/127.0.0.1:8422?'' @ q) = (''/127.0.0.1:8422'', q)"
proof -
  let ?r = "''/127.0.0.1:8422?'' @ q"
  have q: "q \<noteq> []" "CHR ''?'' \<notin> set q" using assms by (auto simp: query_chars_def query_char_def)
  have "\<not> ends_with ?r ''?''"
  proof
    assume "ends_with ?r ''?''"
    then obtain t where "?r = t @ ''?''" by (auto simp: ends_with_iff)
    then have "last ?r = CHR ''?''" by simp
    with q(1) have "last q = CHR ''?''" by simp
    with q show False using last_in_set by metis
  qed
  moreover have "cut CHR ''?'' (''/127.0.0.1:8422'' @ CHR ''?'' # q) = (''/127.0.0.1:8422'', Some q)"
    by (rule cut_append) simp
  ultimately show ?thesis by (simp add: split_query_def)
qed

lemma ParseNode_tun:
  assumes "query_chars q"
  shows "ParseNode (''tun:/127.0.0.1:8422?'' @ q) =
    Inr \<lparr>Addr = [], Protocol = ''tun'', Remote = ''127.0.0.1:8422'',
      Values = List.map_filter query_pair (split_on CHR ''&'' q)\<rparr>"
proof -
  let ?s = "''tun:/127.0.0.1:8422?'' @ q"
  have sp: "\<forall>c\<in>set ''tun:/127.0.0.1:8422?''. \<not> is_space c \<and> \<not> is_ctl c \<and> c \<noteq> CHR ''#''" by code_simp
  have t: "trim_space ?s = ?s"
    by (rule trim_space_id) (use assms sp in \<open>auto simp: query_chars_def query_char_def\<close>)
  have c: "cut CHR ''#'' ?s = (?s, None)"
    by (rule cut_none) (use assms in \<open>auto simp: query_chars_def query_char_def\<close>)
  have l: "\<not> list_ex is_ctl ?s" using assms sp by (auto simp: query_chars_def query_char_def list_ex_iff)
  have g: "getScheme ?s = Inr (''tun'', ''/127.0.0.1:8422?'' @ q)"
    by (simp add: getScheme_def is_lower_def is_upper_def is_digit_def code_def)
  have "to_lower ''tun'' = ''tun''" by code_simp
  moreover have "setPath ''/127.0.0.1:8422'' (empty_url\<lparr>u_Scheme := ''tun'', u_RawQuery := q\<rparr>) =
      Inr (empty_url\<lparr>u_Scheme := ''tun'', u_RawQuery := q, u_Path := ''/127.0.0.1:8422''\<rparr>)"
  proof -
    have "unescape EncodePath ''/127.0.0.1:8422'' = Inr ''/127.0.0.1:8422''"
      "escape EncodePath ''/127.0.0.1:8422'' = ''/127.0.0.1:8422''" by code_simp+
    then show ?thesis by (simp add: setPath_def bind_sum_def empty_url_def)
  qed
  ultimately have "parse_url ?s = Inr (empty_url\<lparr>u_Scheme := ''tun'', u_RawQuery := q, u_Path := ''/127.0.0.1:8422''\<rparr>)"
    unfolding parse_url_def g using l split_query_tun [OF assms] by (simp add: bind_sum_def Let_def)
  then have u: "url_Parse ?s = Inr (empty_url\<lparr>u_Scheme := ''tun'', u_RawQuery := q, u_Path := ''/127.0.0.1:8422''\<rparr>)"
    unfolding url_Parse_def c by (simp add: bind_sum_def)
  have e: "EscapedPath (empty_url\<lparr>u_Scheme := ''tun'', u_RawQuery := q, u_Path := ''/127.0.0.1:8422''\<rparr>) = ''/127.0.0.1:8422''"
  proof -
    have "escape EncodePath ''/127.0.0.1:8422'' = ''/127.0.0.1:8422''" by code_simp
    then show ?thesis by (simp add: EscapedPath_def empty_url_def)
  qed
  have r: "trim_char CHR ''/'' ''/127.0.0.1:8422'' = ''127.0.0.1:8422''" by code_simp
  have ne: "?s \<noteq> []" by simp
  show ?thesis
    unfolding ParseNode_def Let_def t u using ne by (simp add: e r url_Query_def) (simp add: empty_url_def)
qed

lemma set_map_filter: "set (List.map_filter f xs) = {y. \<exists>x\<in>set xs. f x = Some y}"
  by (induction xs) (auto split: option.splits)

lemma parseIPRoutes_join:
  assumes "\<forall>r\<in>set rs. plain r \<and> CHR '','' \<notin> set r"
  shows "parseIPRoutes (join '','' rs) = List.map_filter (\<lambda>r. map_option snd (ParseCIDR r)) rs"
proof (cases "rs = []")
  case False
  have "\<forall>r\<in>set rs. trim_space r = r"
    using assms trim_space_id by (auto simp: plain_def list_all_iff)
  then have m: "List.map_filter (\<lambda>r. map_option snd (ParseCIDR (trim_space r))) rs =
      List.map_filter (\<lambda>r. map_option snd (ParseCIDR r)) rs"
    by (induction rs) (auto split: option.splits)
  have s: "split_on CHR '','' (join '','' rs) = rs" using split_on_join [OF False] assms by simp
  show ?thesis
  proof (cases "join '','' rs = []")
    case True
    with s have "rs = [[]]" by simp
    moreover have "ParseCIDR [] = None" by code_simp
    ultimately show ?thesis by (simp add: parseIPRoutes_def)
  next
    case False
    then show ?thesis by (simp add: parseIPRoutes_def s m)
  qed
qed (simp add: parseIPRoutes_def)

lemma tun_node_query:
  "tun_node net routes engine =
     ''tun:/127.0.0.1:8422?'' @ query_text [(''net'', net), (''route'', join '','' routes), (engine_key, engine)]"
  by (simp add: tun_node_def query_text_def)

lemma ParseNode_tun_node:
  assumes "plain net" and "\<forall>r\<in>set routes. plain r" and "plain engine"
  shows "ParseNode (tun_node net routes engine) =
    Inr \<lparr>Addr = [], Protocol = ''tun'', Remote = ''127.0.0.1:8422'',
      Values = [(''net'', net), (''route'', join '','' routes), (engine_key, engine)]\<rparr>"
proof -
  let ?kvs = "[(''net'', net), (''route'', join '','' routes), (engine_key, engine)]"
  have p: "plain (join '','' routes)" by (rule plain_join [OF assms(2)]) code_simp
  have k: "plain ''net''" "plain ''route''" "plain engine_key" "CHR ''='' \<notin> set engine_key" by code_simp+
  have "query_chars (query_text ?kvs)"
  proof -
    have "query_char CHR ''=''" "query_char CHR ''&''" by code_simp+
    then show ?thesis
      using assms(1,3) p k(1-3) [THEN plain_query_char]
      by (simp add: query_chars_def query_text_def plain_query_char ball_Un)
  qed
  moreover have "List.map_filter query_pair (split_on CHR ''&'' (query_text ?kvs)) = ?kvs"
    by (rule query_text_pairs) (use assms p k in auto)
  ultimately show ?thesis unfolding tun_node_query by (simp only: ParseNode_tun)
qed

section \<open>Properties\<close>

text \<open>C34: what the connect command asks for is what the tunnel gets.  For addresses, routes and engine written
  with ordinary CIDR characters, the node text of \<^verbatim>\<open>startLocalTunServe\<close> is parsed back by the route parser into
  one tunnel listener with the client's own address and exactly the networks of the routes in the set, whatever
  the order in which the set yields them, and a handler that tunnels to the local forward with the engine
  chosen; an extra CIDR that does not parse is refused.\<close>

theorem startLocalTunServe_node:
  assumes "set (unsorted routes) = set routes" and "\<forall>r\<in>set routes. plain r \<and> CHR '','' \<notin> set r"
    and "tun_routes lite cidrs extra = Inr routes"
    and "plain (ipnet_String v4)" and "plain engine" and "ParseNode fwd = Inr n" and "listen = (\<lambda>_. True)"
  shows "\<exists>node cfg. startLocalTunServe unsorted listen False v4 v6 cidrs extra engine fwd lite =
      Inr [(TunListener cfg, TunHandler (Some (NewChain 5 (Some n))) node)]
    \<and> tc_Addr cfg = ipnet_String v4 \<and> tc_Addr6 cfg = ipnet_String v6
    \<and> set (tc_Routes cfg) = {snd c |c r. r \<in> set routes \<and> ParseCIDR r = Some c}
    \<and> Remote node = ''127.0.0.1:8422'' \<and> node_Get node engine_key = engine
    \<and> (\<forall>s\<in>set extra. ParseCIDR s \<noteq> None)"
proof -
  let ?rs = "unsorted routes"
  let ?node = "\<lparr>Addr = [], Protocol = ''tun'', Remote = ''127.0.0.1:8422'',
      Values = [(''net'', ipnet_String v4), (''route'', join '','' ?rs), (engine_key, engine)]\<rparr>"
  have rs: "\<forall>r\<in>set ?rs. plain r \<and> CHR '','' \<notin> set r" using assms(1,2) by simp
  have node: "ParseNode (tun_node (ipnet_String v4) ?rs engine) = Inr ?node"
    using ParseNode_tun_node [OF assms(4) _ assms(5)] rs by simp
  have ne: "''net'' \<noteq> engine_key" "''route'' \<noteq> engine_key" "engine_key \<noteq> ''name''" "engine_key \<noteq> ''mtu''" "engine_key \<noteq> ''gw''"
    by (simp_all add: engine_key_def)
  have g: "node_Get ?node ''net'' = ipnet_String v4" "node_Get ?node ''route'' = join '','' ?rs"
    "node_Get ?node engine_key = engine"
    using ne by (simp_all add: node_Get_def values_of_def)
  have "startLocalTunServe unsorted listen False v4 v6 cidrs extra engine fwd lite =
      Inr [(TunListener \<lparr>tc_Name = node_Get ?node ''name'', tc_Addr = ipnet_String v4, tc_Addr6 = ipnet_String v6,
        tc_MTU = node_GetInt ?node ''mtu'', tc_Routes = parseIPRoutes (join '','' ?rs), tc_Gateway = node_Get ?node ''gw''\<rparr>,
        TunHandler (Some (NewChain 5 (Some n))) ?node)]"
    using assms(3,6,7) node g
    by (simp add: startLocalTunServe_def route_Parse_def GenerateServers_def parseChain_def node_server_def)
  moreover have "set (parseIPRoutes (join '','' ?rs)) = {snd c |c r. r \<in> set routes \<and> ParseCIDR r = Some c}"
    unfolding parseIPRoutes_join [OF rs] set_map_filter assms(1) by auto
  moreover have "\<forall>s\<in>set extra. ParseCIDR s \<noteq> None"
    using assms(3) by (auto simp: tun_routes_def find_None_iff split: option.splits)
  ultimately show ?thesis using g by fastforce
qed

theorem startLocalTunServe_node_witness:
  "\<exists>node cfg. startLocalTunServe rev (\<lambda>_. True) False \<lparr>net_IP = IPv4 223 254 0 102, net_Mask = [255, 255, 0, 0]\<rparr>
      \<lparr>net_IP = RouterIP6[15 := 0x9a], net_Mask = net_Mask CIDR6\<rparr> [] [''10.96.0.0/12''] ''mix'' ''tcp://127.0.0.1:10800'' False =
    Inr [(TunListener cfg, TunHandler (Some (NewChain 5 (Some
      \<lparr>Addr = ''127.0.0.1:10800'', Protocol = ''tcp'', Remote = [], Values = []\<rparr>))) node)]
    \<and> tc_Addr cfg = ''223.254.0.102/16'' \<and> node_Get node engine_key = ''mix''"
proof -
  let ?v4 = "\<lparr>net_IP = IPv4 223 254 0 102, net_Mask = [255, 255, 0, 0]\<rparr>"
  have "tun_routes False [] [''10.96.0.0/12''] = Inr [''223.254.0.0/16'', ''10.96.0.0/12'']" by code_simp
  moreover have "\<forall>r\<in>set [''223.254.0.0/16'', ''10.96.0.0/12'']. plain r \<and> CHR '','' \<notin> set r" by code_simp
  moreover have v: "ipnet_String ?v4 = ''223.254.0.102/16''" by code_simp
  moreover have "plain ''223.254.0.102/16''" "plain ''mix''" by code_simp+
  moreover have "ParseNode ''tcp://127.0.0.1:10800'' =
      Inr \<lparr>Addr = ''127.0.0.1:10800'', Protocol = ''tcp'', Remote = [], Values = []\<rparr>" by code_simp
  ultimately show ?thesis
    using startLocalTunServe_node [of rev "[''223.254.0.0/16'', ''10.96.0.0/12'']" False "[]" "[''10.96.0.0/12'']" ?v4 "''mix''"
        "''tcp://127.0.0.1:10800''" "\<lparr>Addr = ''127.0.0.1:10800'', Protocol = ''tcp'', Remote = [], Values = []\<rparr>" "\<lambda>_. True"
        "\<lparr>net_IP = RouterIP6[15 := 0x9a], net_Mask = net_Mask CIDR6\<rparr>"]
    by fastforce
qed

lemma add_net_all:
  "add_net b nodes = (None, nodes') \<Longrightarrow>
    list_all2 (\<lambda>s s'. \<exists>node. ParseNode s = Inr node \<and> s' = give_net b node s) nodes nodes'"
  by (induction nodes arbitrary: nodes') (auto split: sum.splits prod.splits)

text \<open>A sidecar never passes on the address it rented.  When \<^verbatim>\<open>RentIPIfNeeded\<close> succeeds, the environment holds
  the two rented addresses, but each tunnel node without an address has been given only the first byte of the answer
  as its \<^verbatim>\<open>net\<close> parameter, which is never a CIDR; the other nodes are as they were.\<close>

theorem RentIPIfNeeded_net_byte:
  assumes "RentIPIfNeeded doReq env nodes = (None, env', nodes')" and "env ''TunIPv4'' = Some []"
  shows "\<exists>b v4 v6. env' = env(''TunIPv4'' \<mapsto> v4, ''TunIPv6'' \<mapsto> v6) \<and> ParseCIDR [b] = None
    \<and> list_all2 (\<lambda>s s'. \<exists>node. ParseNode s = Inr node \<and>
        s' = (if Protocol node = ''tun'' \<and> node_Get node ''net'' = [] then s @ ''&net='' @ [b] else s)) nodes nodes'"
proof -
  have one: "ParseCIDR [b] = None" for b :: char
  proof (cases "b = CHR ''/''")
    case True
    have "ParseCIDR ''/'' = None" by code_simp
    then show ?thesis by (simp add: True)
  qed (simp add: ParseCIDR_def)
  obtain body v4 v6 where "add_net (hd body) nodes = (None, nodes')"
    and e: "env' = env(''TunIPv4'' \<mapsto> v4, ''TunIPv6'' \<mapsto> v6)"
    using assms by (auto simp: RentIPIfNeeded_def split: sum.splits list.splits if_splits prod.splits)
  then have "list_all2 (\<lambda>s s'. \<exists>node. ParseNode s = Inr node \<and> s' = give_net (hd body) node s) nodes nodes'"
    by (blast intro: add_net_all)
  with e one show ?thesis unfolding give_net_def by blast
qed

theorem RentIPIfNeeded_net_byte_witness:
  "\<exists>env'. RentIPIfNeeded (\<lambda>_ _. Inr ''223.254.0.103/16,efff::1/64'') [''TunIPv4'' \<mapsto> [], ''POD_NAMESPACE'' \<mapsto> ''default'']
      [''tun:/10.0.0.5:8422?route=223.254.0.0/16''] = (None, env', [''tun:/10.0.0.5:8422?route=223.254.0.0/16&net=2''])
    \<and> env' ''TunIPv4'' = Some ''223.254.0.103/16''"
proof -
  let ?env = "[''TunIPv4'' \<mapsto> [], ''POD_NAMESPACE'' \<mapsto> ''default'']"
  let ?env' = "?env(''TunIPv4'' \<mapsto> ''223.254.0.103/16'', ''TunIPv6'' \<mapsto> ''efff::1/64'')"
  have p: "split_on CHR '','' ''223.254.0.103/16,efff::1/64'' = [''223.254.0.103/16'', ''efff::1/64'']"
    "add_net CHR ''2'' [''tun:/10.0.0.5:8422?route=223.254.0.0/16''] = (None, [''tun:/10.0.0.5:8422?route=223.254.0.0/16&net=2''])"
    by code_simp+
  have "RentIPIfNeeded (\<lambda>_ _. Inr ''223.254.0.103/16,efff::1/64'') ?env [''tun:/10.0.0.5:8422?route=223.254.0.0/16''] =
      (None, ?env', [''tun:/10.0.0.5:8422?route=223.254.0.0/16&net=2''])"
    using p by (simp add: RentIPIfNeeded_def getenv_def)
  with RentIPIfNeeded_net_byte [OF this] show ?thesis by auto
qed

lemma dial_loop_attempts:
  fixes d :: "'w \<Rightarrow> ('e + 'c) \<times> 'w"
  assumes "0 < n"
  shows "\<exists>k<n. dial_loop d n w = (Some (fst (d (((\<lambda>w. snd (d w)) ^^ k) w))), ((\<lambda>w. snd (d w)) ^^ Suc k) w)
      \<and> (\<forall>j<k. isl (fst (d (((\<lambda>w. snd (d w)) ^^ j) w)))) \<and> (isl (fst (d (((\<lambda>w. snd (d w)) ^^ k) w))) \<longrightarrow> Suc k = n)"
  using assms
proof (induction n arbitrary: w)
  case (Suc n)
  obtain r w1 where dw: "d w = (r, w1)" by fastforce
  show ?case
  proof (cases "isl r \<and> 0 < n")
    case True
    then obtain e where "r = Inl e" by (auto simp: isl_def)
    let ?W = "\<lambda>j. ((\<lambda>w. snd (d w)) ^^ j) w1"
    have W: "((\<lambda>w. snd (d w)) ^^ Suc j) w = ?W j" for j
      using dw by (simp add: funpow_Suc_right del: funpow.simps)
    obtain k where k: "k < n" "dial_loop d n w1 = (Some (fst (d (?W k))), ?W (Suc k))"
      "\<forall>j<k. isl (fst (d (?W j)))" "isl (fst (d (?W k))) \<longrightarrow> Suc k = n"
      using Suc.IH [of w1] True by auto
    have step: "dial_loop d (Suc n) w = dial_loop d n w1" using dw True \<open>r = Inl e\<close> by simp
    show ?thesis
    proof (intro exI [of _ "Suc k"] conjI)
      show "Suc k < Suc n" using k(1) by simp
      show "dial_loop d (Suc n) w =
          (Some (fst (d (((\<lambda>w. snd (d w)) ^^ Suc k) w))), ((\<lambda>w. snd (d w)) ^^ Suc (Suc k)) w)"
        unfolding W step k(2) ..
      show "\<forall>j<Suc k. isl (fst (d (((\<lambda>w. snd (d w)) ^^ j) w)))"
        using k(3) W dw True by (auto simp: less_Suc_eq_0_disj)
      show "isl (fst (d (((\<lambda>w. snd (d w)) ^^ Suc k) w))) \<longrightarrow> Suc (Suc k) = Suc n"
        unfolding W using k(4) by simp
    qed
  next
    case False
    then show ?thesis using dw by (intro exI [of _ 0]) (auto split: sum.splits simp: isl_def)
  qed
qed simp

text \<open>\<^verbatim>\<open>DialContext\<close> dials at least once and at most as often as the chain allows; it returns the result of
  its last attempt, all attempts before it failed, and it fails only when it has used all of them.\<close>

theorem DialContext_attempts:
  "\<exists>k<attempts (Retries c). let W = (\<lambda>j. ((\<lambda>w. snd (chain_dial ops c w)) ^^ j) w) in
     DialContext ops c w = (Some (fst (chain_dial ops c (W k))), W (Suc k))
   \<and> (\<forall>j<k. isl (fst (chain_dial ops c (W j))))
   \<and> (isl (fst (chain_dial ops c (W k))) \<longrightarrow> Suc k = attempts (Retries c))"
proof -
  have "0 < attempts (Retries c)" by (simp add: attempts_def)
  from dial_loop_attempts [OF this, of "chain_dial ops c" w] show ?thesis by (simp add: DialContext_def Let_def)
qed

definition example_ops :: "(nat, nat) net_ops" where
  "example_ops = \<lparr>op_lookup = (\<lambda>_. None), op_dial = (\<lambda>_ n. (if n < 2 then Inl ''refused'' else Inr 7, Suc n)),
     op_connect = (\<lambda>c n. (Inr c, n)), op_close = (\<lambda>_ n. n)\<rparr>"

definition example_chain :: Chain where
  "example_chain = NewChain 5 (Some \<lparr>Addr = ''a:1'', Protocol = [], Remote = [], Values = []\<rparr>)"

theorem DialContext_attempts_witness:
  "\<exists>k<5. DialContext example_ops example_chain 0 = (Some (Inr 7), Suc k) \<and> k = 2"
proof -
  have d: "chain_dial example_ops example_chain n = (if n < 2 then Inl ''refused'' else Inr 7, Suc n)" for n
    by (simp add: example_ops_def example_chain_def chain_dial_def chain_getConn_def chain_IsEmpty_def NewChain_def)
  have W: "((\<lambda>w. snd (chain_dial example_ops example_chain w)) ^^ j) n = n + j" for j n
    by (induction j) (simp_all add: d)
  have a: "attempts (Retries example_chain) = 5" by (simp add: attempts_def NewChain_def example_chain_def)
  obtain k where k: "k < 5" "DialContext example_ops example_chain 0 = (Some (fst (chain_dial example_ops example_chain k)), Suc k)"
    "\<forall>j<k. isl (fst (chain_dial example_ops example_chain j))"
    "isl (fst (chain_dial example_ops example_chain k)) \<longrightarrow> Suc k = 5"
    using DialContext_attempts [of example_chain example_ops 0] unfolding a Let_def W by auto
  have "k = 2"
  proof (rule ccontr)
    assume "k \<noteq> 2"
    then consider "k < 2" | "2 < k" by linarith
    then show False using k(3,4) d [of k] d [of 2] by cases auto
  qed
  with k d [of 2] show ?thesis by auto
qed

end
