(* ===== verification/IP_Allocator.thy ===== *)
theory IP_Allocator
  imports Net_IP
begin

text \<open>
  The IP allocator the DHCP component is built on, vendored under
  \<^verbatim>\<open>src/vendor/github.com/cilium/ipam/service\<close>: the bitmap \<^verbatim>\<open>allocator.AllocationBitmap\<close> with the
  contiguous scan strategy, and \<^verbatim>\<open>ipallocator.Range\<close>, which maps the offsets of the bitmap to addresses.

  The locale \<open>slot_allocator\<close> is the interface \<^verbatim>\<open>allocator.Interface\<close> as its clients use it, and
  \<open>address_pool\<close> adds the numbering of addresses; the bitmap and the range interpret them.
\<close>

section \<open>Interfaces\<close>

locale slot_allocator =
  fixes next_slot :: "'s \<Rightarrow> (nat \<times> 's) option"
    and release_slot :: "nat \<Rightarrow> 's \<Rightarrow> 's"
    and used :: "'s \<Rightarrow> nat set"
    and capacity :: "'s \<Rightarrow> nat"
    and ok :: "'s \<Rightarrow> bool"
  assumes used_bound: "ok s \<Longrightarrow> used s \<subseteq> {..<capacity s}"
    and next_None: "ok s \<Longrightarrow> next_slot s = None \<Longrightarrow> used s = {..<capacity s}"
    and next_Some: "ok s \<Longrightarrow> next_slot s = Some (k, s') \<Longrightarrow>
      k < capacity s \<and> k \<notin> used s \<and> used s' = insert k (used s) \<and> capacity s' = capacity s \<and> ok s'"
    and release_ok: "ok s \<Longrightarrow>
      used (release_slot k s) = used s - {k} \<and> capacity (release_slot k s) = capacity s
      \<and> ok (release_slot k s)"

text \<open>Allocating several slots in a row, as a client does; \<open>None\<close> once the allocator is full.\<close>

primrec take_slots :: "('s \<Rightarrow> (nat \<times> 's) option) \<Rightarrow> nat \<Rightarrow> 's \<Rightarrow> (nat list \<times> 's) option" where
  "take_slots nx 0 s = Some ([], s)"
| "take_slots nx (Suc n) s =
     (case nx s of
        None \<Rightarrow> None
      | Some (k, s') \<Rightarrow> map_option (\<lambda>(ks, t). (k # ks, t)) (take_slots nx n s'))"

context slot_allocator
begin

lemma finite_used: "ok s \<Longrightarrow> finite (used s)"
  using used_bound finite_subset by blast

lemma next_progress: "ok s \<Longrightarrow> card (used s) < capacity s \<Longrightarrow> \<exists>k s'. next_slot s = Some (k, s')"
  using next_None by (cases "next_slot s") force+

lemma next_fills: "ok s \<Longrightarrow> next_slot s = Some (k, s') \<Longrightarrow> card (used s') = Suc (card (used s))"
  using next_Some finite_used by fastforce

lemma release_undoes_next:
  "ok s \<Longrightarrow> next_slot s = Some (k, s') \<Longrightarrow> used (release_slot k s') = used s"
  using next_Some release_ok by fastforce

lemma take_slots_spec:
  "ok s \<Longrightarrow> take_slots next_slot n s = Some (ks, t) \<Longrightarrow>
   distinct ks \<and> length ks = n \<and> set ks \<inter> used s = {} \<and> set ks \<subseteq> {..<capacity s}
   \<and> used t = used s \<union> set ks \<and> capacity t = capacity s \<and> ok t"
proof (induction n arbitrary: s ks)
  case 0
  then show ?case by simp
next
  case (Suc n)
  from Suc.prems(2) obtain k s' js where nx: "next_slot s = Some (k, s')"
    and rest: "take_slots next_slot n s' = Some (js, t)" and ks: "ks = k # js"
    by (auto split: option.splits)
  from next_Some [OF Suc.prems(1) nx] have k: "k < capacity s" "k \<notin> used s"
    "used s' = insert k (used s)" "capacity s' = capacity s" "ok s'"
    by auto
  from Suc.IH [OF k(5) rest] k ks show ?case by auto
qed

lemma take_slots_enough:
  "ok s \<Longrightarrow> card (used s) + n \<le> capacity s \<Longrightarrow> \<exists>ks t. take_slots next_slot n s = Some (ks, t)"
proof (induction n arbitrary: s)
  case 0
  then show ?case by simp
next
  case (Suc n)
  then obtain k s' where nx: "next_slot s = Some (k, s')"
    using next_progress [of s] by auto
  with Suc.prems have "ok s'" "card (used s') + n \<le> capacity s'"
    using next_Some [of s k s'] next_fills [of s k s'] by auto
  from Suc.IH [OF this] nx show ?case by auto
qed

end

locale address_pool = slot_allocator next_slot release_slot used capacity ok
  for next_slot :: "'s \<Rightarrow> (nat \<times> 's) option" and release_slot :: "nat \<Rightarrow> 's \<Rightarrow> 's"
    and used :: "'s \<Rightarrow> nat set" and capacity :: "'s \<Rightarrow> nat" and ok :: "'s \<Rightarrow> bool" +
  fixes addr :: "'s \<Rightarrow> nat \<Rightarrow> 'a"
  assumes addr_inj: "ok s \<Longrightarrow> j < capacity s \<Longrightarrow> k < capacity s \<Longrightarrow> addr s j = addr s k \<Longrightarrow> j = k"
    and addr_next: "next_slot s = Some (k, s') \<Longrightarrow> addr s' = addr s"
    and addr_release: "addr (release_slot k s) = addr s"
begin

text \<open>Addresses handed out one after the other are distinct and were free.\<close>

lemma take_addrs_distinct:
  assumes "ok s" and "take_slots next_slot n s = Some (ks, t)"
  shows "distinct (map (addr s) ks) \<and> addr s ` set ks \<inter> addr s ` used s = {}"
proof -
  from take_slots_spec [OF assms] have d: "distinct ks" "set ks \<inter> used s = {}"
    "set ks \<subseteq> {..<capacity s}"
    by auto
  from used_bound [OF assms(1)] have u: "used s \<subseteq> {..<capacity s}" .
  have inj: "inj_on (addr s) {..<capacity s}"
    using addr_inj [OF assms(1)] by (auto intro!: inj_onI)
  from d inj have "distinct (map (addr s) ks)"
    by (auto simp: distinct_map inj_on_subset)
  moreover have "addr s ` set ks \<inter> addr s ` used s = addr s ` (set ks \<inter> used s)"
    using inj_on_image_Int [OF inj d(3) u] by simp
  ultimately show ?thesis using d(2) by simp
qed

lemma next_addr_fresh:
  assumes "ok s" and "next_slot s = Some (k, s')"
  shows "addr s k \<notin> addr s ` used s"
  using assms next_Some [OF assms] used_bound [OF assms(1)] addr_inj [OF assms(1)] by blast

end

section \<open>The allocation bitmap\<close>

record bitmap =
  bm_max :: int
  bm_rangeSpec :: string
  bm_count :: int
  bm_allocated :: nat

definition NewContiguousAllocationMap :: "int \<Rightarrow> string \<Rightarrow> bitmap" where
  "NewContiguousAllocationMap mx rangeSpec =
     \<lparr>bm_max = mx, bm_rangeSpec = rangeSpec, bm_count = 0, bm_allocated = 0\<rparr>"

text \<open>\<open>contiguousScanStrategy.AllocateBit\<close>: the first offset whose bit is zero.\<close>

function first_zero :: "nat \<Rightarrow> nat \<Rightarrow> nat \<Rightarrow> nat option" where
  "first_zero alloc i mx =
     (if i < mx then if \<not> bit alloc i then Some i else first_zero alloc (Suc i) mx else None)"
  by pat_completeness auto
termination
  by (relation "measure (\<lambda>(alloc, i, mx). mx - i)") auto

declare first_zero.simps [simp del]

definition AllocateBit :: "nat \<Rightarrow> int \<Rightarrow> int \<Rightarrow> nat option" where
  "AllocateBit alloc mx count = (if count \<ge> mx then None else first_zero alloc 0 (nat mx))"

definition bm_Allocate :: "nat \<Rightarrow> bitmap \<Rightarrow> bool \<times> bitmap" where
  "bm_Allocate offset r =
     (if bit (bm_allocated r) offset then (False, r)
      else (True, r\<lparr>bm_allocated := set_bit offset (bm_allocated r), bm_count := bm_count r + 1\<rparr>))"

definition bm_AllocateNext :: "bitmap \<Rightarrow> (nat \<times> bitmap) option" where
  "bm_AllocateNext r =
     (case AllocateBit (bm_allocated r) (bm_max r) (bm_count r) of
        None \<Rightarrow> None
      | Some k \<Rightarrow>
          Some (k, r\<lparr>bm_count := bm_count r + 1, bm_allocated := set_bit k (bm_allocated r)\<rparr>))"

definition bm_Release :: "nat \<Rightarrow> bitmap \<Rightarrow> bitmap" where
  "bm_Release offset r =
     (if \<not> bit (bm_allocated r) offset then r
      else r\<lparr>bm_allocated := unset_bit offset (bm_allocated r), bm_count := bm_count r - 1\<rparr>)"

definition bm_Has :: "nat \<Rightarrow> bitmap \<Rightarrow> bool" where
  "bm_Has offset r = bit (bm_allocated r) offset"

definition bm_Free :: "bitmap \<Rightarrow> int" where
  "bm_Free r = bm_max r - bm_count r"

text \<open>\<open>big.Int.Bits\<close>: the 64-bit words, least significant first.\<close>

function big_words :: "nat \<Rightarrow> nat list" where
  "big_words n = (if n = 0 then [] else n mod 2 ^ 64 # big_words (n div 2 ^ 64))"
  by pat_completeness auto
termination
  by (relation "measure id") auto

declare big_words.simps [simp del]

text \<open>The inner loop of \<open>ForEach\<close> over one word: the positions of its ones, from \<open>b\<close> on.\<close>

function word_ones :: "nat \<Rightarrow> nat \<Rightarrow> nat list" where
  "word_ones b w = (if w = 0 then [] else (if odd w then [b] else []) @ word_ones (Suc b) (w div 2))"
  by pat_completeness auto
termination
  by (relation "measure snd") auto

declare word_ones.simps [simp del]

definition bm_ForEach :: "bitmap \<Rightarrow> nat list" where
  "bm_ForEach r =
     concat (map (\<lambda>(wordIdx, w). map (\<lambda>b. wordIdx * 64 + b) (word_ones 0 w))
       (enumerate 0 (big_words (bm_allocated r))))"

definition countBits :: "nat \<Rightarrow> int" where
  "countBits n = int (sum_list (map (\<lambda>w. length (word_ones 0 w)) (big_words n)))"

definition bm_Snapshot :: "bitmap \<Rightarrow> string \<times> byte list" where
  "bm_Snapshot r = (bm_rangeSpec r, be_bytes (bm_allocated r))"

definition bm_Restore :: "string \<Rightarrow> byte list \<Rightarrow> bitmap \<Rightarrow> bitmap option" where
  "bm_Restore rangeSpec data r =
     (if bm_rangeSpec r \<noteq> rangeSpec then None
      else let alloc = be_nat data in Some (r\<lparr>bm_allocated := alloc, bm_count := countBits alloc\<rparr>))"

subsection \<open>Bits of natural numbers\<close>

definition ones :: "nat \<Rightarrow> nat set" where
  "ones n = {i. bit n i}"

lemma bit_nat_bound: "bit (n :: nat) i \<Longrightarrow> i < n"
proof -
  assume "bit n i"
  then have "odd (n div 2 ^ i)" by (simp add: bit_iff_odd)
  then have "n div 2 ^ i \<noteq> 0" by (metis even_zero)
  then have "2 ^ i \<le> n" by (metis div_less not_le)
  then show "i < n" using less_exp [of i] by linarith
qed

lemma finite_ones [simp]: "finite (ones n)"
  using bit_nat_bound by (auto simp: ones_def intro: finite_subset [of _ "{..<n}"])

lemma ones_0 [simp]: "ones 0 = {}"
  by (simp add: ones_def)

lemma ones_set_bit [simp]: "ones (set_bit k n) = insert k (ones n)"
  by (auto simp: ones_def bit_set_bit_iff)

lemma ones_unset_bit [simp]: "ones (unset_bit k n) = ones n - {k}"
  by (auto simp: ones_def bit_unset_bit_iff)

lemma word_ones_set: "set (word_ones b w) = (\<lambda>i. b + i) ` ones w"
proof (induction b w rule: word_ones.induct)
  case (1 b w)
  show ?case
  proof (cases "w = 0")
    case True
    then show ?thesis by (simp add: word_ones.simps [of b 0])
  next
    case False
    have "ones w = (if odd w then {0} else {}) \<union> Suc ` ones (w div 2)"
    proof (rule set_eqI)
      fix i
      show "i \<in> ones w \<longleftrightarrow> i \<in> (if odd w then {0} else {}) \<union> Suc ` ones (w div 2)"
        by (cases i) (auto simp: ones_def bit_0 bit_Suc)
    qed
    moreover have "(\<lambda>i. b + i) ` Suc ` A = (\<lambda>i. Suc b + i) ` A" for A :: "nat set"
      by (auto simp: image_image)
    ultimately show ?thesis
      using 1 False by (auto simp: word_ones.simps [of b w] image_Un)
  qed
qed

lemma word_ones_sorted: "sorted_wrt (<) (word_ones b w)"
proof (induction b w rule: word_ones.induct)
  case (1 b w)
  show ?case
  proof (cases "w = 0")
    case True
    then show ?thesis by (simp add: word_ones.simps [of b 0])
  next
    case False
    with 1 show ?thesis
      by (auto simp: word_ones.simps [of b w] sorted_wrt_append word_ones_set)
  qed
qed

lemma length_word_ones: "length (word_ones b w) = card (ones w)"
proof -
  have "distinct (word_ones b w)"
    using word_ones_sorted strict_sorted_iff by blast
  then have "length (word_ones b w) = card (set (word_ones b w))"
    by (simp add: distinct_card)
  then show ?thesis by (simp add: word_ones_set card_image)
qed

lemma ones_split: "ones n = ones (n mod 2 ^ k) \<union> (\<lambda>i. k + i) ` ones (n div 2 ^ k)"
proof (rule set_eqI)
  fix i
  have low: "bit (n mod 2 ^ k) j \<longleftrightarrow> j < k \<and> bit n j" for j
    by (simp add: take_bit_eq_mod [symmetric] bit_take_bit_iff)
  have high: "bit (n div 2 ^ k) j \<longleftrightarrow> bit n (k + j)" for j
    by (simp add: drop_bit_eq_div [symmetric] bit_drop_bit_eq)
  show "i \<in> ones n \<longleftrightarrow> i \<in> ones (n mod 2 ^ k) \<union> (\<lambda>i. k + i) ` ones (n div 2 ^ k)"
  proof (cases "i < k")
    case True
    then show ?thesis by (auto simp: ones_def low)
  next
    case False
    then obtain j where "i = k + j" using le_Suc_ex not_less by blast
    then show ?thesis by (auto simp: ones_def low high)
  qed
qed

lemma card_ones_split: "card (ones n) = card (ones (n mod 2 ^ k)) + card (ones (n div 2 ^ k))"
proof -
  have low: "ones (n mod 2 ^ k) \<subseteq> {..<k}"
    by (auto simp: ones_def take_bit_eq_mod [symmetric] bit_take_bit_iff)
  have "card (ones n) = card (ones (n mod 2 ^ k)) + card ((\<lambda>i. k + i) ` ones (n div 2 ^ k))"
    by (subst ones_split [of n k], rule card_Un_disjoint) (use low in auto)
  then show ?thesis by (simp add: card_image)
qed

text \<open>\<open>countBits\<close> counts the set bits.\<close>

lemma countBits_card: "countBits n = int (card (ones n))"
proof (induction n rule: big_words.induct)
  case (1 n)
  show ?case
  proof (cases "n = 0")
    case True
    then show ?thesis by (simp add: countBits_def big_words.simps [of 0])
  next
    case False
    then have "countBits n = int (card (ones (n mod 2 ^ 64))) + countBits (n div 2 ^ 64)"
      by (simp add: countBits_def big_words.simps [of n] length_word_ones)
    with 1 False show ?thesis by (simp add: card_ones_split [of n 64])
  qed
qed

lemma first_zero_Some:
  "first_zero alloc i mx = Some k \<Longrightarrow> i \<le> k \<and> k < mx \<and> \<not> bit alloc k \<and> (\<forall>j. i \<le> j \<and> j < k \<longrightarrow> bit alloc j)"
proof (induction alloc i mx rule: first_zero.induct)
  case (1 alloc i mx)
  have step: "first_zero alloc i mx =
    (if i < mx then if \<not> bit alloc i then Some i else first_zero alloc (Suc i) mx else None)"
    by (rule first_zero.simps)
  show ?case
  proof (cases "i < mx \<and> bit alloc i")
    case True
    with 1(2) step have "first_zero alloc (Suc i) mx = Some k" by simp
    with 1(1) True have "Suc i \<le> k \<and> k < mx \<and> \<not> bit alloc k
      \<and> (\<forall>j. Suc i \<le> j \<and> j < k \<longrightarrow> bit alloc j)" by simp
    with True show ?thesis by (metis Suc_leD Suc_leI le_neq_implies_less)
  next
    case False
    with 1(2) step have "i < mx \<and> \<not> bit alloc i \<and> k = i" by (auto split: if_splits)
    then show ?thesis by auto
  qed
qed

lemma first_zero_None: "first_zero alloc i mx = None \<Longrightarrow> i \<le> j \<Longrightarrow> j < mx \<Longrightarrow> bit alloc j"
proof (induction alloc i mx rule: first_zero.induct)
  case (1 alloc i mx)
  have step: "first_zero alloc i mx =
    (if i < mx then if \<not> bit alloc i then Some i else first_zero alloc (Suc i) mx else None)"
    by (rule first_zero.simps)
  from 1(3,4) have "i < mx" by simp
  with 1(2) step have b: "bit alloc i" and r: "first_zero alloc (Suc i) mx = None"
    by (auto split: if_splits)
  with 1 \<open>i < mx\<close> show ?case by (cases "i = j") auto
qed

text \<open>\<open>ForEach\<close> visits exactly the allocated offsets.\<close>

lemma concat_words_set:
  "set (concat (map (\<lambda>(idx, w). map (\<lambda>b. idx * 64 + b) (word_ones 0 w)) (enumerate k (big_words n))))
   = (\<lambda>i. k * 64 + i) ` ones n"
proof (induction n arbitrary: k rule: big_words.induct)
  case (1 n)
  show ?case
  proof (cases "n = 0")
    case True
    then show ?thesis by (simp add: big_words.simps [of 0])
  next
    case False
    have "(\<lambda>i. Suc k * 64 + i) ` A = (\<lambda>i. k * 64 + i) ` (\<lambda>i. 64 + i) ` A" for A :: "nat set"
      by (auto simp: image_image algebra_simps)
    with 1 [OF False, of "Suc k"] False show ?thesis
      by (subst ones_split [of n 64]) (simp add: big_words.simps [of n] word_ones_set image_Un)
  qed
qed

lemma bm_ForEach_set: "set (bm_ForEach r) = ones (bm_allocated r)"
  using concat_words_set [of 0 "bm_allocated r"] by (simp add: bm_ForEach_def)

subsection \<open>The bitmap is a slot allocator\<close>

text \<open>
  \<open>bm_count_ok\<close> is the comment of the source, "r.count is always equal to the number of set bits".
  \<open>bitmap_ok\<close> adds that no bit lies beyond the range.
\<close>

definition bm_count_ok :: "bitmap \<Rightarrow> bool" where
  "bm_count_ok r \<longleftrightarrow> bm_count r = int (card (ones (bm_allocated r)))"

definition bitmap_ok :: "bitmap \<Rightarrow> bool" where
  "bitmap_ok r \<longleftrightarrow> bm_count_ok r \<and> ones (bm_allocated r) \<subseteq> {..<nat (bm_max r)}"

lemma bm_count_ok_new [simp]: "bm_count_ok (NewContiguousAllocationMap mx spec)"
  by (simp add: bm_count_ok_def NewContiguousAllocationMap_def)

lemma bitmap_ok_new [simp]: "bitmap_ok (NewContiguousAllocationMap mx spec)"
  by (simp add: bitmap_ok_def) (simp add: NewContiguousAllocationMap_def)

lemma bm_Allocate_count_ok: "bm_count_ok r \<Longrightarrow> bm_count_ok (snd (bm_Allocate k r))"
proof -
  assume ok: "bm_count_ok r"
  show ?thesis
  proof (cases "bit (bm_allocated r) k")
    case False
    then have "k \<notin> ones (bm_allocated r)" by (simp add: ones_def)
    with ok False show ?thesis by (simp add: bm_count_ok_def bm_Allocate_def)
  qed (use ok in \<open>simp add: bm_Allocate_def\<close>)
qed

lemma bm_Release_count_ok: "bm_count_ok r \<Longrightarrow> bm_count_ok (bm_Release k r)"
proof -
  assume ok: "bm_count_ok r"
  show ?thesis
  proof (cases "bit (bm_allocated r) k")
    case True
    then have "k \<in> ones (bm_allocated r)" by (simp add: ones_def)
    then have "card (ones (bm_allocated r)) = Suc (card (ones (bm_allocated r) - {k}))"
      by (metis card.remove finite_ones)
    with ok True show ?thesis by (simp add: bm_count_ok_def bm_Release_def)
  next
    case False
    with ok show ?thesis by (simp add: bm_Release_def)
  qed
qed

lemma bm_Release_ones: "ones (bm_allocated (bm_Release k r)) = ones (bm_allocated r) - {k}"
  by (auto simp: bm_Release_def) (simp add: ones_def)

lemma bm_Release_fixed [simp]:
  "bm_max (bm_Release k r) = bm_max r" "bm_rangeSpec (bm_Release k r) = bm_rangeSpec r"
  by (simp_all add: bm_Release_def)

lemma bm_AllocateNext_Some:
  assumes "bm_AllocateNext r = Some (k, r')"
  shows "int k < bm_max r \<and> k \<notin> ones (bm_allocated r) \<and> bm_count r < bm_max r
    \<and> r' = r\<lparr>bm_count := bm_count r + 1, bm_allocated := set_bit k (bm_allocated r)\<rparr>"
proof -
  from assms have z: "first_zero (bm_allocated r) 0 (nat (bm_max r)) = Some k"
    and c: "bm_count r < bm_max r"
    and r': "r' = r\<lparr>bm_count := bm_count r + 1, bm_allocated := set_bit k (bm_allocated r)\<rparr>"
    by (auto simp: bm_AllocateNext_def AllocateBit_def split: option.splits if_splits)
  from first_zero_Some [OF z] have "k < nat (bm_max r)" "\<not> bit (bm_allocated r) k" by auto
  with c r' show ?thesis by (simp add: ones_def)
qed

lemma bm_AllocateNext_None:
  assumes "bm_AllocateNext r = None" and "bitmap_ok r"
  shows "ones (bm_allocated r) = {..<nat (bm_max r)}"
proof (cases "bm_count r \<ge> bm_max r")
  case True
  with assms(2) have sub: "ones (bm_allocated r) \<subseteq> {..<nat (bm_max r)}"
    and "nat (bm_max r) \<le> card (ones (bm_allocated r))"
    by (auto simp: bitmap_ok_def bm_count_ok_def)
  then show ?thesis using card_seteq [of "{..<nat (bm_max r)}"] by simp
next
  case False
  with assms(1) have "first_zero (bm_allocated r) 0 (nat (bm_max r)) = None"
    by (auto simp: bm_AllocateNext_def AllocateBit_def split: option.splits)
  then have "{..<nat (bm_max r)} \<subseteq> ones (bm_allocated r)"
    using first_zero_None [of _ 0] by (auto simp: ones_def)
  with assms(2) show ?thesis by (auto simp: bitmap_ok_def)
qed

lemma bm_AllocateNext_ok:
  "bm_AllocateNext r = Some (k, r') \<Longrightarrow> bm_count_ok r \<Longrightarrow> bm_count_ok r'"
  using bm_AllocateNext_Some [of r k r'] by (auto simp: bm_count_ok_def)

interpretation bitmap_slots: slot_allocator bm_AllocateNext bm_Release "\<lambda>r. ones (bm_allocated r)"
  "\<lambda>r. nat (bm_max r)" bitmap_ok
proof unfold_locales
  fix s k s'
  assume ok: "bitmap_ok s" and nx: "bm_AllocateNext s = Some (k, s')"
  from bm_AllocateNext_Some [OF nx] bm_AllocateNext_ok [OF nx] ok
  show "k < nat (bm_max s) \<and> k \<notin> ones (bm_allocated s)
      \<and> ones (bm_allocated s') = insert k (ones (bm_allocated s))
      \<and> nat (bm_max s') = nat (bm_max s) \<and> bitmap_ok s'"
    by (auto simp: bitmap_ok_def)
next
  fix s k
  assume "bitmap_ok s"
  then show "ones (bm_allocated (bm_Release k s)) = ones (bm_allocated s) - {k}
      \<and> nat (bm_max (bm_Release k s)) = nat (bm_max s) \<and> bitmap_ok (bm_Release k s)"
    using bm_Release_count_ok [of s k] by (auto simp: bitmap_ok_def bm_Release_ones)
qed (auto simp: bm_AllocateNext_None bitmap_ok_def)

lemma bm_Restore_Snapshot:
  "bm_Snapshot r = (spec, data) \<Longrightarrow> bm_count_ok r \<Longrightarrow> bm_rangeSpec r' = spec \<Longrightarrow> bm_max r' = bm_max r \<Longrightarrow>
   bm_Restore spec data r' = Some r"
  by (cases r; cases r')
    (auto simp: bm_Snapshot_def bm_Restore_def be_nat_bytes countBits_card bm_count_ok_def)

section \<open>Ranges of addresses\<close>

datatype range_err = ErrFull | ErrAllocated | ErrMismatchedNetwork | ErrNotInRange string | ErrRestore

record ip_range =
  rg_net :: ipnet
  rg_base :: nat
  rg_max :: int
  rg_alloc :: bitmap

definition bigForIP :: "ip \<Rightarrow> nat" where
  "bigForIP a = be_nat (To16 a)"

text \<open>\<open>big.Int.Bytes\<close> is padded to 16 bytes on the left; only the last 16 are kept.\<close>

definition addIPOffset :: "nat \<Rightarrow> nat \<Rightarrow> ip" where
  "addIPOffset base offset =
     (let r = replicate 16 (0 :: byte) @ be_bytes (base + offset) in drop (length r - 16) r)"

text \<open>\<open>big.Int.Int64\<close> keeps the low 64 bits as a signed number.\<close>

definition int64 :: "int \<Rightarrow> int" where
  "int64 x = (x + 2 ^ 63) mod 2 ^ 64 - 2 ^ 63"

definition calculateIPOffset :: "nat \<Rightarrow> ip \<Rightarrow> int" where
  "calculateIPOffset base a = int64 (int (bigForIP a) - int base)"

text \<open>\<open>bits - ones\<close> is not negative: \<open>Size\<close> answers \<open>(0, 0)\<close> for a mask that is not canonical.\<close>

definition RangeSize :: "ipnet \<Rightarrow> int" where
  "RangeSize subnet =
     (case mask_Size (net_Mask subnet) of (one, bits) \<Rightarrow>
        if bits = 32 \<and> bits - one \<ge> 31 \<or> bits = 128 \<and> bits - one \<ge> 127 then 0
        else if bits = 128 \<and> bits - one \<ge> 16 then 2 ^ 16
        else int64 (2 ^ (bits - one)))"

definition NewAllocatorCIDRRange :: "ipnet \<Rightarrow> ip_range" where
  "NewAllocatorCIDRRange cidr =
     (let mx = max 0 (RangeSize cidr - 2) in
      \<lparr>rg_net = cidr, rg_base = bigForIP (net_IP cidr) + 1, rg_max = mx,
       rg_alloc = NewContiguousAllocationMap mx (ipnet_String cidr)\<rparr>)"

definition range_contains :: "ip_range \<Rightarrow> ip \<Rightarrow> int option" where
  "range_contains r a =
     (if \<not> net_Contains (rg_net r) a then None
      else let offset = calculateIPOffset (rg_base r) a in
        if offset < 0 \<or> offset \<ge> rg_max r then None else Some offset)"

definition range_Allocate :: "ip \<Rightarrow> ip_range \<Rightarrow> range_err option \<times> ip_range" where
  "range_Allocate a r =
     (case range_contains r a of
        None \<Rightarrow> (Some (ErrNotInRange (ipnet_String (rg_net r))), r)
      | Some offset \<Rightarrow>
          (case bm_Allocate (nat offset) (rg_alloc r) of
             (False, al) \<Rightarrow> (Some ErrAllocated, r\<lparr>rg_alloc := al\<rparr>)
           | (True, al) \<Rightarrow> (None, r\<lparr>rg_alloc := al\<rparr>)))"

definition range_AllocateNext :: "ip_range \<Rightarrow> (range_err + ip) \<times> ip_range" where
  "range_AllocateNext r =
     (case bm_AllocateNext (rg_alloc r) of
        None \<Rightarrow> (Inl ErrFull, r)
      | Some (offset, al) \<Rightarrow> (Inr (addIPOffset (rg_base r) offset), r\<lparr>rg_alloc := al\<rparr>))"

definition range_Release :: "ip \<Rightarrow> ip_range \<Rightarrow> ip_range" where
  "range_Release a r =
     (case range_contains r a of
        None \<Rightarrow> r
      | Some offset \<Rightarrow> r\<lparr>rg_alloc := bm_Release (nat offset) (rg_alloc r)\<rparr>)"

definition range_Has :: "ip_range \<Rightarrow> ip \<Rightarrow> bool" where
  "range_Has r a =
     (case range_contains r a of None \<Rightarrow> False | Some offset \<Rightarrow> bm_Has (nat offset) (rg_alloc r))"

definition range_Free :: "ip_range \<Rightarrow> int" where
  "range_Free r = bm_Free (rg_alloc r)"

definition range_Used :: "ip_range \<Rightarrow> int" where
  "range_Used r = rg_max r - bm_Free (rg_alloc r)"

definition GetIndexedIP :: "ipnet \<Rightarrow> nat \<Rightarrow> ip option" where
  "GetIndexedIP subnet index =
     (let a = addIPOffset (bigForIP (net_IP subnet)) index in
      if net_Contains subnet a then Some a else None)"

text \<open>\<open>ForEach\<close> ignores the error of \<open>GetIndexedIP\<close> and then passes the nil address.\<close>

definition range_ForEach :: "ip_range \<Rightarrow> ip list" where
  "range_ForEach r =
     map (\<lambda>offset. case GetIndexedIP (rg_net r) (offset + 1) of None \<Rightarrow> [] | Some a \<Rightarrow> a)
       (bm_ForEach (rg_alloc r))"

definition range_Snapshot :: "ip_range \<Rightarrow> string \<times> byte list" where
  "range_Snapshot r = bm_Snapshot (rg_alloc r)"

definition range_Restore :: "ipnet \<Rightarrow> byte list \<Rightarrow> ip_range \<Rightarrow> range_err option \<times> ip_range" where
  "range_Restore n data r =
     (if \<not> ip_Equal (net_IP n) (net_IP (rg_net r))
        \<or> hex_string (net_Mask n) \<noteq> hex_string (net_Mask (rg_net r))
      then (Some ErrMismatchedNetwork, r)
      else
        (case bm_Restore (ipnet_String n) data (rg_alloc r) of
           None \<Rightarrow> (Some ErrRestore, r)
         | Some al \<Rightarrow> (None, r\<lparr>rg_alloc := al\<rparr>)))"

subsection \<open>Offsets and addresses\<close>

lemma int64_id: "0 \<le> x \<Longrightarrow> x < 2 ^ 63 \<Longrightarrow> int64 x = x"
  by (simp add: int64_def)

lemma be_nat_zeros [simp]: "be_nat (replicate n 0) = 0"
  by (induction n) (simp_all add: be_nat_def)

lemma length_addIPOffset [simp]: "length (addIPOffset base k) = 16"
  by (simp add: addIPOffset_def Let_def)

lemma be_nat_addIPOffset: "be_nat (addIPOffset base k) = (base + k) mod 256 ^ 16"
proof -
  define r where "r = replicate 16 (0 :: byte) @ be_bytes (base + k)"
  define m where "m = length r - 16"
  have a: "addIPOffset base k = drop m r"
    by (simp add: addIPOffset_def r_def m_def Let_def)
  have len: "length (drop m r) = 16"
    by (simp add: m_def r_def)
  have "base + k = be_nat r"
    by (simp add: r_def be_nat_append be_nat_bytes)
  also have "\<dots> = be_nat (take m r @ drop m r)"
    by simp
  also have "\<dots> = be_nat (take m r) * 256 ^ 16 + be_nat (drop m r)"
    by (simp only: be_nat_append len)
  finally have "(base + k) mod 256 ^ 16 = be_nat (drop m r) mod 256 ^ 16"
    by (simp only: mod_mult_self3)
  moreover have "be_nat (drop m r) < 256 ^ 16"
    using be_nat_bound [of "drop m r"] by (simp only: len)
  ultimately show ?thesis by (simp only: a mod_less)
qed

lemma To16_16 [simp]: "length a = 16 \<Longrightarrow> To16 a = a"
  by (simp add: To16_def)

lemma bigForIP_addIPOffset: "base + k < 2 ^ 128 \<Longrightarrow> bigForIP (addIPOffset base k) = base + k"
  by (simp add: bigForIP_def be_nat_addIPOffset)

lemma addIPOffset_inj:
  assumes "base + j < 2 ^ 128" and "base + k < 2 ^ 128" and "addIPOffset base j = addIPOffset base k"
  shows "j = k"
proof -
  have "base + j = base + k"
    using bigForIP_addIPOffset [OF assms(1)] bigForIP_addIPOffset [OF assms(2)]
    by (simp only: assms(3))
  then show ?thesis by simp
qed

text \<open>An address of 16 bytes at or above the base is the base plus its offset.\<close>

lemma addIPOffset_bigForIP:
  assumes "length a = 16" and "base \<le> bigForIP a"
  shows "addIPOffset base (bigForIP a - base) = a"
proof (rule be_nat_inj)
  show "length (addIPOffset base (bigForIP a - base)) = length a"
    using assms(1) by simp
  have "be_nat a < 256 ^ 16"
    using be_nat_bound [of a] by (simp only: assms(1))
  moreover have "base + (bigForIP a - base) = be_nat a"
    using assms by (simp add: bigForIP_def)
  ultimately show "be_nat (addIPOffset base (bigForIP a - base)) = be_nat a"
    by (simp only: be_nat_addIPOffset mod_less)
qed

lemma addIPOffset_fixed: "addIPOffset base k = be_fixed 16 (base + k)"
proof (rule be_nat_inj)
  show "be_nat (addIPOffset base k) = be_nat (be_fixed 16 (base + k))"
    by (simp only: be_nat_addIPOffset be_nat_fixed)
qed simp

subsection \<open>The range is an address pool\<close>

definition range_ok :: "ip_range \<Rightarrow> bool" where
  "range_ok r \<longleftrightarrow> bitmap_ok (rg_alloc r) \<and> bm_max (rg_alloc r) = rg_max r
     \<and> bm_rangeSpec (rg_alloc r) = ipnet_String (rg_net r)
     \<and> rg_max r \<le> 2 ^ 62 \<and> int (rg_base r) + rg_max r \<le> 2 ^ 128"

definition range_used :: "ip_range \<Rightarrow> nat set" where
  "range_used r = ones (bm_allocated (rg_alloc r))"

definition range_addr :: "ip_range \<Rightarrow> nat \<Rightarrow> ip" where
  "range_addr r k = addIPOffset (rg_base r) k"

definition range_next_slot :: "ip_range \<Rightarrow> (nat \<times> ip_range) option" where
  "range_next_slot r = map_option (\<lambda>(k, al). (k, r\<lparr>rg_alloc := al\<rparr>)) (bm_AllocateNext (rg_alloc r))"

definition range_release_slot :: "nat \<Rightarrow> ip_range \<Rightarrow> ip_range" where
  "range_release_slot k r = r\<lparr>rg_alloc := bm_Release k (rg_alloc r)\<rparr>"

lemma range_AllocateNext_slot:
  "range_AllocateNext r =
     (case range_next_slot r of
        None \<Rightarrow> (Inl ErrFull, r)
      | Some (k, r') \<Rightarrow> (Inr (range_addr r k), r'))"
  by (auto simp: range_AllocateNext_def range_next_slot_def range_addr_def split: option.splits)

lemma range_next_slot_frame:
  "range_next_slot r = Some (k, r') \<Longrightarrow>
   rg_net r' = rg_net r \<and> rg_base r' = rg_base r \<and> rg_max r' = rg_max r
   \<and> bm_rangeSpec (rg_alloc r') = bm_rangeSpec (rg_alloc r) \<and> bm_max (rg_alloc r') = bm_max (rg_alloc r)"
  by (auto simp: range_next_slot_def dest!: bm_AllocateNext_Some)

interpretation range_pool: address_pool range_next_slot range_release_slot range_used
  "\<lambda>r. nat (rg_max r)" range_ok range_addr
proof unfold_locales
  fix s k s'
  assume ok: "range_ok s" and nx: "range_next_slot s = Some (k, s')"
  then obtain al where al: "bm_AllocateNext (rg_alloc s) = Some (k, al)" "s' = s\<lparr>rg_alloc := al\<rparr>"
    by (auto simp: range_next_slot_def)
  from ok have "bitmap_ok (rg_alloc s)" by (simp add: range_ok_def)
  from bitmap_slots.next_Some [OF this al(1)] bm_AllocateNext_Some [OF al(1)] ok al(2)
  show "k < nat (rg_max s) \<and> k \<notin> range_used s \<and> range_used s' = insert k (range_used s)
      \<and> nat (rg_max s') = nat (rg_max s) \<and> range_ok s'"
    by (auto simp: range_ok_def range_used_def)
next
  fix s k
  assume "range_ok s"
  then show "range_used (range_release_slot k s) = range_used s - {k}
      \<and> nat (rg_max (range_release_slot k s)) = nat (rg_max s) \<and> range_ok (range_release_slot k s)"
    using bitmap_slots.release_ok [of "rg_alloc s" k]
    by (auto simp: range_ok_def range_used_def range_release_slot_def)
next
  fix s :: ip_range and j k
  assume "range_ok s" "j < nat (rg_max s)" "k < nat (rg_max s)" "range_addr s j = range_addr s k"
  then show "j = k"
    using addIPOffset_inj [of "rg_base s" j k] by (auto simp: range_ok_def range_addr_def)
next
  fix s
  assume "range_ok s" "range_next_slot s = None"
  then show "range_used s = {..<nat (rg_max s)}"
    using bm_AllocateNext_None [of "rg_alloc s"] by (auto simp: range_ok_def range_used_def range_next_slot_def)
next
  fix s k s'
  assume "range_next_slot s = Some (k, s')"
  then show "range_addr s' = range_addr s"
    using range_next_slot_frame by (fastforce simp: range_addr_def)
qed (auto simp: range_ok_def range_used_def bitmap_ok_def range_release_slot_def range_addr_def)

lemma range_ok_new:
  assumes "RangeSize n \<le> 2 ^ 62" and "int (bigForIP (net_IP n)) + max 0 (RangeSize n) < 2 ^ 128"
  shows "range_ok (NewAllocatorCIDRRange n)"
  using assms
  by (simp add: range_ok_def NewAllocatorCIDRRange_def Let_def)
    (auto simp: NewContiguousAllocationMap_def max_def split: if_splits)

lemma range_used_new [simp]: "range_used (NewAllocatorCIDRRange n) = {}"
  by (simp add: range_used_def NewAllocatorCIDRRange_def Let_def NewContiguousAllocationMap_def)

lemma range_contains_addr:
  assumes ok: "range_ok r" and k: "k < nat (rg_max r)"
  shows "range_contains r (range_addr r k) =
    (if net_Contains (rg_net r) (range_addr r k) then Some (int k) else None)"
proof -
  from ok k have "rg_base r + k < 2 ^ 128" "int k < 2 ^ 63"
    by (auto simp: range_ok_def)
  then have "calculateIPOffset (rg_base r) (range_addr r k) = int k"
    using bigForIP_addIPOffset [of "rg_base r" k]
    by (simp add: calculateIPOffset_def range_addr_def int64_id)
  moreover from k have "int k < rg_max r" by linarith
  ultimately show ?thesis by (simp add: range_contains_def Let_def)
qed

lemma range_Release_addr:
  assumes "range_ok r" and "k < nat (rg_max r)"
  shows "range_Release (range_addr r k) r =
    (if net_Contains (rg_net r) (range_addr r k) then range_release_slot k r else r)"
  by (simp add: range_Release_def range_contains_addr [OF assms] range_release_slot_def)

lemma range_Has_addr:
  assumes "range_ok r" and "k < nat (rg_max r)"
  shows "range_Has r (range_addr r k) \<longleftrightarrow> net_Contains (rg_net r) (range_addr r k) \<and> k \<in> range_used r"
  by (simp add: range_Has_def range_contains_addr [OF assms] bm_Has_def range_used_def ones_def)

lemma range_Release_ok: "range_ok r \<Longrightarrow> range_ok (range_Release a r)"
  using range_pool.release_ok [of r]
  by (auto simp: range_Release_def range_release_slot_def split: option.splits)

lemma range_Release_frame [simp]:
  "rg_net (range_Release a r) = rg_net r" "rg_base (range_Release a r) = rg_base r"
  "rg_max (range_Release a r) = rg_max r"
  by (simp_all add: range_Release_def split: option.splits)

lemma range_Release_used: "range_used (range_Release a r) \<subseteq> range_used r"
  by (auto simp: range_Release_def range_used_def bm_Release_ones split: option.splits)

lemma range_AllocateNext_Inr:
  assumes "range_ok r" and "range_AllocateNext r = (Inr a, r')"
  obtains k where "range_next_slot r = Some (k, r')" "a = range_addr r k" "k < nat (rg_max r)"
    "k \<notin> range_used r" "range_used r' = insert k (range_used r)" "range_ok r'"
    "rg_net r' = rg_net r" "rg_base r' = rg_base r" "rg_max r' = rg_max r"
proof -
  from assms(2) obtain k where k: "range_next_slot r = Some (k, r')" "a = range_addr r k"
    by (auto simp: range_AllocateNext_slot split: option.splits)
  with range_pool.next_Some [OF assms(1) k(1)] range_next_slot_frame [OF k(1)] show ?thesis
    using that by blast
qed

lemma range_Restore_self:
  assumes "rg_net r = n"
  shows "range_Restore n data r =
    (case bm_Restore (ipnet_String n) data (rg_alloc r) of
       None \<Rightarrow> (Some ErrRestore, r) | Some al \<Rightarrow> (None, r\<lparr>rg_alloc := al\<rparr>))"
  using assms by (simp add: range_Restore_def ip_Equal_def)

text \<open>The states of the range that \<open>NewAllocatorCIDRRange n\<close> makes.\<close>

definition range_over :: "ipnet \<Rightarrow> ip_range \<Rightarrow> bool" where
  "range_over n r \<longleftrightarrow> range_ok r \<and> rg_net r = n \<and> rg_base r = bigForIP (net_IP n) + 1
     \<and> rg_max r = max 0 (RangeSize n - 2)"

lemma range_over_ok: "range_over n r \<Longrightarrow> range_ok r"
  by (simp add: range_over_def)

lemma range_over_new: "range_ok (NewAllocatorCIDRRange n) \<Longrightarrow> range_over n (NewAllocatorCIDRRange n)"
  by (simp add: range_over_def) (simp add: NewAllocatorCIDRRange_def Let_def)

lemma range_over_AllocateNext:
  assumes "range_over n r" and "range_AllocateNext r = (Inr a, r')"
  shows "range_over n r'"
proof (rule range_AllocateNext_Inr [OF range_over_ok [OF assms(1)] assms(2)])
  fix k
  assume "range_ok r'" "rg_net r' = rg_net r" "rg_base r' = rg_base r" "rg_max r' = rg_max r"
  with assms(1) show ?thesis by (simp add: range_over_def)
qed

lemma range_over_Release: "range_over n r \<Longrightarrow> range_over n (range_Release a r)"
  using range_Release_ok [of r a] by (simp add: range_over_def)

lemma range_over_addr: "range_over n r \<Longrightarrow> range_over n r' \<Longrightarrow> range_addr r = range_addr r'"
  by (auto simp: range_over_def range_addr_def)

lemma range_Restore_Snapshot:
  assumes "range_over n r"
  shows "range_Restore n (snd (range_Snapshot r)) (NewAllocatorCIDRRange n) = (None, r)"
proof -
  let ?new = "NewAllocatorCIDRRange n"
  from assms have new: "?new\<lparr>rg_alloc := rg_alloc r\<rparr> = r"
    by (cases r) (simp add: NewAllocatorCIDRRange_def range_over_def Let_def)
  obtain spec data where snap: "bm_Snapshot (rg_alloc r) = (spec, data)" by fastforce
  have "bm_Restore spec data (rg_alloc ?new) = Some (rg_alloc r)"
  proof (rule bm_Restore_Snapshot [OF snap])
    show "bm_count_ok (rg_alloc r)" "bm_rangeSpec (rg_alloc ?new) = spec"
      "bm_max (rg_alloc ?new) = bm_max (rg_alloc r)"
      using assms snap
      by (auto simp: range_over_def range_ok_def bitmap_ok_def bm_Snapshot_def NewAllocatorCIDRRange_def
          Let_def NewContiguousAllocationMap_def)
  qed
  moreover have "spec = ipnet_String n"
    using assms(1) snap by (auto simp: range_over_def range_ok_def bm_Snapshot_def)
  moreover have "rg_net ?new = n"
    by (simp add: NewAllocatorCIDRRange_def Let_def)
  ultimately show ?thesis
    using new snap by (simp add: range_Restore_self range_Snapshot_def)
qed

text \<open>A small range for the examples: 10.0.0.0/29 and the state after its first allocation.\<close>

definition example_net :: ipnet where
  "example_net = \<lparr>net_IP = [10, 0, 0, 0], net_Mask = CIDRMask 29 32\<rparr>"

lemma example_range_ok: "range_ok (NewAllocatorCIDRRange example_net)"
proof (rule range_ok_new)
  show "RangeSize example_net \<le> 2 ^ 62" by code_simp
  show "int (bigForIP (net_IP example_net)) + max 0 (RangeSize example_net) < 2 ^ 128" by code_simp
qed

lemma example_range_over: "range_over example_net (NewAllocatorCIDRRange example_net)"
  by (rule range_over_new [OF example_range_ok])

lemma example_next:
  "range_AllocateNext (NewAllocatorCIDRRange example_net) =
     (Inr (IPv4 10 0 0 1), (NewAllocatorCIDRRange example_net)\<lparr>rg_alloc :=
        \<lparr>bm_max = 6, bm_rangeSpec = ''10.0.0.0/29'', bm_count = 1, bm_allocated = 1\<rparr>\<rparr>)"
  by code_simp

subsection \<open>Properties of the allocator\<close>

text \<open>C21: \<^verbatim>\<open>AllocationBitmap.AllocateNext\<close> with the contiguous strategy hands out the least free offset
  and sets exactly that bit, and it reports a full pool exactly when every offset of the range is taken;
  the count stays the number of set bits.\<close>

theorem AllocateNext_least:
  assumes "bitmap_ok r"
  shows "case bm_AllocateNext r of
      None \<Rightarrow> ones (bm_allocated r) = {..<nat (bm_max r)}
    | Some (k, r') \<Rightarrow>
        int k < bm_max r \<and> \<not> bm_Has k r \<and> (\<forall>j<k. bm_Has j r)
        \<and> (\<forall>j. bm_Has j r' \<longleftrightarrow> j = k \<or> bm_Has j r) \<and> bm_Free r' = bm_Free r - 1 \<and> bitmap_ok r'"
proof (cases "bm_AllocateNext r")
  case None
  with assms show ?thesis by (simp add: bm_AllocateNext_None)
next
  case (Some p)
  obtain k r' where p: "p = (k, r')" by fastforce
  from Some p have nx: "bm_AllocateNext r = Some (k, r')" by simp
  then have "first_zero (bm_allocated r) 0 (nat (bm_max r)) = Some k"
    by (auto simp: bm_AllocateNext_def AllocateBit_def split: option.splits if_splits)
  from first_zero_Some [OF this] have "\<forall>j<k. bm_Has j r"
    by (simp add: bm_Has_def)
  with bm_AllocateNext_Some [OF nx] bitmap_slots.next_Some [OF assms nx] show ?thesis
    by (auto simp: Some p bm_Has_def ones_def bm_Free_def bit_set_bit_iff)
qed

theorem AllocateNext_least_witness:
  "bitmap_ok (snd (bm_Allocate 0 (NewContiguousAllocationMap 3 ''r''))) \<and>
   map_option fst (bm_AllocateNext (snd (bm_Allocate 0 (NewContiguousAllocationMap 3 ''r'')))) = Some 1"
proof -
  let ?r = "snd (bm_Allocate 0 (NewContiguousAllocationMap 3 ''r''))"
  have ok: "bitmap_ok ?r"
    using bm_Allocate_count_ok [OF bm_count_ok_new, of 0 3 "''r''"]
    by (auto simp: bitmap_ok_def bm_Allocate_def NewContiguousAllocationMap_def ones_def bit_Suc_0_iff)
  have "map_option fst (bm_AllocateNext ?r) = Some 1" by code_simp
  with AllocateNext_least [OF ok] ok show ?thesis by simp
qed

text \<open>C22: what \<^verbatim>\<open>Range.Snapshot\<close> wrote is what \<^verbatim>\<open>Range.Restore\<close> reads back: restoring the snapshot
  of a range into a new range over the same network gives the same range, its free count included.\<close>

theorem Restore_Snapshot:
  assumes "range_over n r"
  shows "range_Restore n (snd (range_Snapshot r)) (NewAllocatorCIDRRange n) = (None, r)"
  using assms by (rule range_Restore_Snapshot)

theorem Restore_Snapshot_witness:
  "range_Restore example_net (snd (range_Snapshot (snd (range_AllocateNext (NewAllocatorCIDRRange example_net)))))
     (NewAllocatorCIDRRange example_net)
   = (None, snd (range_AllocateNext (NewAllocatorCIDRRange example_net)))"
proof (rule Restore_Snapshot)
  show "range_over example_net (snd (range_AllocateNext (NewAllocatorCIDRRange example_net)))"
    using range_over_AllocateNext [OF example_range_over example_next] by (simp add: example_next)
qed

text \<open>\<^verbatim>\<open>Range.Release\<close> undoes \<^verbatim>\<open>Range.AllocateNext\<close> exactly for the addresses inside the network of
  the range; an address the range handed out beyond its network stays allocated, because
  \<^verbatim>\<open>Range.contains\<close> tests the network first.\<close>

theorem Release_AllocateNext:
  assumes "range_ok r" and "range_AllocateNext r = (Inr a, r')"
  shows "range_used (range_Release a r') =
      (if net_Contains (rg_net r) a then range_used r else range_used r')
    \<and> range_used r \<subset> range_used r'"
proof -
  from range_AllocateNext_Inr [OF assms] obtain k where k: "range_next_slot r = Some (k, r')"
    "a = range_addr r k" "k < nat (rg_max r)" "k \<notin> range_used r"
    "range_used r' = insert k (range_used r)" "range_ok r'" "rg_net r' = rg_net r"
    "rg_max r' = rg_max r" "range_addr r' = range_addr r"
    by (metis range_pool.addr_next)
  then have rel: "range_Release a r' =
    (if net_Contains (rg_net r) a then range_release_slot k r' else r')"
    using range_Release_addr [of r' k] by simp
  with range_pool.release_undoes_next [OF assms(1) k(1)] k(4,5) show ?thesis by auto
qed

theorem Release_AllocateNext_witness:
  "range_used (range_Release (IPv4 10 0 0 1) (snd (range_AllocateNext (NewAllocatorCIDRRange example_net)))) = {}"
proof -
  have "net_Contains (rg_net (NewAllocatorCIDRRange example_net)) (IPv4 10 0 0 1)" by code_simp
  with Release_AllocateNext [OF example_range_ok example_next] show ?thesis
    by (simp add: example_next)
qed

end
