(* ===== verification/Base64.thy ===== *)
theory Base64
  imports Vpn_Prelude
begin

text \<open>
  \<^verbatim>\<open>base64.StdEncoding\<close> of Go, in which the DHCP component stores its bitmaps in a ConfigMap
  (\<^verbatim>\<open>src/pkg/handler/dhcp.go\<close>): \<open>EncodeToString\<close> and \<open>DecodeString\<close>.  The decoder skips carriage
  returns and newlines anywhere, requires padding, refuses trailing text and ignores unused low bits.
\<close>

definition b64_alphabet :: string where
  "b64_alphabet = ''ABCDEFGHIJKLMNOPQRSTUVWXYZabcdefghijklmnopqrstuvwxyz0123456789+/''"

definition b64_char :: "nat \<Rightarrow> char" where
  "b64_char n = b64_alphabet ! n"

fun index_in :: "char \<Rightarrow> string \<Rightarrow> nat option" where
  "index_in c [] = None"
| "index_in c (d # ds) = (if c = d then Some 0 else map_option Suc (index_in c ds))"

definition b64_val :: "char \<Rightarrow> nat option" where
  "b64_val c = index_in c b64_alphabet"

definition triple :: "byte \<Rightarrow> byte \<Rightarrow> byte \<Rightarrow> nat" where
  "triple x y z = unat x * 65536 + unat y * 256 + unat z"

fun b64_encode :: "byte list \<Rightarrow> string" where
  "b64_encode (x # y # z # bs) =
     (let v = triple x y z in
      b64_char (v div 262144) # b64_char (v div 4096 mod 64) # b64_char (v div 64 mod 64)
      # b64_char (v mod 64) # b64_encode bs)"
| "b64_encode [x, y] =
     (let v = triple x y 0 in
      [b64_char (v div 262144), b64_char (v div 4096 mod 64), b64_char (v div 64 mod 64), CHR ''='' ])"
| "b64_encode [x] =
     (let v = triple x 0 0 in
      [b64_char (v div 262144), b64_char (v div 4096 mod 64), CHR ''='', CHR ''='' ])"
| "b64_encode [] = []"

definition quad :: "nat \<Rightarrow> nat \<Rightarrow> nat \<Rightarrow> nat \<Rightarrow> nat" where
  "quad a b c d = a * 262144 + b * 4096 + c * 64 + d"

definition quad_bytes :: "nat \<Rightarrow> byte list" where
  "quad_bytes v = [of_nat (v div 65536), of_nat (v div 256), of_nat v]"

text \<open>\<open>decodeQuantum\<close>, on text without line breaks.\<close>

fun decode_quads :: "string \<Rightarrow> byte list option" where
  "decode_quads [] = Some []"
| "decode_quads (a # b # c # d # s) =
     (case (b64_val a, b64_val b, b64_val c, b64_val d) of
        (Some i, Some j, Some k, Some l) \<Rightarrow>
          map_option (\<lambda>r. quad_bytes (quad i j k l) @ r) (decode_quads s)
      | (Some i, Some j, Some k, None) \<Rightarrow>
          if d = CHR ''='' \<and> s = [] then Some (take 2 (quad_bytes (quad i j k 0))) else None
      | (Some i, Some j, None, _) \<Rightarrow>
          if c = CHR ''='' \<and> d = CHR ''='' \<and> s = [] then Some (take 1 (quad_bytes (quad i j 0 0))) else None
      | _ \<Rightarrow> None)"
| "decode_quads s = None"

definition b64_decode :: "string \<Rightarrow> byte list option" where
  "b64_decode s = decode_quads (filter (\<lambda>c. c \<noteq> CHR 0x0A \<and> c \<noteq> CHR 0x0D) s)"

section \<open>Decoding undoes encoding\<close>

lemma index_in_nth: "distinct s \<Longrightarrow> n < length s \<Longrightarrow> index_in (s ! n) s = Some n"
proof (induction s arbitrary: n)
  case (Cons d ds)
  then show ?case by (cases n) (auto simp: nth_mem)
qed simp

lemma index_in_None: "c \<notin> set s \<Longrightarrow> index_in c s = None"
  by (induction s) auto

lemma alphabet: "distinct b64_alphabet" "length b64_alphabet = 64"
  "CHR ''='' \<notin> set b64_alphabet" "CHR 0x0A \<notin> set b64_alphabet" "CHR 0x0D \<notin> set b64_alphabet"
  by code_simp+

lemma b64_val_char [simp]: "n < 64 \<Longrightarrow> b64_val (b64_char n) = Some n"
  by (simp add: b64_val_def b64_char_def index_in_nth alphabet)

lemma b64_val_pad [simp]: "b64_val CHR ''='' = None"
  by (simp add: b64_val_def index_in_None alphabet)

lemma b64_char_text [simp]: "n < 64 \<Longrightarrow> b64_char n \<noteq> CHR 0x0A" "n < 64 \<Longrightarrow> b64_char n \<noteq> CHR 0x0D"
  by (metis alphabet(2,4) b64_char_def nth_mem, metis alphabet(2,5) b64_char_def nth_mem)

lemma triple_bound: "triple x y z < 16777216"
  using unat_byte_less [of x] unat_byte_less [of y] unat_byte_less [of z]
  unfolding triple_def by linarith

lemma triple_index [simp]: "triple x y z div 262144 < 64" "v div 4096 mod 64 < (64 :: nat)"
  "v div 64 mod 64 < (64 :: nat)" "v mod 64 < (64 :: nat)"
  using triple_bound [of x y z] by auto

lemma quad_triple: "quad (v div 262144) (v div 4096 mod 64) (v div 64 mod 64) (v mod 64) = v"
proof -
  have "v div 64 div 64 = v div 4096" "v div 4096 div 64 = v div 262144"
    by (simp_all add: div_mult2_eq [symmetric])
  then have "v = v div 64 * 64 + v mod 64" "v div 64 = v div 4096 * 64 + v div 64 mod 64"
    "v div 4096 = v div 262144 * 64 + v div 4096 mod 64"
    using div_mult_mod_eq [of v 64] div_mult_mod_eq [of "v div 64" 64] div_mult_mod_eq [of "v div 4096" 64]
    by simp_all
  then show ?thesis unfolding quad_def by linarith
qed

lemma digit_256: "z < 256 \<Longrightarrow> (q * 256 + z) div 256 = q" "z < 256 \<Longrightarrow> (q * 256 + z) mod 256 = (z :: nat)"
  by simp_all

lemma quad_bytes_triple: "quad_bytes (triple x y z) = [x, y, z]"
proof -
  have b: "(of_nat n :: byte) = of_nat (n mod 256)" for n
    by (simp add: word_unat_eq_iff unat_of_nat)
  have "triple x y z = (unat x * 256 + unat y) * 256 + unat z"
    by (simp add: triple_def)
  then have t: "triple x y z div 256 = unat x * 256 + unat y" "triple x y z mod 256 = unat z"
    by (simp_all only: digit_256 unat_byte_less)
  moreover have "triple x y z div 65536 = triple x y z div 256 div 256"
    by (simp add: div_mult2_eq [symmetric])
  ultimately have "triple x y z div 65536 mod 256 = unat x" "triple x y z div 256 mod 256 = unat y"
    using unat_byte_less [of x] unat_byte_less [of y] by simp_all
  then show ?thesis
    using b [of "triple x y z div 65536"] b [of "triple x y z div 256"] b [of "triple x y z"] t(2)
    by (simp add: quad_bytes_def)
qed

text \<open>The partial groups leave out digits that are zero.\<close>

lemma quad_pad2: "quad (triple x y 0 div 262144) (triple x y 0 div 4096 mod 64) (triple x y 0 div 64 mod 64) 0
    = triple x y 0"
proof -
  have "triple x y 0 mod 64 = 0" by (simp add: triple_def)
  then show ?thesis using quad_triple [of "triple x y 0"] by simp
qed

lemma quad_pad1: "quad (triple x 0 0 div 262144) (triple x 0 0 div 4096 mod 64) 0 0 = triple x 0 0"
proof -
  have "triple x 0 0 mod 64 = 0" "triple x 0 0 div 64 mod 64 = 0" by (simp_all add: triple_def)
  then show ?thesis using quad_triple [of "triple x 0 0"] by simp
qed

lemma decode_quads_encode: "decode_quads (b64_encode bs) = Some bs"
  by (induction bs rule: b64_encode.induct)
    (simp_all add: Let_def quad_triple quad_pad2 quad_pad1 quad_bytes_triple)

lemma b64_encode_text: "c \<in> set (b64_encode bs) \<Longrightarrow> c \<noteq> CHR 0x0A \<and> c \<noteq> CHR 0x0D"
proof (induction bs rule: b64_encode.induct)
  case (1 x y z bs)
  then show ?case
    by (simp add: Let_def) (metis b64_char_text triple_index)
qed (auto simp: Let_def)

lemma b64_decode_encode [simp]: "b64_decode (b64_encode bs) = Some bs"
proof -
  have "filter (\<lambda>c. c \<noteq> CHR 0x0A \<and> c \<noteq> CHR 0x0D) (b64_encode bs) = b64_encode bs"
    using b64_encode_text by (simp add: filter_id_conv)
  then show ?thesis by (simp add: b64_decode_def decode_quads_encode)
qed

lemma b64_decode_empty [simp]: "b64_decode [] = Some []"
  by (simp add: b64_decode_def)

end
