(* ===== verification/Kube_Client.thy ===== *)
theory Kube_Client
  imports Vpn_Prelude
begin

text \<open>
  The part of the Kubernetes API that the components share: ConfigMaps and the client that reads and
  writes them.  The API server is not part of the program.  It is a parameter, a record of the calls
  the code makes over an arbitrary type of worlds, and \<open>lawful_client\<close> names the documented behaviour
  that theorems rely on: a failed write changes nothing, and an update is accepted only for the version
  that is stored, which it replaces by a later one (optimistic concurrency on \<^verbatim>\<open>resourceVersion\<close>).
  \<open>store_client\<close> is a small store that behaves this way; it shows that the hypotheses can be met.
\<close>

text \<open>The ConfigMap of the traffic manager and its keys.\<close>

definition ConfigMapPodTrafficManager :: string where
  "ConfigMapPodTrafficManager = ''kubevpn-traffic-manager''"

definition KeyDHCP :: string where "KeyDHCP = ''DHCP''"
definition KeyDHCP6 :: string where "KeyDHCP6 = ''DHCP6''"
definition KeyEnvoy :: string where "KeyEnvoy = ''ENVOY_CONFIG''"
definition KeyRefCount :: string where "KeyRefCount = ''REF_COUNT''"

lemmas key_defs = KeyDHCP_def KeyDHCP6_def KeyEnvoy_def KeyRefCount_def

lemma keys_distinct [simp]:
  "KeyDHCP \<noteq> KeyDHCP6" "KeyDHCP6 \<noteq> KeyDHCP" "KeyEnvoy \<noteq> KeyDHCP" "KeyEnvoy \<noteq> KeyDHCP6"
  "KeyRefCount \<noteq> KeyDHCP" "KeyRefCount \<noteq> KeyDHCP6" "KeyEnvoy \<noteq> KeyRefCount" "KeyRefCount \<noteq> KeyEnvoy"
  by (simp_all add: key_defs)

datatype api_err = NotFound | Conflict | AlreadyExists | OtherErr string

record configmap =
  cm_name :: string
  cm_namespace :: string
  cm_version :: nat
  cm_data :: "(string, string) gomap"

text \<open>The patches the code sends: a merge patch of some data keys, and a JSON patch that
  removes keys, which is refused when one of them is missing.\<close>

datatype cm_patch = MergeData "(string \<times> string) list" | RemoveData "string list"

record 'w cm_client =
  cm_Get :: "'w \<Rightarrow> string \<Rightarrow> api_err + configmap"
  cm_Create :: "'w \<Rightarrow> configmap \<Rightarrow> (api_err + configmap) \<times> 'w"
  cm_Update :: "'w \<Rightarrow> configmap \<Rightarrow> (api_err + configmap) \<times> 'w"
  cm_Patch :: "'w \<Rightarrow> string \<Rightarrow> cm_patch \<Rightarrow> (api_err + configmap) \<times> 'w"

definition lawful_client :: "'w cm_client \<Rightarrow> bool" where
  "lawful_client cl \<longleftrightarrow>
     (\<forall>w n cm. cm_Get cl w n = Inr cm \<longrightarrow> cm_name cm = n)
   \<and> (\<forall>w cm e w'. cm_Update cl w cm = (Inl e, w') \<longrightarrow> w' = w)
   \<and> (\<forall>w cm cm' w'. cm_Update cl w cm = (Inr cm', w') \<longrightarrow>
        (\<exists>old. cm_Get cl w (cm_name cm) = Inr old \<and> cm_version old = cm_version cm
          \<and> cm_Get cl w' (cm_name cm) = Inr cm' \<and> cm_version old < cm_version cm'
          \<and> (\<forall>k. gomap_get (cm_data cm') k = gomap_get (cm_data cm) k)))"

lemma lawful_Get_name: "lawful_client cl \<Longrightarrow> cm_Get cl w n = Inr cm \<Longrightarrow> cm_name cm = n"
  by (simp add: lawful_client_def)

lemma lawful_Update_fails: "lawful_client cl \<Longrightarrow> cm_Update cl w cm = (Inl e, w') \<Longrightarrow> w' = w"
  unfolding lawful_client_def by blast

lemma lawful_Update_succeeds:
  assumes "lawful_client cl" and "cm_Update cl w cm = (Inr cm', w')"
  obtains old where "cm_Get cl w (cm_name cm) = Inr old" "cm_version old = cm_version cm"
    "cm_Get cl w' (cm_name cm) = Inr cm'" "cm_version old < cm_version cm'"
    "\<And>k. gomap_get (cm_data cm') k = gomap_get (cm_data cm) k"
  using assms unfolding lawful_client_def by blast

section \<open>A store that obeys the laws\<close>

record store =
  st_rev :: nat
  st_cms :: "string \<rightharpoonup> configmap"

definition empty_store :: store where
  "empty_store = \<lparr>st_rev = 1, st_cms = (\<lambda>_. None)\<rparr>"

definition st_put :: "store \<Rightarrow> configmap \<Rightarrow> (api_err + configmap) \<times> store" where
  "st_put w cm =
     (let cm' = cm\<lparr>cm_version := st_rev w\<rparr> in
      (Inr cm', \<lparr>st_rev = st_rev w + 1, st_cms = (st_cms w)(cm_name cm \<mapsto> cm')\<rparr>))"

definition st_get :: "store \<Rightarrow> string \<Rightarrow> api_err + configmap" where
  "st_get w n =
     (case st_cms w n of
        Some cm \<Rightarrow> if cm_name cm = n then Inr cm else Inl NotFound
      | None \<Rightarrow> Inl NotFound)"

definition st_create :: "store \<Rightarrow> configmap \<Rightarrow> (api_err + configmap) \<times> store" where
  "st_create w cm =
     (case st_get w (cm_name cm) of Inr _ \<Rightarrow> (Inl AlreadyExists, w) | Inl _ \<Rightarrow> st_put w cm)"

definition st_update :: "store \<Rightarrow> configmap \<Rightarrow> (api_err + configmap) \<times> store" where
  "st_update w cm =
     (case st_get w (cm_name cm) of
        Inl e \<Rightarrow> (Inl e, w)
      | Inr old \<Rightarrow>
          if cm_version old = cm_version cm \<and> cm_version old < st_rev w then st_put w cm
          else (Inl Conflict, w))"

fun patch_data :: "cm_patch \<Rightarrow> (string \<rightharpoonup> string) \<Rightarrow> (string \<rightharpoonup> string)" where
  "patch_data (MergeData kvs) f = f ++ map_of kvs"
| "patch_data (RemoveData ks) f = (\<lambda>k. if k \<in> set ks then None else f k)"

fun patch_applies :: "cm_patch \<Rightarrow> (string \<rightharpoonup> string) \<Rightarrow> bool" where
  "patch_applies (MergeData kvs) f = True"
| "patch_applies (RemoveData ks) f = list_all (\<lambda>k. f k \<noteq> None) ks"

definition st_patch :: "store \<Rightarrow> string \<Rightarrow> cm_patch \<Rightarrow> (api_err + configmap) \<times> store" where
  "st_patch w n p =
     (case st_get w n of
        Inl e \<Rightarrow> (Inl e, w)
      | Inr cm \<Rightarrow>
          let f = (case cm_data cm of None \<Rightarrow> (\<lambda>_. None) | Some f \<Rightarrow> f) in
          if patch_applies p f then st_put w (cm\<lparr>cm_data := Some (patch_data p f)\<rparr>)
          else (Inl (OtherErr ''invalid''), w))"

definition store_client :: "store cm_client" where
  "store_client = \<lparr>cm_Get = st_get, cm_Create = st_create, cm_Update = st_update, cm_Patch = st_patch\<rparr>"

lemma store_client_simps [simp]:
  "cm_Get store_client = st_get" "cm_Create store_client = st_create"
  "cm_Update store_client = st_update" "cm_Patch store_client = st_patch"
  by (simp_all add: store_client_def)

lemma st_get_name: "st_get w n = Inr cm \<Longrightarrow> cm_name cm = n"
  by (auto simp: st_get_def split: option.splits if_splits)

lemma st_get_put: "st_put w cm = (Inr cm', w') \<Longrightarrow> st_get w' (cm_name cm) = Inr cm'"
  by (auto simp: st_put_def st_get_def Let_def)

lemma lawful_store: "lawful_client store_client"
proof -
  have "\<exists>old. st_get w (cm_name cm) = Inr old \<and> cm_version old = cm_version cm
      \<and> st_get w' (cm_name cm) = Inr cm' \<and> cm_version old < cm_version cm'
      \<and> (\<forall>k. gomap_get (cm_data cm') k = gomap_get (cm_data cm) k)"
    if "st_update w cm = (Inr cm', w')" for w cm cm' w'
  proof -
    from that obtain old where old: "st_get w (cm_name cm) = Inr old" "cm_version old = cm_version cm"
      "cm_version old < st_rev w" and put: "st_put w cm = (Inr cm', w')"
      by (auto simp: st_update_def split: sum.splits if_splits)
    from put have "cm_version cm' = st_rev w" "cm_data cm' = cm_data cm"
      by (auto simp: st_put_def Let_def)
    with old st_get_put [OF put] show ?thesis by auto
  qed
  moreover have "w' = w" if "st_update w cm = (Inl e, w')" for w cm e w'
    using that by (auto simp: st_update_def st_put_def Let_def split: sum.splits if_splits)
  ultimately show ?thesis
    unfolding lawful_client_def store_client_simps using st_get_name by blast
qed

text \<open>In a store whose revision is ahead of its objects, writing back what was read succeeds.\<close>

definition st_ok :: "store \<Rightarrow> bool" where
  "st_ok w \<longleftrightarrow> (\<forall>n cm. st_get w n = Inr cm \<longrightarrow> cm_version cm < st_rev w)"

lemma st_ok_empty: "st_ok empty_store"
  by (simp add: st_ok_def empty_store_def st_get_def)

lemma st_ok_put:
  assumes "st_ok w" and "st_put w cm = (x, w')"
  shows "st_ok w'"
proof -
  have "st_get w' n = Inr c \<Longrightarrow> n \<noteq> cm_name cm \<Longrightarrow> st_get w n = Inr c" for n c
    using assms(2) by (auto simp: st_put_def Let_def st_get_def)
  moreover have "st_get w' (cm_name cm) = Inr c \<Longrightarrow> cm_version c < st_rev w'" for c
    using assms(2) by (auto simp: st_put_def Let_def st_get_def)
  moreover have "st_rev w < st_rev w'"
    using assms(2) by (auto simp: st_put_def Let_def)
  ultimately show ?thesis
    using assms(1) unfolding st_ok_def by (metis less_trans)
qed

lemma st_update_succeeds:
  assumes "st_ok w" and "st_get w n = Inr cm" and "cm_name c = n" and "cm_version c = cm_version cm"
  shows "\<exists>x w'. st_update w c = (Inr x, w') \<and> st_ok w'"
proof -
  from assms have "st_update w c = st_put w c" by (auto simp: st_update_def st_ok_def)
  moreover obtain x w' where p: "st_put w c = (Inr x, w')" by (simp add: st_put_def Let_def)
  moreover have "st_ok w'" by (rule st_ok_put [OF assms(1) p])
  ultimately show ?thesis by simp
qed

section \<open>Merge patches\<close>

text \<open>A merge patch is applied to whatever is stored: it carries no version.\<close>

definition lawful_patch :: "'w cm_client \<Rightarrow> bool" where
  "lawful_patch cl \<longleftrightarrow>
     (\<forall>w n kvs c w'. cm_Patch cl w n (MergeData kvs) = (Inr c, w') \<longrightarrow>
        (\<exists>old. cm_Get cl w n = Inr old \<and> cm_Get cl w' n = Inr c
          \<and> (\<forall>k. gomap_get (cm_data c) k = (case map_of kvs k of Some v \<Rightarrow> Some v | None \<Rightarrow> gomap_get (cm_data old) k))))"

lemma lawful_patch_store: "lawful_patch store_client"
proof -
  have "\<exists>old. st_get w n = Inr old \<and> st_get w' n = Inr c
      \<and> (\<forall>k. gomap_get (cm_data c) k = (case map_of kvs k of Some v \<Rightarrow> Some v | None \<Rightarrow> gomap_get (cm_data old) k))"
    if "st_patch w n (MergeData kvs) = (Inr c, w')" for w n kvs c w'
  proof -
    from that obtain old where old: "st_get w n = Inr old"
      and put: "st_put w (old\<lparr>cm_data := Some ((case cm_data old of None \<Rightarrow> (\<lambda>_. None) | Some f \<Rightarrow> f) ++ map_of kvs)\<rparr>) = (Inr c, w')"
      by (auto simp: st_patch_def split: sum.splits)
    from st_get_put [OF put] st_get_name [OF old] have "st_get w' n = Inr c" by simp
    moreover have "cm_data c = Some ((case cm_data old of None \<Rightarrow> (\<lambda>_. None) | Some f \<Rightarrow> f) ++ map_of kvs)"
      using put by (auto simp: st_put_def Let_def)
    then have "gomap_get (cm_data c) k = (case map_of kvs k of Some v \<Rightarrow> Some v | None \<Rightarrow> gomap_get (cm_data old) k)" for k
      by (cases "cm_data old") (simp_all add: map_add_def split: option.splits)
    ultimately show ?thesis using old by blast
  qed
  then show ?thesis unfolding lawful_patch_def store_client_simps by blast
qed

section \<open>Retrying\<close>

text \<open>
  \<^verbatim>\<open>retry.OnError\<close> of client-go: at most \<open>steps\<close> rounds; a round that ends in an error that is worth it leads to the next
  one, and when the rounds are used up the last error is returned.
\<close>

fun retry_loop :: "nat \<Rightarrow> ('e \<Rightarrow> 'w \<Rightarrow> bool) \<Rightarrow> ('w \<Rightarrow> 'e option \<times> 'w) \<Rightarrow> 'e option \<Rightarrow> 'w \<Rightarrow> 'e option \<times> 'w" where
  "retry_loop 0 retriable fn lastErr w = (lastErr, w)"
| "retry_loop (Suc n) retriable fn lastErr w =
     (case fn w of
        (None, w') \<Rightarrow> (None, w')
      | (Some e, w') \<Rightarrow> if retriable e w' then retry_loop n retriable fn (Some e) w' else (Some e, w'))"

definition retry_OnError :: "nat \<Rightarrow> ('e \<Rightarrow> 'w \<Rightarrow> bool) \<Rightarrow> ('w \<Rightarrow> 'e option \<times> 'w) \<Rightarrow> 'w \<Rightarrow> 'e option \<times> 'w" where
  "retry_OnError steps retriable fn w = retry_loop steps retriable fn None w"

lemma retry_once:
  assumes "0 < steps" and "\<And>e w w'. fn w = (Some e, w') \<Longrightarrow> \<not> retriable e w'"
  shows "retry_OnError steps retriable fn w = fn w"
  using assms by (cases steps) (auto simp: retry_OnError_def split: prod.splits option.splits)

end
