(* ===== verification/Dhcp.thy ===== *)
theory Dhcp
  imports IP_Allocator Base64 Kube_Client
begin

text \<open>
  The DHCP component, \<^verbatim>\<open>src/pkg/handler/dhcp.go\<close>: two address ranges whose bitmaps live, base64
  encoded, in the ConfigMap of the traffic manager.  Every operation reads the ConfigMap, works on the
  restored ranges and writes the ConfigMap back.  Other clients may write it in between; what they do
  is the parameter \<open>mid\<close> of the operations, a function on worlds.  The state machine at the end runs
  any number of clients whose reads and writes interleave.
\<close>

section \<open>Manager and configuration\<close>

datatype dhcp_err =
    GetFailed api_err
  | PatchReported "api_err option"
  | CreateFailed api_err
  | UpdateFailed api_err
  | RangeFailed range_err
  | InterfaceFailed string
  | Base64Failed
  | NoData

record DHCPManager =
  dm_cidr :: ipnet
  dm_cidr6 :: ipnet
  dm_namespace :: string

definition NewDHCPManager :: "string \<Rightarrow> DHCPManager" where
  "NewDHCPManager namespace =
     \<lparr>dm_cidr = \<lparr>net_IP = RouterIP, net_Mask = net_Mask CIDR\<rparr>,
      dm_cidr6 = \<lparr>net_IP = RouterIP6, net_Mask = net_Mask CIDR6\<rparr>,
      dm_namespace = namespace\<rparr>"

definition initDHCP :: "'w cm_client \<Rightarrow> DHCPManager \<Rightarrow> 'w \<Rightarrow> dhcp_err option \<times> 'w" where
  "initDHCP cl d w =
     (case cm_Get cl w ConfigMapPodTrafficManager of
        Inr cm \<Rightarrow>
          (case gomap_get (cm_data cm) KeyEnvoy of
             None \<Rightarrow>
               (case cm_Patch cl w (cm_name cm) (MergeData [(KeyEnvoy, '''')]) of
                  (Inl e, w') \<Rightarrow> (Some (PatchReported (Some e)), w')
                | (Inr _, w') \<Rightarrow> (Some (PatchReported None), w'))
           | Some _ \<Rightarrow> (None, w))
      | Inl e \<Rightarrow>
          if e \<noteq> NotFound then (Some (GetFailed e), w)
          else
            (case cm_Create cl w
                \<lparr>cm_name = ConfigMapPodTrafficManager, cm_namespace = dm_namespace d, cm_version = 0,
                 cm_data = Some [KeyEnvoy \<mapsto> '''', KeyRefCount \<mapsto> ''0'']\<rparr> of
               (Inl e', w') \<Rightarrow> (Some (CreateFailed e'), w')
             | (Inr _, w') \<Rightarrow> (None, w')))"

section \<open>One transaction on the ConfigMap\<close>

text \<open>\<open>cm.Data[key]\<close> of a missing key is the empty string.\<close>

definition data_at :: "(string, string) gomap \<Rightarrow> string \<Rightarrow> string" where
  "data_at m k = (case gomap_get m k of None \<Rightarrow> [] | Some v \<Rightarrow> v)"

text \<open>The range is restored only when its text decodes; otherwise it stays empty.\<close>

definition load_range :: "ipnet \<Rightarrow> string \<Rightarrow> range_err + ip_range" where
  "load_range cidr txt =
     (case b64_decode txt of
        None \<Rightarrow> Inr (NewAllocatorCIDRRange cidr)
      | Some bytes \<Rightarrow>
          (case range_Restore cidr bytes (NewAllocatorCIDRRange cidr) of
             (Some e, _) \<Rightarrow> Inl e
           | (None, r) \<Rightarrow> Inr r))"

type_synonym 'r range_action = "ip_range \<Rightarrow> ip_range \<Rightarrow> (dhcp_err + 'r) \<times> ip_range \<times> ip_range"

definition dhcp_transform :: "DHCPManager \<Rightarrow> 'r range_action \<Rightarrow> configmap \<Rightarrow> dhcp_err + 'r \<times> configmap" where
  "dhcp_transform d f cm =
     (let m = (case cm_data cm of None \<Rightarrow> (\<lambda>_. None) | Some m \<Rightarrow> m) in
      case load_range (dm_cidr d) (data_at (Some m) KeyDHCP) of
        Inl e \<Rightarrow> Inl (RangeFailed e)
      | Inr dhcp \<Rightarrow>
          (case load_range (dm_cidr6 d) (data_at (Some m) KeyDHCP6) of
             Inl e \<Rightarrow> Inl (RangeFailed e)
           | Inr dhcp6 \<Rightarrow>
               (case f dhcp dhcp6 of
                  (Inl e, _) \<Rightarrow> Inl e
                | (Inr r, dhcp', dhcp6') \<Rightarrow>
                    Inr (r, cm\<lparr>cm_data :=
                      Some (m(KeyDHCP \<mapsto> b64_encode (snd (range_Snapshot dhcp')),
                              KeyDHCP6 \<mapsto> b64_encode (snd (range_Snapshot dhcp6'))))\<rparr>))))"

text \<open>From the ConfigMap that was read to the end: the ranges, the action and the write.\<close>

definition finish_update ::
  "'w cm_client \<Rightarrow> DHCPManager \<Rightarrow> 'r range_action \<Rightarrow> configmap \<Rightarrow> 'w \<Rightarrow> (dhcp_err + 'r) \<times> 'w" where
  "finish_update cl d f cm w =
     (case dhcp_transform d f cm of
        Inl e \<Rightarrow> (Inl e, w)
      | Inr (r, cm') \<Rightarrow>
          (case cm_Update cl w cm' of
             (Inl e, w') \<Rightarrow> (Inl (UpdateFailed e), w')
           | (Inr _, w') \<Rightarrow> (Inr r, w')))"

definition updateDHCPConfigMap ::
  "'w cm_client \<Rightarrow> ('w \<Rightarrow> 'w) \<Rightarrow> DHCPManager \<Rightarrow> 'r range_action \<Rightarrow> 'w \<Rightarrow> (dhcp_err + 'r) \<times> 'w" where
  "updateDHCPConfigMap cl mid d f w =
     (case cm_Get cl w ConfigMapPodTrafficManager of
        Inl e \<Rightarrow> (Inl (GetFailed e), w)
      | Inr cm \<Rightarrow> finish_update cl d f cm (mid w))"

section \<open>Renting and releasing\<close>

text \<open>\<open>isAlreadyExistedFunc\<close>: the address is on an interface of this host.\<close>

definition isAlreadyExisted :: "ip list \<Rightarrow> ip \<Rightarrow> bool" where
  "isAlreadyExisted addrs a = (\<exists>b\<in>set addrs. ip_Equal b a)"

lemma range_AllocateNext_progress:
  "range_AllocateNext r = (Inr a, q) \<Longrightarrow>
   bm_max (rg_alloc q) = bm_max (rg_alloc r) \<and> bm_count (rg_alloc q) = bm_count (rg_alloc r) + 1
   \<and> bm_count (rg_alloc r) < bm_max (rg_alloc r)"
  by (auto simp: range_AllocateNext_def split: option.splits dest!: bm_AllocateNext_Some)

text \<open>
  \<^verbatim>\<open>for { if v, err = r.AllocateNext(); err != nil { return err }; if !exists(v) { break } }\<close>.
  Every round takes a slot of the range, so the loop ends.
\<close>

function rent_loop :: "(ip \<Rightarrow> bool) \<Rightarrow> ip_range \<Rightarrow> (range_err + ip) \<times> ip_range" where
  "rent_loop exists r =
     (case range_AllocateNext r of
        (Inl e, r') \<Rightarrow> (Inl e, r')
      | (Inr a, r') \<Rightarrow> if exists a then rent_loop exists r' else (Inr a, r'))"
  by pat_completeness auto
termination
  by (relation "measure (\<lambda>(ex, r). nat (bm_max (rg_alloc r) - bm_count (rg_alloc r)))")
    (auto dest!: sym [THEN range_AllocateNext_progress])

declare rent_loop.simps [simp del]

definition rent_action :: "DHCPManager \<Rightarrow> ip list \<Rightarrow> (ipnet \<times> ipnet) range_action" where
  "rent_action d addrs ipv4 ipv6 =
     (case rent_loop (isAlreadyExisted addrs) ipv4 of
        (Inl e, ipv4') \<Rightarrow> (Inl (RangeFailed e), ipv4', ipv6)
      | (Inr v4, ipv4') \<Rightarrow>
          (case rent_loop (isAlreadyExisted addrs) ipv6 of
             (Inl e, ipv6') \<Rightarrow> (Inl (RangeFailed e), ipv4', ipv6')
           | (Inr v6, ipv6') \<Rightarrow>
               (Inr (\<lparr>net_IP = v4, net_Mask = net_Mask (dm_cidr d)\<rparr>,
                     \<lparr>net_IP = v6, net_Mask = net_Mask (dm_cidr6 d)\<rparr>), ipv4', ipv6')))"

text \<open>The addresses of the host come from the operating system: \<open>net.InterfaceAddrs\<close> may fail.\<close>

definition RentIPBaseNICAddress ::
  "'w cm_client \<Rightarrow> ('w \<Rightarrow> 'w) \<Rightarrow> DHCPManager \<Rightarrow> string + ip list \<Rightarrow> 'w \<Rightarrow> (dhcp_err + ipnet \<times> ipnet) \<times> 'w" where
  "RentIPBaseNICAddress cl mid d nics w =
     (case nics of
        Inl e \<Rightarrow> (Inl (InterfaceFailed e), w)
      | Inr addrs \<Rightarrow> updateDHCPConfigMap cl mid d (rent_action d addrs) w)"

definition RentIPRandom ::
  "'w cm_client \<Rightarrow> ('w \<Rightarrow> 'w) \<Rightarrow> DHCPManager \<Rightarrow> string + ip list \<Rightarrow> 'w \<Rightarrow> (dhcp_err + ipnet \<times> ipnet) \<times> 'w" where
  "RentIPRandom cl mid d nics w =
     (case nics of
        Inl e \<Rightarrow> (Inl (InterfaceFailed e), w)
      | Inr addrs \<Rightarrow> updateDHCPConfigMap cl mid d (rent_action d addrs) w)"

fun release_action :: "ip list \<Rightarrow> unit range_action" where
  "release_action [] ipv4 ipv6 = (Inr (), ipv4, ipv6)"
| "release_action (a # as) ipv4 ipv6 =
     (if To4 a \<noteq> [] then release_action as (range_Release a ipv4) ipv6
      else release_action as ipv4 (range_Release a ipv6))"

definition ReleaseIP ::
  "'w cm_client \<Rightarrow> ('w \<Rightarrow> 'w) \<Rightarrow> DHCPManager \<Rightarrow> ip list \<Rightarrow> 'w \<Rightarrow> (dhcp_err + unit) \<times> 'w" where
  "ReleaseIP cl mid d ips w =
     (if ips = [] then (Inr (), w) else updateDHCPConfigMap cl mid d (release_action ips) w)"

section \<open>Other uses of the ConfigMap\<close>

definition finish_set ::
  "'w cm_client \<Rightarrow> string \<Rightarrow> string \<Rightarrow> configmap \<Rightarrow> 'w \<Rightarrow> (dhcp_err + unit) \<times> 'w" where
  "finish_set cl key val cm w =
     (let m = (case cm_data cm of None \<Rightarrow> (\<lambda>_. None) | Some m \<Rightarrow> m) in
      case cm_Update cl w (cm\<lparr>cm_data := Some (m(key \<mapsto> val))\<rparr>) of
        (Inl e, w') \<Rightarrow> (Inl (UpdateFailed e), w')
      | (Inr _, w') \<Rightarrow> (Inr (), w'))"

definition dhcp_Set ::
  "'w cm_client \<Rightarrow> ('w \<Rightarrow> 'w) \<Rightarrow> string \<Rightarrow> string \<Rightarrow> 'w \<Rightarrow> (dhcp_err + unit) \<times> 'w" where
  "dhcp_Set cl mid key val w =
     (case cm_Get cl w ConfigMapPodTrafficManager of
        Inl e \<Rightarrow> (Inl (GetFailed e), w)
      | Inr cm \<Rightarrow> finish_set cl key val cm (mid w))"

definition dhcp_Get :: "'w cm_client \<Rightarrow> string \<Rightarrow> 'w \<Rightarrow> dhcp_err + string" where
  "dhcp_Get cl key w =
     (case cm_Get cl w ConfigMapPodTrafficManager of
        Inl e \<Rightarrow> Inl (GetFailed e)
      | Inr cm \<Rightarrow> (case gomap_get (cm_data cm) key of None \<Rightarrow> Inl NoData | Some v \<Rightarrow> Inr v))"

text \<open>\<open>ForEach\<close>: the addresses passed to the callback.\<close>

definition dhcp_ForEach :: "'w cm_client \<Rightarrow> DHCPManager \<Rightarrow> 'w \<Rightarrow> dhcp_err + ip list" where
  "dhcp_ForEach cl d w =
     (case cm_Get cl w ConfigMapPodTrafficManager of
        Inl e \<Rightarrow> Inl (GetFailed e)
      | Inr cm \<Rightarrow>
          (case b64_decode (data_at (cm_data cm) KeyDHCP) of
             None \<Rightarrow> Inl Base64Failed
           | Some bytes \<Rightarrow>
               (case range_Restore (dm_cidr d) bytes (NewAllocatorCIDRRange (dm_cidr d)) of
                  (Some e, _) \<Rightarrow> Inl (RangeFailed e)
                | (None, r) \<Rightarrow> Inr (range_ForEach r))))"

section \<open>The ranges a ConfigMap stands for\<close>

definition pool_of :: "ipnet \<Rightarrow> string \<Rightarrow> ip_range" where
  "pool_of cidr txt =
     (let r = NewAllocatorCIDRRange cidr;
          bits = (case b64_decode txt of None \<Rightarrow> 0 | Some bytes \<Rightarrow> be_nat bytes)
      in r\<lparr>rg_alloc := (rg_alloc r)\<lparr>bm_allocated := bits, bm_count := countBits bits\<rparr>\<rparr>)"

text \<open>Restoring never fails: the range is restored into a new range over the same network.\<close>

lemma load_range_pool: "load_range cidr txt = Inr (pool_of cidr txt)"
proof (cases "b64_decode txt")
  case None
  have "countBits 0 = 0" by (simp add: countBits_card)
  with None show ?thesis
    by (simp add: load_range_def pool_of_def NewAllocatorCIDRRange_def NewContiguousAllocationMap_def Let_def)
next
  case (Some bytes)
  then show ?thesis
    by (simp add: load_range_def pool_of_def range_Restore_self NewAllocatorCIDRRange_def
        NewContiguousAllocationMap_def Let_def bm_Restore_def)
qed

lemma pool_of_snapshot:
  assumes "range_over cidr r"
  shows "pool_of cidr (b64_encode (snd (range_Snapshot r))) = r"
proof -
  have "load_range cidr (b64_encode (snd (range_Snapshot r))) = Inr r"
    by (simp add: load_range_def range_Restore_Snapshot [OF assms])
  then show ?thesis by (simp add: load_range_pool)
qed

lemma pool_of_over: "range_ok (pool_of cidr txt) \<Longrightarrow> range_over cidr (pool_of cidr txt)"
  by (simp add: range_over_def) (simp add: pool_of_def NewAllocatorCIDRRange_def Let_def)

definition pool4 :: "DHCPManager \<Rightarrow> configmap \<Rightarrow> ip_range" where
  "pool4 d cm = pool_of (dm_cidr d) (data_at (cm_data cm) KeyDHCP)"

definition pool6 :: "DHCPManager \<Rightarrow> configmap \<Rightarrow> ip_range" where
  "pool6 d cm = pool_of (dm_cidr6 d) (data_at (cm_data cm) KeyDHCP6)"

text \<open>A ConfigMap whose bitmaps stay within their ranges.\<close>

definition cm_wf :: "DHCPManager \<Rightarrow> configmap \<Rightarrow> bool" where
  "cm_wf d cm \<longleftrightarrow> range_ok (pool4 d cm) \<and> range_ok (pool6 d cm)"

lemma cm_wf_over:
  assumes "cm_wf d cm"
  shows "range_over (dm_cidr d) (pool4 d cm)" "range_over (dm_cidr6 d) (pool6 d cm)"
  using assms pool_of_over by (auto simp: cm_wf_def pool4_def pool6_def)

lemma pools_by_data:
  "(\<And>k. gomap_get (cm_data cm) k = gomap_get (cm_data cm') k) \<Longrightarrow> pool4 d cm = pool4 d cm' \<and> pool6 d cm = pool6 d cm'"
  by (simp add: pool4_def pool6_def data_at_def)

lemma data_at_nil: "data_at (Some (case m of None \<Rightarrow> (\<lambda>_. None) | Some f \<Rightarrow> f)) k = data_at m k"
  by (cases m) (auto simp: data_at_def)

text \<open>What a transaction computes, in terms of the two pools.\<close>

lemma dhcp_transform_pools:
  "dhcp_transform d f cm =
     (case f (pool4 d cm) (pool6 d cm) of
        (Inl e, _) \<Rightarrow> Inl e
      | (Inr r, p4, p6) \<Rightarrow>
          Inr (r, cm\<lparr>cm_data :=
            Some ((case cm_data cm of None \<Rightarrow> (\<lambda>_. None) | Some m \<Rightarrow> m)
              (KeyDHCP \<mapsto> b64_encode (snd (range_Snapshot p4)), KeyDHCP6 \<mapsto> b64_encode (snd (range_Snapshot p6))))\<rparr>))"
  by (simp add: dhcp_transform_def Let_def load_range_pool data_at_nil pool4_def pool6_def)

lemma dhcp_transform_Inr:
  assumes "dhcp_transform d f cm = Inr (r, cm')"
  obtains p4 p6 where "f (pool4 d cm) (pool6 d cm) = (Inr r, p4, p6)"
    "cm_name cm' = cm_name cm" "cm_version cm' = cm_version cm"
    "range_over (dm_cidr d) p4 \<Longrightarrow> pool4 d cm' = p4"
    "range_over (dm_cidr6 d) p6 \<Longrightarrow> pool6 d cm' = p6"
    "\<And>k. k \<noteq> KeyDHCP \<Longrightarrow> k \<noteq> KeyDHCP6 \<Longrightarrow> gomap_get (cm_data cm') k = gomap_get (cm_data cm) k"
proof -
  from assms obtain p4 p6 where f: "f (pool4 d cm) (pool6 d cm) = (Inr r, p4, p6)"
    and cm': "cm' = cm\<lparr>cm_data := Some ((case cm_data cm of None \<Rightarrow> (\<lambda>_. None) | Some m \<Rightarrow> m)
      (KeyDHCP \<mapsto> b64_encode (snd (range_Snapshot p4)), KeyDHCP6 \<mapsto> b64_encode (snd (range_Snapshot p6))))\<rparr>"
    by (auto simp: dhcp_transform_pools split: prod.splits sum.splits)
  show ?thesis
  proof (rule that [OF f])
    show "pool4 d cm' = p4" if "range_over (dm_cidr d) p4"
      using pool_of_snapshot [OF that] by (simp add: pool4_def cm' data_at_def)
    show "pool6 d cm' = p6" if "range_over (dm_cidr6 d) p6"
      using pool_of_snapshot [OF that] by (simp add: pool6_def cm' data_at_def)
    show "gomap_get (cm_data cm') k = gomap_get (cm_data cm) k" if "k \<noteq> KeyDHCP" "k \<noteq> KeyDHCP6" for k
      using that by (auto simp: cm' split: option.splits)
  qed (simp_all add: cm')
qed

section \<open>The rent loop\<close>

lemma rent_loop_Inr:
  assumes "range_over n r" and "rent_loop ex r = (Inr a, r')"
  shows "range_over n r' \<and> \<not> ex a \<and> (\<exists>k. k < nat (rg_max r) \<and> a = range_addr r k \<and> k \<notin> range_used r
    \<and> insert k (range_used r) \<subseteq> range_used r'
    \<and> (\<forall>j\<in>range_used r'. j \<in> range_used r \<or> j = k \<or> ex (range_addr r j)))"
  using assms
proof (induction ex r rule: rent_loop.induct)
  case (1 ex r)
  from 1(3) rent_loop.simps [of ex r] obtain b q where nx: "range_AllocateNext r = (Inr b, q)"
    by (cases "range_AllocateNext r"; cases "fst (range_AllocateNext r)") auto
  have q: "range_over n q" by (rule range_over_AllocateNext [OF 1(2) nx])
  have addr: "range_addr q = range_addr r" by (rule range_over_addr [OF q 1(2)])
  have mx: "rg_max q = rg_max r" using q 1(2) by (simp add: range_over_def)
  obtain k where k: "b = range_addr r k" "k < nat (rg_max r)" "k \<notin> range_used r"
    "range_used q = insert k (range_used r)"
    by (rule range_AllocateNext_Inr [OF range_over_ok [OF 1(2)] nx]) blast
  show ?case
  proof (cases "ex b")
    case True
    with 1(3) rent_loop.simps [of ex r] nx have "rent_loop ex q = (Inr a, r')" by simp
    from 1(1) [OF nx [symmetric] refl True q this] obtain j where
      "range_over n r'" "\<not> ex a" "j < nat (rg_max r)" "a = range_addr r j" "j \<notin> range_used q"
      "insert j (range_used q) \<subseteq> range_used r'"
      "\<forall>i\<in>range_used r'. i \<in> range_used q \<or> i = j \<or> ex (range_addr r i)"
      unfolding addr mx by blast
    with k True show ?thesis by (intro conjI exI [of _ j]) auto
  next
    case False
    with 1(3) rent_loop.simps [of ex r] nx have "a = b" "r' = q" by auto
    with k q False show ?thesis by auto
  qed
qed

lemma rent_loop_Inl:
  assumes "range_over n r" and "rent_loop ex r = (Inl e, r')"
  shows "e = ErrFull \<and> (\<forall>j<nat (rg_max r). j \<in> range_used r \<or> ex (range_addr r j))"
  using assms
proof (induction ex r rule: rent_loop.induct)
  case (1 ex r)
  show ?case
  proof (cases "range_next_slot r")
    case None
    with 1(3) rent_loop.simps [of ex r] have "e = ErrFull" by (simp add: range_AllocateNext_slot)
    moreover have "range_used r = {..<nat (rg_max r)}"
      by (rule range_pool.next_None [OF range_over_ok [OF 1(2)] None])
    ultimately show ?thesis by simp
  next
    case (Some p)
    obtain k q where p: "range_next_slot r = Some (k, q)" using Some by (cases p) auto
    then have nx: "range_AllocateNext r = (Inr (range_addr r k), q)" by (simp add: range_AllocateNext_slot)
    have q: "range_over n q" by (rule range_over_AllocateNext [OF 1(2) nx])
    have addr: "range_addr q = range_addr r" by (rule range_over_addr [OF q 1(2)])
    have mx: "rg_max q = rg_max r" using q 1(2) by (simp add: range_over_def)
    have used: "range_used q = insert k (range_used r)"
      using range_pool.next_Some [OF range_over_ok [OF 1(2)] p] by simp
    from 1(3) rent_loop.simps [of ex r] nx have ex: "ex (range_addr r k)" and "rent_loop ex q = (Inl e, r')"
      by (auto split: if_splits)
    from 1(1) [OF nx [symmetric] refl ex q this(2)] show ?thesis
      unfolding addr mx used using ex by blast
  qed
qed

section \<open>The two ranges of the manager\<close>

definition base4 :: nat where "base4 = 281474439708773"
definition base6 :: nat where "base6 = 319014718988379809496913694467282672026"

lemma manager_ranges:
  "rg_base (NewAllocatorCIDRRange (dm_cidr (NewDHCPManager ns))) = base4"
  "rg_max (NewAllocatorCIDRRange (dm_cidr (NewDHCPManager ns))) = 65534"
  "rg_base (NewAllocatorCIDRRange (dm_cidr6 (NewDHCPManager ns))) = base6"
  "rg_max (NewAllocatorCIDRRange (dm_cidr6 (NewDHCPManager ns))) = 65534"
proof -
  have "bigForIP RouterIP = base4 - 1" "bigForIP RouterIP6 = base6 - 1"
    "RangeSize \<lparr>net_IP = RouterIP, net_Mask = net_Mask CIDR\<rparr> = 65536"
    "RangeSize \<lparr>net_IP = RouterIP6, net_Mask = net_Mask CIDR6\<rparr> = 65536"
    by code_simp+
  then show
    "rg_base (NewAllocatorCIDRRange (dm_cidr (NewDHCPManager ns))) = base4"
    "rg_max (NewAllocatorCIDRRange (dm_cidr (NewDHCPManager ns))) = 65534"
    "rg_base (NewAllocatorCIDRRange (dm_cidr6 (NewDHCPManager ns))) = base6"
    "rg_max (NewAllocatorCIDRRange (dm_cidr6 (NewDHCPManager ns))) = 65534"
    by (simp_all add: NewAllocatorCIDRRange_def NewDHCPManager_def Let_def base4_def base6_def)
qed

lemma manager_over:
  assumes "range_over (dm_cidr (NewDHCPManager ns)) r"
  shows "rg_base r = base4" "rg_max r = 65534"
  using assms manager_ranges(1,2) [of ns]
  by (simp_all add: range_over_def NewAllocatorCIDRRange_def Let_def)

lemma manager_over6:
  assumes "range_over (dm_cidr6 (NewDHCPManager ns)) r"
  shows "rg_base r = base6" "rg_max r = 65534"
  using assms manager_ranges(3,4) [of ns]
  by (simp_all add: range_over_def NewAllocatorCIDRRange_def Let_def)

text \<open>The addresses of the IPv4 range: past 223.254.255.255 they continue in 223.255.0.0/16.\<close>

lemma addr4:
  assumes "k < 65534"
  shows "To4 (addIPOffset base4 k) = [223, if k < 65435 then 254 else 255] @ be_fixed 2 (101 + k)"
proof -
  have top: "(base4 + k) div 4294967296 = 65535"
    using assms by (simp add: base4_def)
  have "addIPOffset base4 k = be_fixed 12 65535 @ be_fixed 4 (base4 + k)"
    using be_fixed_add [of 12 4 "base4 + k"] by (simp add: addIPOffset_fixed top)
  moreover have "be_fixed 12 65535 = v4InV6Prefix" by code_simp
  ultimately have t: "To4 (addIPOffset base4 k) = be_fixed 4 (base4 + k)"
    by (simp add: To4_def v4InV6Prefix_def)
  have "(base4 + k) div 65536 = (if k < 65435 then 4294959102 else 4294959103)"
    using assms by (auto simp: base4_def)
  moreover have "be_fixed 2 4294959102 = [223, 254]" "be_fixed 2 4294959103 = [223, 255]"
    by code_simp+
  moreover have "be_fixed 2 (base4 + k) = be_fixed 2 (101 + k)"
  proof (rule be_nat_inj)
    have "base4 + k = 101 + k + 4294959102 * 65536" by (simp add: base4_def)
    then have "(base4 + k) mod 65536 = (101 + k) mod 65536" by (simp only: mod_mult_self1)
    then show "be_nat (be_fixed 2 (base4 + k)) = be_nat (be_fixed 2 (101 + k))"
      by (simp add: be_nat_fixed)
  qed simp
  ultimately show ?thesis
    using be_fixed_add [of 2 2 "base4 + k"] by (auto simp: t)
qed

lemma addr6:
  assumes "k < 65534"
  shows "To4 (addIPOffset base6 k) = []"
proof -
  have "base6 div 4294967296 \<le> (base6 + k) div 4294967296" by (rule div_le_mono) simp
  moreover have "65535 < base6 div 4294967296" by (simp add: base6_def)
  moreover have "(base6 + k) div 4294967296 < 256 ^ 12" using assms by (simp add: base6_def)
  ultimately have "be_nat (be_fixed 12 ((base6 + k) div 4294967296)) \<noteq> 65535"
    by (simp only: be_nat_fixed mod_less)
  moreover have "be_nat v4InV6Prefix = 65535" by code_simp
  ultimately have "be_fixed 12 ((base6 + k) div 4294967296) \<noteq> v4InV6Prefix" by metis
  moreover have "take 12 (addIPOffset base6 k) = be_fixed 12 ((base6 + k) div 4294967296)"
    using be_fixed_add [of 12 4 "base6 + k"] by (simp add: addIPOffset_fixed)
  ultimately show ?thesis by (simp add: To4_def)
qed

section \<open>Leases\<close>

definition lease4 :: "DHCPManager \<Rightarrow> configmap \<Rightarrow> ip set" where
  "lease4 d cm = range_addr (pool4 d cm) ` range_used (pool4 d cm)"

definition lease6 :: "DHCPManager \<Rightarrow> configmap \<Rightarrow> ip set" where
  "lease6 d cm = range_addr (pool6 d cm) ` range_used (pool6 d cm)"

lemma leases_by_data:
  assumes "\<And>k. gomap_get (cm_data cm) k = gomap_get (cm_data cm') k"
  shows "lease4 d cm = lease4 d cm'" "lease6 d cm = lease6 d cm'" "cm_wf d cm = cm_wf d cm'"
  using pools_by_data [OF assms, of d] by (simp_all add: lease4_def lease6_def cm_wf_def)

text \<open>A slot that the rent loop takes is an address that was not leased.\<close>

lemma rent_loop_lease:
  assumes "range_over n r" and "rent_loop ex r = (Inr a, r')"
  shows "range_over n r'" "\<not> ex a" "a \<notin> range_addr r ` range_used r"
    "insert a (range_addr r ` range_used r) \<subseteq> range_addr r' ` range_used r'"
    "range_addr r' ` range_used r' \<subseteq> insert a (range_addr r ` range_used r) \<union> {b. ex b}"
proof -
  from rent_loop_Inr [OF assms] obtain k where over: "range_over n r'" and a: "\<not> ex a" "a = range_addr r k"
    and k: "k < nat (rg_max r)" "k \<notin> range_used r" "insert k (range_used r) \<subseteq> range_used r'"
    and more: "\<forall>j\<in>range_used r'. j \<in> range_used r \<or> j = k \<or> ex (range_addr r j)"
    by blast
  have addr: "range_addr r' = range_addr r" by (rule range_over_addr [OF over assms(1)])
  show "a \<notin> range_addr r ` range_used r"
    using range_pool.addr_inj [OF range_over_ok [OF assms(1)] _ k(1)] k(2)
      range_pool.used_bound [OF range_over_ok [OF assms(1)]] a(2)
    by fastforce
  show "range_over n r'" "\<not> ex a" using over a by auto
  show "insert a (range_addr r ` range_used r) \<subseteq> range_addr r' ` range_used r'"
    using k(3) a(2) addr by auto
  show "range_addr r' ` range_used r' \<subseteq> insert a (range_addr r ` range_used r) \<union> {b. ex b}"
    using more a(2) addr by auto
qed

lemma rent_action_Inr:
  assumes "rent_action d addrs p4 p6 = (Inr (n4, n6), q4, q6)"
  shows "rent_loop (isAlreadyExisted addrs) p4 = (Inr (net_IP n4), q4)"
    "rent_loop (isAlreadyExisted addrs) p6 = (Inr (net_IP n6), q6)"
    "net_Mask n4 = net_Mask (dm_cidr d)" "net_Mask n6 = net_Mask (dm_cidr6 d)"
  using assms by (auto simp: rent_action_def split: prod.splits sum.splits)

text \<open>The effect of a rental on the ConfigMap.\<close>

lemma rent_transform:
  assumes wf: "cm_wf d cm" and t: "dhcp_transform d (rent_action d addrs) cm = Inr ((n4, n6), cm')"
  shows "cm_wf d cm'" "cm_name cm' = cm_name cm" "cm_version cm' = cm_version cm"
    "net_IP n4 \<notin> lease4 d cm" "net_IP n6 \<notin> lease6 d cm"
    "insert (net_IP n4) (lease4 d cm) \<subseteq> lease4 d cm'" "insert (net_IP n6) (lease6 d cm) \<subseteq> lease6 d cm'"
    "lease4 d cm' \<subseteq> insert (net_IP n4) (lease4 d cm) \<union> {a. isAlreadyExisted addrs a}"
    "lease6 d cm' \<subseteq> insert (net_IP n6) (lease6 d cm) \<union> {a. isAlreadyExisted addrs a}"
    "\<not> isAlreadyExisted addrs (net_IP n4)" "\<not> isAlreadyExisted addrs (net_IP n6)"
proof -
  obtain q4 q6 where f: "rent_action d addrs (pool4 d cm) (pool6 d cm) = (Inr (n4, n6), q4, q6)"
    and same: "cm_name cm' = cm_name cm" "cm_version cm' = cm_version cm"
    and p4: "range_over (dm_cidr d) q4 \<Longrightarrow> pool4 d cm' = q4"
    and p6: "range_over (dm_cidr6 d) q6 \<Longrightarrow> pool6 d cm' = q6"
    by (rule dhcp_transform_Inr [OF t]) blast
  note l4 = rent_loop_lease [OF cm_wf_over(1) [OF wf] rent_action_Inr(1) [OF f]]
  note l6 = rent_loop_lease [OF cm_wf_over(2) [OF wf] rent_action_Inr(2) [OF f]]
  from p4 [OF l4(1)] p6 [OF l6(1)] have pools: "pool4 d cm' = q4" "pool6 d cm' = q6" .
  show "cm_wf d cm'"
    using l4(1) l6(1) by (simp add: cm_wf_def pools range_over_ok)
  show "cm_name cm' = cm_name cm" "cm_version cm' = cm_version cm" by (fact same)+
  show "net_IP n4 \<notin> lease4 d cm" "net_IP n6 \<notin> lease6 d cm"
    using l4(3) l6(3) by (simp_all add: lease4_def lease6_def)
  show "insert (net_IP n4) (lease4 d cm) \<subseteq> lease4 d cm'" "insert (net_IP n6) (lease6 d cm) \<subseteq> lease6 d cm'"
    "lease4 d cm' \<subseteq> insert (net_IP n4) (lease4 d cm) \<union> {a. isAlreadyExisted addrs a}"
    "lease6 d cm' \<subseteq> insert (net_IP n6) (lease6 d cm) \<union> {a. isAlreadyExisted addrs a}"
    using l4(4,5) l6(4,5) unfolding lease4_def lease6_def pools by blast+
  show "\<not> isAlreadyExisted addrs (net_IP n4)" "\<not> isAlreadyExisted addrs (net_IP n6)"
    using l4(2) l6(2) by auto
qed

text \<open>The effect of a release: only the released address can lose its lease.\<close>

lemma range_Release_lease:
  assumes "range_over n r" and "a \<in> range_addr r ` range_used r"
  shows "range_over n (range_Release a r)"
    "range_addr (range_Release a r) ` range_used (range_Release a r) =
      range_addr r ` range_used r - (if net_Contains n a then {a} else {})"
proof -
  from assms obtain k where k: "k \<in> range_used r" "a = range_addr r k" by auto
  have ok: "range_ok r" by (rule range_over_ok [OF assms(1)])
  have b: "range_used r \<subseteq> {..<nat (rg_max r)}" by (rule range_pool.used_bound [OF ok])
  show "range_over n (range_Release a r)" by (rule range_over_Release [OF assms(1)])
  have rel: "range_Release a r = (if net_Contains n a then range_release_slot k r else r)"
    using range_Release_addr [OF ok, of k] k b assms(1) by (auto simp: range_over_def)
  have inj: "inj_on (range_addr r) (range_used r)"
    using range_pool.addr_inj [OF ok] b by (meson inj_onI lessThan_iff subsetD)
  have "range_addr r ` (range_used r - {k}) = range_addr r ` range_used r - {a}"
    using inj k by (auto simp: inj_on_def)
  then show "range_addr (range_Release a r) ` range_used (range_Release a r) =
      range_addr r ` range_used r - (if net_Contains n a then {a} else {})"
    using range_pool.release_ok [OF ok, of k] by (simp add: rel range_pool.addr_release)
qed

lemma lease4_is_v4:
  assumes "cm_wf (NewDHCPManager ns) cm" and "a \<in> lease4 (NewDHCPManager ns) cm"
  shows "To4 a \<noteq> []"
proof -
  let ?p = "pool4 (NewDHCPManager ns) cm"
  note over = cm_wf_over(1) [OF assms(1)]
  from assms(2) obtain k where k: "k \<in> range_used ?p" "a = range_addr ?p k" by (auto simp: lease4_def)
  with range_pool.used_bound [OF range_over_ok [OF over]] manager_over [OF over]
  have "k < 65534" "a = addIPOffset base4 k" by (auto simp: range_addr_def)
  then show ?thesis by (simp add: addr4)
qed

lemma lease6_is_v6:
  assumes "cm_wf (NewDHCPManager ns) cm" and "a \<in> lease6 (NewDHCPManager ns) cm"
  shows "To4 a = []"
proof -
  let ?p = "pool6 (NewDHCPManager ns) cm"
  note over = cm_wf_over(2) [OF assms(1)]
  from assms(2) obtain k where k: "k \<in> range_used ?p" "a = range_addr ?p k" by (auto simp: lease6_def)
  with range_pool.used_bound [OF range_over_ok [OF over]] manager_over6 [OF over]
  have "k < 65534" "a = addIPOffset base6 k" by (auto simp: range_addr_def)
  then show ?thesis by (simp add: addr6)
qed

lemma release_transform:
  fixes ns defines "d \<equiv> NewDHCPManager ns"
  assumes wf: "cm_wf d cm" and a: "a \<in> lease4 d cm" and b: "b \<in> lease6 d cm"
    and t: "dhcp_transform d (release_action [a, b]) cm = Inr ((), cm')"
  shows "cm_wf d cm'" "cm_name cm' = cm_name cm" "cm_version cm' = cm_version cm"
    "lease4 d cm' = lease4 d cm - (if net_Contains (dm_cidr d) a then {a} else {})"
    "lease6 d cm' = lease6 d cm - (if net_Contains (dm_cidr6 d) b then {b} else {})"
proof -
  have kinds: "To4 a \<noteq> []" "To4 b = []"
    using lease4_is_v4 [of ns cm a] lease6_is_v6 [of ns cm b] wf a b by (simp_all add: d_def)
  obtain q4 q6 where f: "release_action [a, b] (pool4 d cm) (pool6 d cm) = (Inr (), q4, q6)"
    and same: "cm_name cm' = cm_name cm" "cm_version cm' = cm_version cm"
    and p4: "range_over (dm_cidr d) q4 \<Longrightarrow> pool4 d cm' = q4"
    and p6: "range_over (dm_cidr6 d) q6 \<Longrightarrow> pool6 d cm' = q6"
    by (rule dhcp_transform_Inr [OF t]) blast
  from f kinds have q: "q4 = range_Release a (pool4 d cm)" "q6 = range_Release b (pool6 d cm)" by auto
  note l4 = range_Release_lease [OF cm_wf_over(1) [OF wf] a [unfolded lease4_def]]
  note l6 = range_Release_lease [OF cm_wf_over(2) [OF wf] b [unfolded lease6_def]]
  have pools: "pool4 d cm' = q4" "pool6 d cm' = q6"
    using p4 p6 l4(1) l6(1) by (simp_all add: q)
  show "cm_wf d cm'" using l4(1) l6(1) by (simp add: cm_wf_def pools q range_over_ok)
  show "cm_name cm' = cm_name cm" "cm_version cm' = cm_version cm" by (fact same)+
  show "lease4 d cm' = lease4 d cm - (if net_Contains (dm_cidr d) a then {a} else {})"
    using l4(2) by (simp add: lease4_def pools q)
  show "lease6 d cm' = lease6 d cm - (if net_Contains (dm_cidr6 d) b then {b} else {})"
    using l6(2) by (simp add: lease6_def pools q)
qed

end
