(* ===== verification/Cluster_Cidr.thy ===== *)
theory Cluster_Cidr
  imports Core_Route Dhcp
begin

text \<open>
  How the client finds the networks of the cluster: \<^verbatim>\<open>src/pkg/util/cidr.go\<close>, \<^verbatim>\<open>src/pkg/util/getcidr.go\<close>, \<^verbatim>\<open>Deduplicate\<close> of
  \<^verbatim>\<open>src/pkg/util/util.go\<close> and \<^verbatim>\<open>getCIDR\<close> of \<^verbatim>\<open>src/pkg/handler/connect.go\<close>.  What the cluster answers (lists of pods and
  services, the output of commands in a pod, the error of a refused service) are arguments, \<open>Inl\<close> a failed request; \<open>unsorted\<close> is
  the order in which a Go set gives its texts.  A pointer to a network is an \<open>ipnet option\<close>.
\<close>

section \<open>Texts that name networks\<close>

definition net_text :: "ipnet option \<Rightarrow> string" where
  "net_text n = (case n of None \<Rightarrow> ''<nil>'' | Some x \<Rightarrow> ipnet_String x)"

text \<open>\<^verbatim>\<open>Deduplicate\<close>: the loop with the set of texts seen so far.\<close>

fun dedup_loop :: "string set \<Rightarrow> ipnet option list \<Rightarrow> ipnet option list" where
  "dedup_loop seen [] = []"
| "dedup_loop seen (n # ns) =
     (if net_text n \<in> seen then dedup_loop (insert (net_text n) seen) ns else n # dedup_loop (insert (net_text n) seen) ns)"

definition Deduplicate :: "ipnet option list \<Rightarrow> ipnet option list" where
  "Deduplicate ns = dedup_loop {} ns"

definition parse_net :: "string \<Rightarrow> ipnet option" where
  "parse_net s = map_option snd (ParseCIDR s)"

definition parseCIDRFromString :: "string \<Rightarrow> ipnet option list" where
  "parseCIDRFromString content =
     (if str_contains content ''cluster-cidr'' \<or> str_contains content ''service-cluster-ip-range'' then
        (case split_on CHR ''='' content of
           [_, cidrList] \<Rightarrow> map Some (List.map_filter parse_net (split_on CHR '','' cidrList))
         | _ \<Rightarrow> [])
      else [])"

section \<open>The five ways to find networks\<close>

record pod_info =
  pi_HostNetwork :: bool
  pi_PodIP :: string
  pi_PodIPs :: "string list"
  pi_Texts :: "string list"

record svc_info =
  si_ClusterIP :: string
  si_ClusterIPs :: "string list"

text \<open>\<open>pi_Texts\<close> are the arguments and then the command of each container.\<close>

definition getCIDRByDumpClusterInfo :: "'e + pod_info list \<Rightarrow> 'e + ipnet option list" where
  "getCIDRByDumpClusterInfo podList =
     map_sum id (\<lambda>pods. Deduplicate (concat (map parseCIDRFromString (concat (map pi_Texts pods))))) podList"

text \<open>The lines of the output of \<^verbatim>\<open>grep\<close>; the list is deduplicated after each of them.\<close>

definition getCIDRFromCNI :: "'e + string \<Rightarrow> 'e + ipnet option list" where
  "getCIDRFromCNI content =
     map_sum id (\<lambda>s. fold (\<lambda>l result. Deduplicate (result @ parseCIDRFromString l)) (split_on (CHR 0x0A) s) []) content"

datatype svc_err = SvcParse string | SvcNoKeyword string

text \<open>Creating a service with an invalid address: the range is taken from the text of the error.\<close>

definition getServiceCIDRByCreateSvc :: "string option \<Rightarrow> svc_err + ipnet option" where
  "getServiceCIDRByCreateSvc created =
     (case created of
        None \<Rightarrow> Inr None
      | Some err \<Rightarrow>
          (case last_index err ''valid IPs is'' of
             None \<Rightarrow> Inl (SvcNoKeyword err)
           | Some i \<Rightarrow>
               (case parse_net (trim_space (drop (i + length ''valid IPs is'') err)) of
                  None \<Rightarrow> Inl (SvcParse err)
                | Some n \<Rightarrow> Inr (Some n))))"

record cni_plugin =
  pl_Type :: string
  pl_ipv4_pools :: "string list"
  pl_ipv6_pools :: "string list"

text \<open>
  The conflist is parsed by the CNI library; when it cannot be, the code goes on with a nil pointer.
\<close>

definition plugin_nets :: "(string list \<Rightarrow> string list) \<Rightarrow> cni_plugin \<Rightarrow> ipnet option list" where
  "plugin_nets unsorted p =
     (if pl_Type p = ''calico'' then map Some (List.map_filter parse_net (unsorted (pl_ipv4_pools p @ pl_ipv6_pools p))) else [])"

definition getPodCIDRFromCNI ::
  "(string list \<Rightarrow> string list) \<Rightarrow> (string \<Rightarrow> cni_plugin list option) \<Rightarrow> 'e + string \<Rightarrow> ('e, ipnet option list) outcome" where
  "getPodCIDRFromCNI unsorted conflist content =
     (case content of
        Inl e \<Rightarrow> Fail e
      | Inr s \<Rightarrow>
          (case conflist s of
             None \<Rightarrow> Panic
           | Some ps \<Rightarrow> Ret (concat (map (plugin_nets unsorted) ps))))"

definition addr_mask :: "ip \<Rightarrow> ipmask" where
  "addr_mask p = (if To4 p \<noteq> [] then CIDRMask 24 32 else CIDRMask 64 128)"

definition getPodCIDRFromPod :: "(string list \<Rightarrow> string list) \<Rightarrow> 'e + pod_info list \<Rightarrow> 'e option + ipnet option list" where
  "getPodCIDRFromPod unsorted podList =
     (case podList of
        Inl e \<Rightarrow> Inl (Some e)
      | Inr items \<Rightarrow>
          let pods = fst (delete_loop pi_HostNetwork 0 items 0);
              result = concat (map (\<lambda>p. map (\<lambda>a. Some \<lparr>net_IP = a, net_Mask = addr_mask a\<rparr>)
                (List.map_filter ParseIP (unsorted (pi_PodIP p # pi_PodIPs p)))) pods)
          in if result = [] then Inl None else Inr result)"

definition GetCIDRElegant ::
  "(string list \<Rightarrow> string list) \<Rightarrow> (string \<Rightarrow> cni_plugin list option) \<Rightarrow>
   'e + pod_info list \<Rightarrow> 'e + string \<Rightarrow> 'e + string \<Rightarrow> string option \<Rightarrow> 'e + pod_info list \<Rightarrow> ('e, ipnet option list) outcome" where
  "GetCIDRElegant unsorted conflist systemPods grepOut catOut createSvc pods =
     (let info = (case getCIDRByDumpClusterInfo systemPods of Inl _ \<Rightarrow> [] | Inr ns \<Rightarrow> ns);
          cni = (case getCIDRFromCNI grepOut of Inl _ \<Rightarrow> [] | Inr ns \<Rightarrow> ns);
          svc = (case getServiceCIDRByCreateSvc createSvc of Inl _ \<Rightarrow> [] | Inr n \<Rightarrow> [n]);
          pod = (case getPodCIDRFromPod unsorted pods of Inl _ \<Rightarrow> [] | Inr ns \<Rightarrow> ns)
      in (case getPodCIDRFromCNI unsorted conflist catOut of
            Panic \<Rightarrow> Panic
          | Fail _ \<Rightarrow> Ret (Deduplicate (info @ cni @ svc @ pod))
          | Ret ns \<Rightarrow> Ret (Deduplicate (info @ cni @ ns @ svc @ pod))))"

text \<open>A failed list is an empty one.\<close>

definition masked_nets :: "string list \<Rightarrow> ipnet option list" where
  "masked_nets ts = map (\<lambda>a. Some \<lparr>net_IP = ip_Mask a (addr_mask a), net_Mask = addr_mask a\<rparr>) (List.map_filter ParseIP ts)"

definition GetCIDRFromResourceUgly ::
  "(string list \<Rightarrow> string list) \<Rightarrow> pod_info list \<Rightarrow> svc_info list \<Rightarrow> ipnet option list" where
  "GetCIDRFromResourceUgly unsorted podList serviceList =
     concat (map (\<lambda>p. if pi_HostNetwork p then [] else masked_nets (unsorted (pi_PodIP p # pi_PodIPs p))) podList)
   @ concat (map (\<lambda>s. masked_nets (unsorted (si_ClusterIP s # si_ClusterIPs s))) serviceList)"

section \<open>Choosing the networks to route\<close>

text \<open>
  The deferred function of \<^verbatim>\<open>getCIDR\<close>.  The inner loop goes on after a deletion, with an index that has been decremented; an index
  below zero and a nil network panic.
\<close>

fun drop_inner :: "ip list \<Rightarrow> ipnet option list \<Rightarrow> int \<Rightarrow> ('e, ipnet option list \<times> int) outcome" where
  "drop_inner [] v i = Ret (v, i)"
| "drop_inner (a # as) v i =
     (if i < 0 \<or> int (length v) \<le> i then Panic
      else (case v ! nat i of
              None \<Rightarrow> Panic
            | Some n \<Rightarrow>
                if net_Contains n a then drop_inner as (take (nat i) v @ drop (Suc (nat i)) v) (i - 1)
                else drop_inner as v i))"

lemma drop_inner_measure:
  "drop_inner as v i = Ret (v', i') \<Longrightarrow> int (length v') - i' = int (length v) - i"
  by (induction as v i rule: drop_inner.induct) (auto split: if_splits option.splits)

function drop_outer :: "ip list \<Rightarrow> ipnet option list \<Rightarrow> int \<Rightarrow> (unit, ipnet option list) outcome" where
  "drop_outer as v i =
     (if i < int (length v) then
        (case drop_inner as v i of
           Ret (v', i') \<Rightarrow> drop_outer as v' (i' + 1)
         | Fail e \<Rightarrow> Fail e
         | Panic \<Rightarrow> Panic)
      else Ret v)"
  by pat_completeness auto
termination
proof (relation "measure (\<lambda>(as, v, i). nat (int (length v) - i))")
  fix as v i v' i' and x :: "ipnet option list \<times> int"
  assume "i < int (length v)" and "(drop_inner as v i :: (unit, _) outcome) = Ret x" and "(v', i') = x"
  then have "int (length v') - i' = int (length v) - i" using drop_inner_measure by metis
  with \<open>i < int (length v)\<close> show "((as, v', i' + 1), (as, v, i)) \<in> measure (\<lambda>(as, v, i). nat (int (length v) - i))" by simp
qed simp

declare drop_outer.simps [simp del]

text \<open>\<open>None\<close> when the host of the API server cannot be read.\<close>

definition api_server_ips :: "(string \<Rightarrow> ip list) \<Rightarrow> string \<Rightarrow> ip list option" where
  "api_server_ips lookupIP host =
     (case url_Parse host of
        Inl _ \<Rightarrow> None
      | Inr u \<Rightarrow>
          (case SplitHostPort (u_Host u) of
             None \<Rightarrow> None
           | Some (h, _) \<Rightarrow> Some ((case ParseIP h of None \<Rightarrow> [] | Some a \<Rightarrow> [a]) @ lookupIP h)))"

definition drop_api_cidrs :: "(string \<Rightarrow> ip list) \<Rightarrow> string \<Rightarrow> ipnet option list \<Rightarrow> (unit, ipnet option list) outcome" where
  "drop_api_cidrs lookupIP host cidrs =
     (case api_server_ips lookupIP host of None \<Rightarrow> Ret cidrs | Some as \<Rightarrow> drop_outer as cidrs 0)"

definition KeyClusterIPv4POOLS :: string where "KeyClusterIPv4POOLS = ''IPv4_POOLS''"

text \<open>The networks in the text of the cache.\<close>

definition cached_cidrs :: "string \<Rightarrow> ipnet option list \<Rightarrow> ipnet option list" where
  "cached_cidrs val cidrs =
     fold (\<lambda>s ns. case parse_net s of None \<Rightarrow> ns | Some n \<Rightarrow> Deduplicate (ns @ [Some n])) (split_on CHR '' '' val) cidrs"

text \<open>
  \<^verbatim>\<open>getCIDR\<close>: from the cache; else from the cluster, which is then written to the cache.  The result of the search is \<open>elegant\<close>,
  which never is an error, so the third step of the code is not reached; \<open>ugly\<close> are the networks of the pods and services.
\<close>

definition getCIDR ::
  "'w cm_client \<Rightarrow> (string list \<Rightarrow> string list) \<Rightarrow> (string \<Rightarrow> ip list) \<Rightarrow> string \<Rightarrow>
   (unit, ipnet option list) outcome \<Rightarrow> ipnet option list \<Rightarrow> ipnet option list \<Rightarrow> 'w \<Rightarrow> (unit, ipnet option list) outcome \<times> 'w" where
  "getCIDR cl unsorted lookupIP host elegant ugly cidrs w =
     (let cached = (case dhcp_Get cl KeyClusterIPv4POOLS w of Inl _ \<Rightarrow> cidrs | Inr val \<Rightarrow> cached_cidrs val cidrs) in
      if cached \<noteq> [] then
        (case dhcp_Get cl KeyClusterIPv4POOLS w of
           Inl _ \<Rightarrow> (Fail (), w)
         | Inr _ \<Rightarrow> (drop_api_cidrs lookupIP host cached, w))
      else
        (case elegant of
           Ret ns \<Rightarrow>
             (drop_api_cidrs lookupIP host (Deduplicate (ns @ ugly)),
              snd (dhcp_Set cl id KeyClusterIPv4POOLS (join '' '' (unsorted (map net_text (ns @ ugly)))) w))
         | Fail _ \<Rightarrow> (drop_api_cidrs lookupIP host ugly, w)
         | Panic \<Rightarrow> (Panic, w)))"

section \<open>What the searches give\<close>

lemma dedup_loop_spec:
  "distinct (map net_text (dedup_loop seen ns)) \<and> net_text ` set (dedup_loop seen ns) = net_text ` set ns - seen
   \<and> set (dedup_loop seen ns) \<subseteq> set ns"
  by (induction ns arbitrary: seen) (auto simp: insert_absorb)

lemma Deduplicate_spec:
  "distinct (map net_text (Deduplicate ns))" "net_text ` set (Deduplicate ns) = net_text ` set ns" "set (Deduplicate ns) \<subseteq> set ns"
  unfolding Deduplicate_def using dedup_loop_spec [of "{}" ns] by simp_all

lemma Deduplicate_again: "Deduplicate (Deduplicate ns) = Deduplicate ns"
proof -
  have "dedup_loop seen ns = ns" if "distinct (map net_text ns)" "net_text ` set ns \<inter> seen = {}" for seen ns
    using that by (induction ns arbitrary: seen) auto
  then show ?thesis using Deduplicate_spec(1) [of ns] unfolding Deduplicate_def by simp
qed

text \<open>Networks found in an option are all of its parts that parse; texts with other options give none.\<close>

lemma parseCIDRFromString_option:
  assumes "opt = ''--cluster-cidr'' \<or> opt = ''--service-cluster-ip-range''" and "CHR ''='' \<notin> set cidrs"
  shows "parseCIDRFromString (opt @ ''='' @ cidrs) = map Some (List.map_filter parse_net (split_on CHR '','' cidrs))"
proof -
  have o: "CHR ''='' \<notin> set opt" using assms(1) by auto
  have "str_contains (opt @ ''='' @ cidrs) ''cluster-cidr'' \<or> str_contains (opt @ ''='' @ cidrs) ''service-cluster-ip-range''"
    using assms(1) str_contains_mid [of "''--''" "''cluster-cidr''" "''='' @ cidrs"]
      str_contains_mid [of "''--''" "''service-cluster-ip-range''" "''='' @ cidrs"] by auto
  moreover have "split_on CHR ''='' (opt @ ''='' @ cidrs) = [opt, cidrs]"
    using split_on_append_sep [OF o, of cidrs] split_on_no_sep [OF assms(2)] by simp
  ultimately show ?thesis unfolding parseCIDRFromString_def by simp
qed

section \<open>The networks of the API server\<close>

lemma drop_outer_none: "drop_outer [] v i = Ret v"
proof (induction "nat (int (length v) - i)" arbitrary: i)
  case 0
  then show ?case by (subst drop_outer.simps) simp
next
  case (Suc k)
  then have "drop_outer [] v (i + 1) = Ret v" by simp
  then show ?case by (subst drop_outer.simps) simp
qed

lemma drop_outer_one:
  assumes "None \<notin> set v" and "i \<le> length v"
  shows "drop_outer [a] v (int i) = Ret (take i v @ filter (\<lambda>n. \<not> net_Contains (the n) a) (drop i v))"
  using assms
proof (induction "length v - i" arbitrary: v i)
  case 0
  then show ?case by (subst drop_outer.simps) simp
next
  case (Suc k)
  then have i: "i < length v" by simp
  then have "v ! i \<in> set v" by simp
  with Suc.prems(1) obtain n where n: "v ! i = Some n" by (cases "v ! i") auto
  have d: "drop i v = Some n # drop (Suc i) v" using i n by (simp add: Cons_nth_drop_Suc [symmetric])
  show ?case
  proof (cases "net_Contains n a")
    case True
    let ?v = "take i v @ drop (Suc i) v"
    have "set ?v \<subseteq> set v" using set_take_subset set_drop_subset by fastforce
    then have "drop_outer [a] ?v (int i) = Ret (take i ?v @ filter (\<lambda>n. \<not> net_Contains (the n) a) (drop i ?v))"
      using Suc.hyps(2) Suc.prems i by (intro Suc.hyps(1)) auto
    moreover have "take i ?v = take i v" "drop i ?v = drop (Suc i) v" using i by simp_all
    ultimately show ?thesis using i n True d by (subst drop_outer.simps) simp
  next
    case False
    have e: "int i + 1 = int (Suc i)" by simp
    have "drop_outer [a] v (int i + 1) = Ret (take (Suc i) v @ filter (\<lambda>n. \<not> net_Contains (the n) a) (drop (Suc i) v))"
      unfolding e using Suc.hyps(2) Suc.prems i by (intro Suc.hyps(1)) auto
    then show ?thesis using i n False d
      by (subst drop_outer.simps) (simp add: take_Suc_conv_app_nth)
  qed
qed

lemma drop_outer_panics: "net_Contains n a \<Longrightarrow> drop_outer (a # b # as) (Some n # ns) 0 = Panic"
  by (subst drop_outer.simps) simp

text \<open>C14: networks that hold the API server are left out, if that server has one address.  When the host of the API server
  resolves to at most one address, the loop in \<^verbatim>\<open>getCIDR\<close> equals a filter: it removes exactly the networks that contain the
  address.  When there are two or more addresses, as for every host that is written as an address (it is counted once as
  parsed and once as looked up), and the first network contains the first of them, the loop indexes below zero
  and panics.\<close>
theorem getCIDR_api_server:
  assumes "api_server_ips lookupIP host = Some as"
  shows "(length as \<le> 1 \<and> None \<notin> set cidrs \<longrightarrow>
      drop_api_cidrs lookupIP host cidrs = Ret (filter (\<lambda>n. list_all (\<lambda>a. \<not> net_Contains (the n) a) as) cidrs))
    \<and> (\<forall>a b bs n ns. as = a # b # bs \<and> cidrs = Some n # ns \<and> net_Contains n a \<longrightarrow> drop_api_cidrs lookupIP host cidrs = Panic)"
proof -
  have "drop_api_cidrs lookupIP host cidrs = drop_outer as cidrs 0" using assms by (simp add: drop_api_cidrs_def)
  moreover have "drop_outer as cidrs 0 = Ret (filter (\<lambda>n. list_all (\<lambda>a. \<not> net_Contains (the n) a) as) cidrs)"
    if "length as \<le> 1" "None \<notin> set cidrs"
  proof (cases as)
    case Nil
    then show ?thesis by (simp add: drop_outer_none)
  next
    case (Cons a bs)
    then show ?thesis using that drop_outer_one [OF that(2), of 0 a] by simp
  qed
  ultimately show ?thesis using drop_outer_panics by auto
qed

theorem getCIDR_api_server_witness:
  "drop_api_cidrs (\<lambda>_. [IPv4 10 0 0 1]) ''https://10.0.0.1:6443'' [Some \<lparr>net_IP = [10, 0, 0, 0], net_Mask = [255, 0, 0, 0]\<rparr>] = Panic
   \<and> drop_api_cidrs (\<lambda>_. [IPv4 10 0 0 1]) ''https://api:6443'' [Some \<lparr>net_IP = [10, 0, 0, 0], net_Mask = [255, 0, 0, 0]\<rparr>] = Ret []"
proof -
  let ?n = "\<lparr>net_IP = [10, 0, 0, 0], net_Mask = [255, 0, 0, 0]\<rparr>"
  have c: "net_Contains ?n (IPv4 10 0 0 1)" by code_simp
  have "api_server_ips (\<lambda>_. [IPv4 10 0 0 1]) ''https://10.0.0.1:6443'' = Some [IPv4 10 0 0 1, IPv4 10 0 0 1]"
    and "api_server_ips (\<lambda>_. [IPv4 10 0 0 1]) ''https://api:6443'' = Some [IPv4 10 0 0 1]"
    by code_simp+
  from this [THEN getCIDR_api_server, of "[Some ?n]"] c show ?thesis by simp
qed

end
