(* ===== verification/Control_Plane.thy ===== *)
theory Control_Plane
  imports Go_Strings "HOL-Library.AList"
begin

text \<open>
  The control plane of the mesh (\<^verbatim>\<open>src/pkg/controlplane/cache.go\<close> and \<^verbatim>\<open>processor.go\<close>): the rules of a workload,
  the Envoy resources made from them, the consistency check of the snapshot
  (\<^verbatim>\<open>src/vendor/github.com/envoyproxy/go-control-plane/pkg/cache/v3\<close>) and the processing of a new version of the
  configuration.  How Envoy picks a route is the first-match rule of its documentation.
\<close>

section \<open>Rules\<close>

text \<open>
  A Go map of headers: \<open>None\<close> is nil, else its entries with distinct keys, in the order in which they are
  ranged over.
\<close>

type_synonym header_map = "(string \<times> string) list option"

definition entries :: "header_map \<Rightarrow> (string \<times> string) list" where
  "entries h = (case h of None \<Rightarrow> [] | Some es \<Rightarrow> es)"

record ContainerPort =
  cp_Name :: string
  cp_HostPort :: int
  cp_ContainerPort :: int
  cp_Protocol :: string
  cp_HostIP :: string

record Rule =
  Headers :: header_map
  LocalTunIPv4 :: string
  LocalTunIPv6 :: string

record Virtual =
  Uid :: string
  Ports :: "ContainerPort list option"
  Rules :: "Rule list"

definition port_list :: "Virtual \<Rightarrow> ContainerPort list" where
  "port_list a = (case Ports a of None \<Rightarrow> [] | Some ps \<Rightarrow> ps)"

section \<open>Envoy resources\<close>

datatype socket_protocol = SocketTCP | SocketUDP
datatype discovery = EDS | ORIGINAL_DST
datatype lb_policy = ROUND_ROBIN | CLUSTER_PROVIDED

record Cluster =
  cl_Name :: string
  cl_Type :: discovery
  cl_LbPolicy :: lb_policy

record ClusterLoadAssignment =
  ep_ClusterName :: string
  ep_Address :: string
  ep_Port :: "32 word"

text \<open>A header matcher: the name and the text it must equal, letter case ignored.\<close>

record EnvoyRoute =
  er_Prefix :: string
  er_Headers :: "(string \<times> string) list"
  er_Cluster :: string

record RouteConfiguration =
  rc_Name :: string
  rc_Domains :: "string list"
  rc_Routes :: "EnvoyRoute list"

datatype network_filter = HTTPConnectionManager string "string list" | TCPProxy string

record FilterChain =
  fc_Protocols :: "string list"
  fc_Filters :: "network_filter list"

record Listener =
  li_Name :: string
  li_Protocol :: socket_protocol
  li_Address :: string
  li_Port :: "32 word"
  li_BindToPort :: bool
  li_UseOriginalDst :: bool
  li_FilterChains :: "FilterChain list"
  li_ListenerFilters :: "string list"

definition ToEndPoint :: "string \<Rightarrow> string \<Rightarrow> int \<Rightarrow> ClusterLoadAssignment" where
  "ToEndPoint clusterName localTunIP port =
     \<lparr>ep_ClusterName = clusterName, ep_Address = localTunIP, ep_Port = of_int port\<rparr>"

definition ToCluster :: "string \<Rightarrow> Cluster" where
  "ToCluster clusterName = \<lparr>cl_Name = clusterName, cl_Type = EDS, cl_LbPolicy = ROUND_ROBIN\<rparr>"

definition OriginCluster :: Cluster where
  "OriginCluster = \<lparr>cl_Name = ''origin_cluster'', cl_Type = ORIGINAL_DST, cl_LbPolicy = CLUSTER_PROVIDED\<rparr>"

definition ToRoute :: "string \<Rightarrow> header_map \<Rightarrow> EnvoyRoute" where
  "ToRoute clusterName headers =
     \<lparr>er_Prefix = ''/'', er_Headers = entries headers, er_Cluster = clusterName\<rparr>"

definition DefaultRoute :: EnvoyRoute where
  "DefaultRoute = \<lparr>er_Prefix = ''/'', er_Headers = [], er_Cluster = ''origin_cluster''\<rparr>"

definition ToListener :: "string \<Rightarrow> string \<Rightarrow> int \<Rightarrow> string \<Rightarrow> Listener" where
  "ToListener listenerName routeName port p =
     \<lparr>li_Name = listenerName, li_Protocol = (if p = ''UDP'' then SocketUDP else SocketTCP),
      li_Address = ''0.0.0.0'', li_Port = of_int port, li_BindToPort = False, li_UseOriginalDst = True,
      li_FilterChains =
        [\<lparr>fc_Protocols = [''http/1.0'', ''http/1.1'', ''h2c''],
          fc_Filters = [HTTPConnectionManager routeName
            [''envoy.filters.http.grpc_web'', ''envoy.filters.http.cors'', ''envoy.filters.http.router'']]\<rparr>,
         \<lparr>fc_Protocols = [], fc_Filters = [TCPProxy ''origin_cluster'']\<rparr>],
      li_ListenerFilters = [''envoy.filters.listener.http_inspector'', ''envoy.filters.listener.original_dst'']\<rparr>"

definition listener_name :: "string \<Rightarrow> ContainerPort \<Rightarrow> string" where
  "listener_name uid port = uid @ ''_'' @ show_int (cp_ContainerPort port) @ ''_'' @ cp_Protocol port"

definition cluster_name :: "string \<Rightarrow> ContainerPort \<Rightarrow> string" where
  "cluster_name addr port = addr @ ''_'' @ show_int (cp_ContainerPort port)"

text \<open>The two addresses of each rule, with the headers of the rule.\<close>

definition rule_targets :: "Virtual \<Rightarrow> (string \<times> header_map) list" where
  "rule_targets a = concat (map (\<lambda>r. [(LocalTunIPv4 r, Headers r), (LocalTunIPv6 r, Headers r)]) (Rules a))"

record resources =
  rs_listeners :: "Listener list"
  rs_clusters :: "Cluster list"
  rs_routes :: "RouteConfiguration list"
  rs_endpoints :: "ClusterLoadAssignment list"

definition virtual_To :: "Virtual \<Rightarrow> resources" where
  "virtual_To a =
     \<lparr>rs_listeners = map (\<lambda>p. ToListener (listener_name (Uid a) p) (listener_name (Uid a) p) (cp_ContainerPort p) (cp_Protocol p)) (port_list a),
      rs_clusters = concat (map (\<lambda>p. map (\<lambda>(ip, h). ToCluster (cluster_name ip p)) (rule_targets a) @ [OriginCluster]) (port_list a)),
      rs_routes = map (\<lambda>p. \<lparr>rc_Name = listener_name (Uid a) p, rc_Domains = [''*''],
          rc_Routes = map (\<lambda>(ip, h). ToRoute (cluster_name ip p) h) (rule_targets a) @ [DefaultRoute]\<rparr>) (port_list a),
      rs_endpoints = concat (map (\<lambda>p. map (\<lambda>(ip, h). ToEndPoint (cluster_name ip p) ip (cp_ContainerPort p)) (rule_targets a)) (port_list a))\<rparr>"

section \<open>Snapshots\<close>

text \<open>\<^verbatim>\<open>IndexResourcesByName\<close>: the last resource of a name stays.\<close>

definition index_by :: "('r \<Rightarrow> string) \<Rightarrow> 'r list \<Rightarrow> (string \<rightharpoonup> 'r)" where
  "index_by name rs = map_of (rev (map (\<lambda>r. (name r, r)) rs))"

definition cluster_refs :: "resources \<Rightarrow> string set" where
  "cluster_refs rs = {n. \<exists>c. index_by cl_Name (rs_clusters rs) n = Some c \<and> cl_Type c = EDS}"

fun filter_routes :: "network_filter \<Rightarrow> string set" where
  "filter_routes (HTTPConnectionManager r fs) = (if r = [] then {} else {r})"
| "filter_routes (TCPProxy c) = {}"

definition listener_refs :: "resources \<Rightarrow> string set" where
  "listener_refs rs =
     {r. \<exists>n l. index_by li_Name (rs_listeners rs) n = Some l \<and>
        (\<exists>fc\<in>set (li_FilterChains l). \<exists>f\<in>set (fc_Filters fc). r \<in> filter_routes f)}"

text \<open>
  \<^verbatim>\<open>Snapshot.Consistent\<close>: as many endpoints and routes as are referenced, and each of them is referenced.
\<close>

definition Consistent :: "resources \<Rightarrow> bool" where
  "Consistent rs \<longleftrightarrow>
     card (cluster_refs rs) = card (dom (index_by ep_ClusterName (rs_endpoints rs)))
   \<and> dom (index_by ep_ClusterName (rs_endpoints rs)) \<subseteq> cluster_refs rs
   \<and> card (listener_refs rs) = card (dom (index_by rc_Name (rs_routes rs)))
   \<and> dom (index_by rc_Name (rs_routes rs)) \<subseteq> listener_refs rs"

section \<open>The processor\<close>

text \<open>
  The snapshot cache, the version and the cache of the last configurations; \<open>pr_fatal\<close> records that the process
  ended in \<^verbatim>\<open>Fatal\<close>.
\<close>

record processor =
  pr_cache :: "string \<rightharpoonup> int \<times> resources"
  pr_version :: int
  pr_last :: "string \<rightharpoonup> Virtual"
  pr_fatal :: bool

definition MaxInt64 :: int where
  "MaxInt64 = 2 ^ 63 - 1"

definition newVersion :: "int \<Rightarrow> int" where
  "newVersion v = (if v = MaxInt64 then 0 else v) + 1"

text \<open>
  The loop of \<^verbatim>\<open>ProcessFile\<close>.  \<open>fresh\<close> says whether the last configuration of a node is younger than five minutes
  and \<open>set_ok\<close> whether \<^verbatim>\<open>SetSnapshot\<close> could answer the watches of a node after it stored the snapshot.
\<close>

fun process_configs :: "(string \<Rightarrow> bool) \<Rightarrow> (string \<Rightarrow> bool) \<Rightarrow> Virtual list \<Rightarrow> processor \<Rightarrow> processor" where
  "process_configs fresh set_ok [] p = p"
| "process_configs fresh set_ok (a # as) p =
     (if Uid a = [] then process_configs fresh set_ok as p
      else if fresh (Uid a) \<and> pr_last p (Uid a) = Some a then process_configs fresh set_ok as p
      else
        let v = newVersion (pr_version p); rs = virtual_To a in
        if \<not> Consistent rs then p\<lparr>pr_version := v\<rparr>
        else
          let p1 = p\<lparr>pr_version := v, pr_cache := (pr_cache p)(Uid a \<mapsto> (v, rs))\<rparr> in
          if \<not> set_ok (Uid a) then p1\<lparr>pr_fatal := True\<rparr>
          else process_configs fresh set_ok as (p1\<lparr>pr_last := (pr_last p)(Uid a \<mapsto> a)\<rparr>))"

definition ProcessFile :: "(string \<Rightarrow> bool) \<Rightarrow> (string \<Rightarrow> bool) \<Rightarrow> Virtual list option \<Rightarrow> processor \<Rightarrow> processor" where
  "ProcessFile fresh set_ok parsed p =
     (case parsed of None \<Rightarrow> p | Some as \<Rightarrow> process_configs fresh set_ok as p)"

section \<open>Envoy's choice of a route\<close>

text \<open>
  Envoy runs outside the program: how it evaluates one header matcher (\<open>hm\<close>) and which route of a configuration
  it takes (\<open>pick\<close>) are parameters.  Its documentation says that a route matches a request when each of its
  header matchers does and that the first route that matches is taken.
\<close>

definition lawful_envoy :: "('q \<Rightarrow> string \<times> string \<Rightarrow> bool) \<Rightarrow> (RouteConfiguration \<Rightarrow> 'q \<Rightarrow> EnvoyRoute option) \<Rightarrow> bool" where
  "lawful_envoy hm pick \<longleftrightarrow> (\<forall>rc q. pick rc q = find (\<lambda>r. list_all (hm q) (er_Headers r)) (rc_Routes rc))"

definition matches_rule :: "('q \<Rightarrow> string \<times> string \<Rightarrow> bool) \<Rightarrow> 'q \<Rightarrow> Rule \<Rightarrow> bool" where
  "matches_rule hm q r = list_all (hm q) (entries (Headers r))"

section \<open>Every workload gives a consistent snapshot\<close>

lemma dom_index_by: "dom (index_by f rs) = f ` set rs"
proof -
  have "dom (map_of (map (\<lambda>r. (f r, r)) ys)) = f ` set ys" for ys
    by (simp add: dom_map_of_conv_image_fst image_image)
  then show ?thesis unfolding index_by_def rev_map by (simp add: comp_def)
qed

lemma index_by_mem: "index_by f rs n = Some r \<Longrightarrow> r \<in> set rs \<and> f r = n"
  by (auto simp: index_by_def dest!: map_of_SomeD)

lemma index_by_unique:
  assumes "n \<in> f ` set rs" and "\<And>r. r \<in> set rs \<Longrightarrow> f r = n \<Longrightarrow> P r"
  shows "\<exists>r. index_by f rs n = Some r \<and> P r"
  using assms index_by_mem [of f rs n] dom_index_by [of f rs] by blast

text \<open>The name of a cluster ends in a number, so none is the origin cluster.\<close>

lemma show_int_chars: "c \<in> set (show_int i) \<Longrightarrow> c = CHR ''-'' \<or> digit_val c \<noteq> None"
  using show_nat_no_char by (fastforce simp: show_int_def split: if_splits)

lemma cluster_name_not_origin: "cluster_name ip p \<noteq> ''origin_cluster''"
proof
  assume e: "cluster_name ip p = ''origin_cluster''"
  have "show_int (cp_ContainerPort p) \<noteq> []" by (simp add: show_int_def)
  then have "last (cluster_name ip p) \<in> set (show_int (cp_ContainerPort p))" by (simp add: cluster_name_def)
  with e have "CHR ''r'' \<in> set (show_int (cp_ContainerPort p))" by simp
  from show_int_chars [OF this] show False by (auto simp: digit_val_def)
qed

lemma virtual_clusters:
  "c \<in> set (rs_clusters (virtual_To a)) \<longleftrightarrow>
     port_list a \<noteq> [] \<and> c = OriginCluster \<or>
     (\<exists>p\<in>set (port_list a). \<exists>t\<in>set (rule_targets a). c = ToCluster (cluster_name (fst t) p))"
  by (auto simp: virtual_To_def case_prod_beta image_iff)

text \<open>The names of the clusters that have an endpoint.\<close>

definition target_names :: "Virtual \<Rightarrow> string set" where
  "target_names a = (\<Union>p\<in>set (port_list a). (\<lambda>t. cluster_name (fst t) p) ` set (rule_targets a))"

lemma target_names_iff: "n \<in> target_names a \<longleftrightarrow> (\<exists>p\<in>set (port_list a). \<exists>t\<in>set (rule_targets a). n = cluster_name (fst t) p)"
  by (simp add: target_names_def image_iff)

lemma virtual_To_eds: "cluster_refs (virtual_To a) = target_names a"
proof (rule set_eqI)
  fix n
  have "n \<in> target_names a" if "n \<in> cluster_refs (virtual_To a)"
  proof -
    from that obtain c where "index_by cl_Name (rs_clusters (virtual_To a)) n = Some c" and eds: "cl_Type c = EDS"
      by (auto simp: cluster_refs_def)
    then have c: "c \<in> set (rs_clusters (virtual_To a))" "cl_Name c = n" by (auto dest: index_by_mem)
    then consider "c = OriginCluster"
      | p t where "p \<in> set (port_list a)" "t \<in> set (rule_targets a)" "c = ToCluster (cluster_name (fst t) p)"
      unfolding virtual_clusters by blast
    then show ?thesis
    proof cases
      case 1
      then show ?thesis using eds by (simp add: OriginCluster_def)
    next
      case 2
      then have "n = cluster_name (fst t) p" using c(2) by (simp add: ToCluster_def)
      with 2 show ?thesis unfolding target_names_iff by blast
    qed
  qed
  moreover have "n \<in> cluster_refs (virtual_To a)" if n: "n \<in> target_names a"
  proof -
    from n obtain p t where t: "p \<in> set (port_list a)" "t \<in> set (rule_targets a)" "n = cluster_name (fst t) p"
      unfolding target_names_iff by blast
    then have "ToCluster n \<in> set (rs_clusters (virtual_To a))" unfolding virtual_clusters by blast
    then have mem: "n \<in> cl_Name ` set (rs_clusters (virtual_To a))" by (force simp: ToCluster_def)
    have "cl_Type c = EDS" if "c \<in> set (rs_clusters (virtual_To a))" "cl_Name c = n" for c
      using that t(3) cluster_name_not_origin [of "fst t" p] unfolding virtual_clusters
      by (auto simp: OriginCluster_def ToCluster_def)
    then show ?thesis using index_by_unique [OF mem, of "\<lambda>c. cl_Type c = EDS"] by (auto simp: cluster_refs_def)
  qed
  ultimately show "n \<in> cluster_refs (virtual_To a) \<longleftrightarrow> n \<in> target_names a" by blast
qed

lemma virtual_To_endpoints: "dom (index_by ep_ClusterName (rs_endpoints (virtual_To a))) = target_names a"
  unfolding dom_index_by
  by (simp add: virtual_To_def target_names_def image_UN image_image case_prod_beta ToEndPoint_def)

lemma virtual_To_routes:
  "dom (index_by rc_Name (rs_routes (virtual_To a))) = listener_name (Uid a) ` set (port_list a)"
  unfolding dom_index_by by (simp add: virtual_To_def image_image)

lemma virtual_listeners:
  "l \<in> set (rs_listeners (virtual_To a)) \<longleftrightarrow>
     (\<exists>p\<in>set (port_list a). l = ToListener (listener_name (Uid a) p) (listener_name (Uid a) p) (cp_ContainerPort p) (cp_Protocol p))"
  by (simp add: virtual_To_def image_iff)

lemma listener_route:
  "(\<exists>fc\<in>set (li_FilterChains (ToListener n r i p)). \<exists>f\<in>set (fc_Filters fc). x \<in> filter_routes f) \<longleftrightarrow> r \<noteq> [] \<and> x = r"
  by (auto simp: ToListener_def)

lemma virtual_To_rds: "listener_refs (virtual_To a) = listener_name (Uid a) ` set (port_list a)"
proof (rule set_eqI)
  fix n
  have "n \<in> listener_name (Uid a) ` set (port_list a)" if "n \<in> listener_refs (virtual_To a)"
  proof -
    from that obtain m l where "index_by li_Name (rs_listeners (virtual_To a)) m = Some l"
      and r: "\<exists>fc\<in>set (li_FilterChains l). \<exists>f\<in>set (fc_Filters fc). n \<in> filter_routes f"
      by (auto simp: listener_refs_def)
    then have "l \<in> set (rs_listeners (virtual_To a))" by (auto dest: index_by_mem)
    then obtain p where p: "p \<in> set (port_list a)"
      and l: "l = ToListener (listener_name (Uid a) p) (listener_name (Uid a) p) (cp_ContainerPort p) (cp_Protocol p)"
      unfolding virtual_listeners by blast
    from r have "n = listener_name (Uid a) p" unfolding l listener_route by simp
    with p show ?thesis by simp
  qed
  moreover have "n \<in> listener_refs (virtual_To a)" if n: "n \<in> listener_name (Uid a) ` set (port_list a)"
  proof -
    have mem: "n \<in> li_Name ` set (rs_listeners (virtual_To a))"
      using n by (auto simp: virtual_To_def ToListener_def image_image)
    have "\<exists>fc\<in>set (li_FilterChains l). \<exists>f\<in>set (fc_Filters fc). n \<in> filter_routes f"
      if "l \<in> set (rs_listeners (virtual_To a))" "li_Name l = n" for l
    proof -
      from that(1) obtain p where l: "l = ToListener (listener_name (Uid a) p) (listener_name (Uid a) p) (cp_ContainerPort p) (cp_Protocol p)"
        unfolding virtual_listeners by blast
      with that(2) have "listener_name (Uid a) p = n" by (simp add: ToListener_def)
      then show ?thesis unfolding l listener_route by (auto simp: listener_name_def)
    qed
    then have "\<exists>l. index_by li_Name (rs_listeners (virtual_To a)) n = Some l \<and>
        (\<exists>fc\<in>set (li_FilterChains l). \<exists>f\<in>set (fc_Filters fc). n \<in> filter_routes f)"
      by (rule index_by_unique [OF mem])
    then show ?thesis unfolding listener_refs_def mem_Collect_eq by (rule exI)
  qed
  ultimately show "n \<in> listener_refs (virtual_To a) \<longleftrightarrow> n \<in> listener_name (Uid a) ` set (port_list a)" by blast
qed

lemma virtual_To_Consistent: "Consistent (virtual_To a)"
  by (simp add: Consistent_def virtual_To_eds virtual_To_endpoints virtual_To_routes virtual_To_rds)

section \<open>What the processor serves\<close>

lemma newVersion_bounds: "0 \<le> v \<Longrightarrow> v \<le> MaxInt64 \<Longrightarrow> 0 < newVersion v \<and> newVersion v \<le> MaxInt64 \<and> newVersion v \<noteq> v"
  by (auto simp: newVersion_def MaxInt64_def)

text \<open>What is served is the newest configuration the processor remembers.\<close>

definition pr_ok :: "processor \<Rightarrow> bool" where
  "pr_ok p \<longleftrightarrow> 0 \<le> pr_version p \<and> pr_version p \<le> MaxInt64
     \<and> (\<forall>u a. pr_last p u = Some a \<longrightarrow> Uid a = u \<and> (\<exists>v. pr_cache p u = Some (v, virtual_To a)))"

definition serve_config :: "Virtual \<Rightarrow> processor \<Rightarrow> processor" where
  "serve_config a p = p\<lparr>pr_version := newVersion (pr_version p),
     pr_cache := (pr_cache p)(Uid a \<mapsto> (newVersion (pr_version p), virtual_To a)), pr_last := (pr_last p)(Uid a \<mapsto> a)\<rparr>"

lemma pr_ok_serve:
  assumes "pr_ok p"
  shows "pr_ok (serve_config a p)"
proof -
  have "0 < newVersion (pr_version p)" "newVersion (pr_version p) \<le> MaxInt64"
    using newVersion_bounds [of "pr_version p"] assms by (auto simp: pr_ok_def)
  with assms show ?thesis by (auto simp: pr_ok_def serve_config_def)
qed

lemma process_configs_Cons:
  assumes "\<forall>u. set_ok u"
  shows "process_configs fresh set_ok (a # as) p =
    process_configs fresh set_ok as (if Uid a = [] \<or> fresh (Uid a) \<and> pr_last p (Uid a) = Some a then p else serve_config a p)"
  using assms by (simp add: Let_def virtual_To_Consistent serve_config_def)

declare process_configs.simps(2) [simp del]

lemma process_configs_ok:
  "pr_ok p \<Longrightarrow> \<forall>u. set_ok u \<Longrightarrow> pr_ok (process_configs fresh set_ok as p)"
  by (induction as arbitrary: p) (simp_all add: process_configs_Cons pr_ok_serve)

text \<open>A node no configuration of the list is about keeps its snapshot.\<close>

lemma process_configs_other:
  "u \<notin> Uid ` set as \<Longrightarrow> \<forall>u. set_ok u \<Longrightarrow> pr_cache (process_configs fresh set_ok as p) u = pr_cache p u"
  by (induction as arbitrary: p) (simp_all add: process_configs_Cons serve_config_def)

lemma process_configs_serves:
  assumes "pr_ok p" and "\<forall>u. set_ok u" and "distinct (map Uid as)" and "a \<in> set as" and "Uid a \<noteq> []"
  shows "\<exists>v. pr_cache (process_configs fresh set_ok as p) (Uid a) = Some (v, virtual_To a)"
  using assms(1,3,4)
proof (induction as arbitrary: p)
  case (Cons b as)
  note step = process_configs_Cons [OF assms(2), of fresh b as p]
  show ?case
  proof (cases "a = b")
    case False
    then have "a \<in> set as" "distinct (map Uid as)" using Cons.prems by auto
    then show ?thesis unfolding step using Cons.IH Cons.prems(1) pr_ok_serve by simp
  next
    case True
    then have n: "Uid a \<notin> Uid ` set as" using Cons.prems(2) by auto
    show ?thesis
    proof (cases "fresh (Uid b) \<and> pr_last p (Uid b) = Some b")
      case last: True
      then show ?thesis
        unfolding step using process_configs_other [OF n assms(2)] Cons.prems(1) True by (simp add: pr_ok_def)
    next
      case False
      then show ?thesis
        unfolding step using process_configs_other [OF n assms(2)] True assms(5) by (auto simp: serve_config_def)
    qed
  qed
qed simp

text \<open>The route that Envoy takes for a request.\<close>

lemma request_route:
  assumes "lawful_envoy hm pick" and "p \<in> set (port_list a)"
  shows "\<exists>rc\<in>set (rs_routes (virtual_To a)). rc_Name rc = listener_name (Uid a) p
    \<and> (case find (matches_rule hm req) (Rules a) of
         None \<Rightarrow> pick rc req = Some DefaultRoute
       | Some r \<Rightarrow> pick rc req = Some (ToRoute (cluster_name (LocalTunIPv4 r) p) (Headers r)) \<and>
           ToEndPoint (cluster_name (LocalTunIPv4 r) p) (LocalTunIPv4 r) (cp_ContainerPort p) \<in> set (rs_endpoints (virtual_To a)))"
proof -
  let ?rt = "\<lambda>(ip, h). ToRoute (cluster_name ip p) h"
  let ?rc = "\<lparr>rc_Name = listener_name (Uid a) p, rc_Domains = [''*''],
      rc_Routes = map ?rt (rule_targets a) @ [DefaultRoute]\<rparr>"
  have rc: "?rc \<in> set (rs_routes (virtual_To a))" using assms(2) by (auto simp: virtual_To_def)
  have f: "find (\<lambda>r. list_all (hm req) (er_Headers r))
        (map ?rt (concat (map (\<lambda>r. [(LocalTunIPv4 r, Headers r), (LocalTunIPv6 r, Headers r)]) rs)) @ [DefaultRoute]) =
      (case find (matches_rule hm req) rs of
         None \<Rightarrow> Some DefaultRoute | Some r \<Rightarrow> Some (ToRoute (cluster_name (LocalTunIPv4 r) p) (Headers r)))" for rs
    by (induction rs) (simp_all add: ToRoute_def DefaultRoute_def matches_rule_def)
  have e: "ToEndPoint (cluster_name (LocalTunIPv4 r) p) (LocalTunIPv4 r) (cp_ContainerPort p) \<in> set (rs_endpoints (virtual_To a))"
    if "r \<in> set (Rules a)" for r
  proof -
    have "(LocalTunIPv4 r, Headers r) \<in> set (rule_targets a)" using that by (auto simp: rule_targets_def)
    then show ?thesis using assms(2) by (force simp: virtual_To_def)
  qed
  have c: "pick ?rc req = (case find (matches_rule hm req) (Rules a) of
         None \<Rightarrow> Some DefaultRoute | Some r \<Rightarrow> Some (ToRoute (cluster_name (LocalTunIPv4 r) p) (Headers r)))"
    using assms(1) f [of "Rules a"] by (simp add: lawful_envoy_def rule_targets_def)
  have "case find (matches_rule hm req) (Rules a) of
         None \<Rightarrow> pick ?rc req = Some DefaultRoute
       | Some r \<Rightarrow> pick ?rc req = Some (ToRoute (cluster_name (LocalTunIPv4 r) p) (Headers r)) \<and>
           ToEndPoint (cluster_name (LocalTunIPv4 r) p) (LocalTunIPv4 r) (cp_ContainerPort p) \<in> set (rs_endpoints (virtual_To a))"
  proof (cases "find (matches_rule hm req) (Rules a)")
    case (Some r)
    then have "r \<in> set (Rules a)" by (auto simp: find_Some_iff)
    with Some show ?thesis using e by (simp add: c)
  qed (simp add: c)
  then show ?thesis by (intro bexI [OF _ rc]) simp
qed

text \<open>An Envoy for the examples: values are compared without regard to case.\<close>

definition lower_char :: "char \<Rightarrow> char" where
  "lower_char c = (if 65 \<le> (of_char c :: nat) \<and> (of_char c :: nat) \<le> 90 then char_of ((of_char c :: nat) + 32) else c)"

definition header_matches :: "(string \<times> string) list \<Rightarrow> string \<times> string \<Rightarrow> bool" where
  "header_matches req kv =
     (case map_of req (fst kv) of None \<Rightarrow> False | Some v \<Rightarrow> map lower_char v = map lower_char (snd kv))"

definition choose_route :: "RouteConfiguration \<Rightarrow> (string \<times> string) list \<Rightarrow> EnvoyRoute option" where
  "choose_route rc req = find (\<lambda>r. list_all (header_matches req) (er_Headers r)) (rc_Routes rc)"

lemma lawful_choose_route: "lawful_envoy header_matches choose_route"
  by (simp add: lawful_envoy_def choose_route_def)

section \<open>Properties\<close>

text \<open>C35: every workload configuration gives resources that pass the consistency check of the snapshot, whatever
  its ports and rules are, duplicates included; so processing never stops at a snapshot it made itself.\<close>

theorem To_consistent: "Consistent (virtual_To a)"
  by (rule virtual_To_Consistent)

text \<open>C12: after a file has been processed, every node named in it is served the resources of its own configuration in
  the file, whether they were set now or skipped because the same configuration is still remembered; the
  version stays a positive 64-bit number and the memory of the processor stays true of what is served.\<close>

theorem ProcessFile_serves:
  assumes "pr_ok p" and "\<forall>u. set_ok u" and "distinct (map Uid as)" and "a \<in> set as" and "Uid a \<noteq> []"
  shows "(\<exists>v. pr_cache (ProcessFile fresh set_ok (Some as) p) (Uid a) = Some (v, virtual_To a))
    \<and> pr_ok (ProcessFile fresh set_ok (Some as) p)"
  using process_configs_serves [OF assms] process_configs_ok [OF assms(1,2)] by (simp add: ProcessFile_def)

definition example_virtual :: Virtual where
  "example_virtual = \<lparr>Uid = ''deployments.apps.web'',
     Ports = Some [\<lparr>cp_Name = ''http'', cp_HostPort = 0, cp_ContainerPort = 9080, cp_Protocol = ''TCP'', cp_HostIP = []\<rparr>],
     Rules = [\<lparr>Headers = Some [(''user'', ''alice'')], LocalTunIPv4 = ''223.254.0.102'', LocalTunIPv6 = ''efff::102''\<rparr>]\<rparr>"

theorem ProcessFile_serves_witness:
  "\<exists>v. pr_cache (ProcessFile (\<lambda>_. False) (\<lambda>_. True) (Some [example_virtual])
     \<lparr>pr_cache = Map.empty, pr_version = MaxInt64, pr_last = Map.empty, pr_fatal = False\<rparr>) ''deployments.apps.web'' =
   Some (v, virtual_To example_virtual)"
proof -
  let ?p = "\<lparr>pr_cache = Map.empty, pr_version = MaxInt64, pr_last = Map.empty, pr_fatal = False\<rparr>"
  have "pr_ok ?p" by (simp add: pr_ok_def MaxInt64_def)
  from ProcessFile_serves [OF this, of "\<lambda>_. True" "[example_virtual]" example_virtual "\<lambda>_. False"] show ?thesis
    by (simp add: example_virtual_def)
qed

text \<open>C13: which client a request reaches.  On each port the request goes to the IPv4 address of the first rule whose
  headers it carries, over a cluster whose one endpoint is that address and the port, and to the workload itself when
  it matches no rule.  The IPv6 address of a rule is never chosen: its route follows the IPv4 route with the
  same matchers.\<close>

theorem request_reaches_first_rule:
  assumes "lawful_envoy hm pick" and "p \<in> set (port_list a)"
  shows "\<exists>rc\<in>set (rs_routes (virtual_To a)). rc_Name rc = listener_name (Uid a) p
    \<and> (case find (matches_rule hm req) (Rules a) of
         None \<Rightarrow> pick rc req = Some DefaultRoute
       | Some r \<Rightarrow> pick rc req = Some (ToRoute (cluster_name (LocalTunIPv4 r) p) (Headers r)) \<and>
           ToEndPoint (cluster_name (LocalTunIPv4 r) p) (LocalTunIPv4 r) (cp_ContainerPort p) \<in> set (rs_endpoints (virtual_To a)))"
  by (rule request_route [OF assms])

theorem request_reaches_first_rule_witness:
  "\<exists>rc\<in>set (rs_routes (virtual_To example_virtual)).
     choose_route rc [(''user'', ''ALICE'')] = Some (ToRoute ''223.254.0.102_9080'' (Some [(''user'', ''alice'')]))"
proof -
  let ?p = "\<lparr>cp_Name = ''http'', cp_HostPort = 0, cp_ContainerPort = 9080, cp_Protocol = ''TCP'', cp_HostIP = []\<rparr>"
  have "?p \<in> set (port_list example_virtual)" by (simp add: example_virtual_def port_list_def)
  moreover have "find (matches_rule header_matches [(''user'', ''ALICE'')]) (Rules example_virtual) =
      Some \<lparr>Headers = Some [(''user'', ''alice'')], LocalTunIPv4 = ''223.254.0.102'', LocalTunIPv6 = ''efff::102''\<rparr>"
    by code_simp
  moreover have "cluster_name ''223.254.0.102'' ?p = ''223.254.0.102_9080''" by code_simp
  ultimately show ?thesis
    using request_reaches_first_rule [OF lawful_choose_route, of ?p example_virtual "[(''user'', ''ALICE'')]"] by auto
qed

end
