(* ===== verification/Envoy_Rules.thy ===== *)
theory Envoy_Rules
  imports Control_Plane Kube_Client
begin

text \<open>
  The mesh rules in the ConfigMap (\<^verbatim>\<open>addEnvoyConfig\<close>, \<^verbatim>\<open>removeEnvoyConfig\<close> and \<^verbatim>\<open>contains\<close> of
  \<^verbatim>\<open>src/pkg/handler/envoy.go\<close>, \<^verbatim>\<open>Merge\<close> of \<^verbatim>\<open>src/pkg/util/util.go\<close>).  The YAML library is a parameter: a function
  that parses the text of the key and one that prints a configuration.
\<close>

section \<open>Rules of one workload\<close>

text \<open>\<^verbatim>\<open>util.Merge\<close>: writing to a nil map panics; the test for nil comes after the loop.\<close>

definition Merge :: "header_map \<Rightarrow> header_map \<Rightarrow> ('e, header_map) outcome" where
  "Merge fromMap toMap =
     (case fromMap of
        Some es \<Rightarrow> Ret (Some (fold (\<lambda>(k, v). AList.update k v) (entries toMap) es))
      | None \<Rightarrow> if entries toMap = [] then Ret toMap else Panic)"

record PodRouteConfig =
  pr_LocalTunIPv4 :: string
  pr_LocalTunIPv6 :: string

definition new_rule :: "PodRouteConfig \<Rightarrow> header_map \<Rightarrow> Rule" where
  "new_rule tunIP headers =
     \<lparr>Headers = headers, LocalTunIPv4 = pr_LocalTunIPv4 tunIP, LocalTunIPv6 = pr_LocalTunIPv6 tunIP\<rparr>"

definition same_client :: "PodRouteConfig \<Rightarrow> Rule \<Rightarrow> bool" where
  "same_client tunIP r \<longleftrightarrow> LocalTunIPv4 r = pr_LocalTunIPv4 tunIP \<and> LocalTunIPv6 r = pr_LocalTunIPv6 tunIP"

fun merge_rules :: "PodRouteConfig \<Rightarrow> header_map \<Rightarrow> Rule list \<Rightarrow> ('e, Rule list) outcome" where
  "merge_rules tunIP headers [] = Ret []"
| "merge_rules tunIP headers (r # rs) =
     (if same_client tunIP r then
        bind_outcome (Merge (Headers r) headers) (\<lambda>h.
          map_outcome (Cons (r\<lparr>Headers := h\<rparr>)) (merge_rules tunIP headers rs))
      else map_outcome (Cons r) (merge_rules tunIP headers rs))"

definition add_to_virtual ::
  "PodRouteConfig \<Rightarrow> header_map \<Rightarrow> ContainerPort list option \<Rightarrow> Virtual \<Rightarrow> ('e, Virtual) outcome" where
  "add_to_virtual tunIP headers port a =
     (if list_ex (same_client tunIP) (Rules a) then
        map_outcome (\<lambda>rs. a\<lparr>Rules := rs\<rparr>) (merge_rules tunIP headers (Rules a))
      else
        Ret (a\<lparr>Rules := Rules a @ [new_rule tunIP headers],
               Ports := (if Ports a = None then port else Ports a)\<rparr>))"

text \<open>The first entry of the workload is changed; a workload without an entry gets one at the end.\<close>

fun add_rule ::
  "string \<Rightarrow> PodRouteConfig \<Rightarrow> header_map \<Rightarrow> ContainerPort list option \<Rightarrow> Virtual list \<Rightarrow> ('e, Virtual list) outcome" where
  "add_rule nodeID tunIP headers port [] =
     Ret [\<lparr>Uid = nodeID, Ports = port, Rules = [new_rule tunIP headers]\<rparr>]"
| "add_rule nodeID tunIP headers port (a # as) =
     (if nodeID = Uid a then map_outcome (\<lambda>a'. a' # as) (add_to_virtual tunIP headers port a)
      else map_outcome (Cons a) (add_rule nodeID tunIP headers port as))"

text \<open>The two loops of \<^verbatim>\<open>removeEnvoyConfig\<close>: the rules of the client go, then the entries without rules.\<close>

definition drop_rules :: "string \<Rightarrow> string \<Rightarrow> Virtual \<Rightarrow> Virtual" where
  "drop_rules nodeID v4 a =
     (if nodeID = Uid a then a\<lparr>Rules := fst (delete_loop (\<lambda>r. LocalTunIPv4 r = v4) 0 (Rules a) 0)\<rparr> else a)"

definition is_default :: "string \<Rightarrow> Virtual \<Rightarrow> bool" where
  "is_default nodeID a \<longleftrightarrow> nodeID = Uid a \<and> Rules a = []"

definition remove_rule :: "string \<Rightarrow> string \<Rightarrow> Virtual list \<Rightarrow> Virtual list \<times> bool" where
  "remove_rule nodeID v4 v =
     (let v1 = map (drop_rules nodeID v4) v in
      (fst (delete_loop (is_default nodeID) 0 v1 0), 0 < snd (delete_loop (is_default nodeID) 0 v1 0)))"

definition contains_headers :: "header_map \<Rightarrow> header_map \<Rightarrow> bool" where
  "contains_headers a sub =
     list_all (\<lambda>(k, v). (case map_of (entries a) k of None \<Rightarrow> [] | Some w \<Rightarrow> w) = v) (entries sub)"

section \<open>The ConfigMap\<close>

record yaml_codec =
  ym_unmarshal :: "string \<Rightarrow> Virtual list option"
  ym_marshal :: "Virtual list \<Rightarrow> string option"

datatype envoy_err = EnvoyApi api_err | EnvoyYaml | EnvoyNoKey

text \<open>Storing the text under a key of a nil map panics; the update carries the version that was read.\<close>

definition put_config :: "'w cm_client \<Rightarrow> configmap \<Rightarrow> string \<Rightarrow> 'w \<Rightarrow> (envoy_err, 'w) outcome" where
  "put_config cl cm str w =
     bind_outcome (gomap_set (cm_data cm) KeyEnvoy str) (\<lambda>m.
       case cm_Update cl w (cm\<lparr>cm_data := m\<rparr>) of
         (Inl e, w') \<Rightarrow> Fail (EnvoyApi e)
       | (Inr _, w') \<Rightarrow> Ret w')"

text \<open>From the ConfigMap that was read to the end.\<close>

definition finish_add ::
  "'w cm_client \<Rightarrow> yaml_codec \<Rightarrow> string \<Rightarrow> PodRouteConfig \<Rightarrow> header_map \<Rightarrow> ContainerPort list option \<Rightarrow> configmap \<Rightarrow> 'w \<Rightarrow>
   (envoy_err, 'w) outcome" where
  "finish_add cl ym nodeID tunIP headers port cm w =
     (case (case gomap_get (cm_data cm) KeyEnvoy of None \<Rightarrow> Some [] | Some str \<Rightarrow> ym_unmarshal ym str) of
        None \<Rightarrow> Fail EnvoyYaml
      | Some v \<Rightarrow>
          bind_outcome (add_rule nodeID tunIP headers port v) (\<lambda>v'.
            case ym_marshal ym v' of
              None \<Rightarrow> Fail EnvoyYaml
            | Some str \<Rightarrow> put_config cl cm str w))"

definition addEnvoyConfig ::
  "'w cm_client \<Rightarrow> yaml_codec \<Rightarrow> ('w \<Rightarrow> 'w) \<Rightarrow> string \<Rightarrow> PodRouteConfig \<Rightarrow> header_map \<Rightarrow> ContainerPort list option \<Rightarrow> 'w \<Rightarrow>
   (envoy_err, 'w) outcome" where
  "addEnvoyConfig cl ym mid nodeID tunIP headers port w =
     (case cm_Get cl w ConfigMapPodTrafficManager of
        Inl e \<Rightarrow> Fail (EnvoyApi e)
      | Inr cm \<Rightarrow> finish_add cl ym nodeID tunIP headers port cm (mid w))"

definition finish_remove ::
  "'w cm_client \<Rightarrow> yaml_codec \<Rightarrow> string \<Rightarrow> string \<Rightarrow> configmap \<Rightarrow> 'w \<Rightarrow> (envoy_err, bool \<times> 'w) outcome" where
  "finish_remove cl ym nodeID v4 cm w =
     (case gomap_get (cm_data cm) KeyEnvoy of
        None \<Rightarrow> Fail EnvoyNoKey
      | Some str \<Rightarrow>
          (case ym_unmarshal ym str of
             None \<Rightarrow> Fail EnvoyYaml
           | Some v \<Rightarrow>
               (case ym_marshal ym (fst (remove_rule nodeID v4 v)) of
                  None \<Rightarrow> Fail EnvoyYaml
                | Some str' \<Rightarrow> map_outcome (Pair (snd (remove_rule nodeID v4 v))) (put_config cl cm str' w))))"

definition removeEnvoyConfig ::
  "'w cm_client \<Rightarrow> yaml_codec \<Rightarrow> ('w \<Rightarrow> 'w) \<Rightarrow> string \<Rightarrow> string \<Rightarrow> 'w \<Rightarrow> (envoy_err, bool \<times> 'w) outcome" where
  "removeEnvoyConfig cl ym mid nodeID v4 w =
     (case cm_Get cl w ConfigMapPodTrafficManager of
        Inl NotFound \<Rightarrow> Ret (True, w)
      | Inl e \<Rightarrow> Fail (EnvoyApi e)
      | Inr cm \<Rightarrow> finish_remove cl ym nodeID v4 cm (mid w))"

text \<open>What is stored: the configuration behind the key in a world.\<close>

definition stored :: "'w cm_client \<Rightarrow> yaml_codec \<Rightarrow> 'w \<Rightarrow> Virtual list option" where
  "stored cl ym w =
     (case cm_Get cl w ConfigMapPodTrafficManager of
        Inl e \<Rightarrow> None
      | Inr cm \<Rightarrow> (case gomap_get (cm_data cm) KeyEnvoy of None \<Rightarrow> Some [] | Some str \<Rightarrow> ym_unmarshal ym str))"

section \<open>Adding and removing\<close>

lemma drop_rules_filter:
  "drop_rules nodeID v4 a = (if nodeID = Uid a then a\<lparr>Rules := filter (\<lambda>r. LocalTunIPv4 r \<noteq> v4) (Rules a)\<rparr> else a)"
  by (simp add: drop_rules_def)

lemma remove_rule_eq:
  "remove_rule nodeID v4 v =
     (filter (\<lambda>a. \<not> is_default nodeID a) (map (drop_rules nodeID v4) v), list_ex (is_default nodeID) (map (drop_rules nodeID v4) v))"
  by (simp add: remove_rule_def Let_def list_ex_iff filter_empty_conv)

lemma update_fold_lookup:
  assumes "distinct (map fst hs)"
  shows "map_of (fold (\<lambda>(k, v). AList.update k v) hs es) k = (case map_of hs k of None \<Rightarrow> map_of es k | Some x \<Rightarrow> Some x)"
  using assms
proof (induction hs arbitrary: es)
  case (Cons h hs)
  obtain a b where h: "h = (a, b)" by force
  have "map_of hs a = None" using Cons.prems h by (simp add: map_of_eq_None_iff)
  with Cons h show ?case by (auto simp: update_conv' split: option.splits)
qed simp

text \<open>Merging gives a map in which the new headers win; only a nil map that must grow panics.\<close>

lemma Merge_spec:
  assumes "distinct (map fst (entries toMap))"
  shows "Merge fromMap toMap = Panic \<longleftrightarrow> fromMap = None \<and> entries toMap \<noteq> []"
    and "Merge fromMap toMap = Ret h \<Longrightarrow> map_of (entries h) = map_of (entries fromMap) ++ map_of (entries toMap)"
    and "Merge fromMap toMap \<noteq> Fail e"
proof -
  show "Merge fromMap toMap = Panic \<longleftrightarrow> fromMap = None \<and> entries toMap \<noteq> []"
    by (simp add: Merge_def split: option.splits)
  show "Merge fromMap toMap \<noteq> Fail e"
    by (simp add: Merge_def split: option.splits)
  assume m: "Merge fromMap toMap = Ret h"
  show "map_of (entries h) = map_of (entries fromMap) ++ map_of (entries toMap)"
  proof (cases fromMap)
    case None
    with m show ?thesis by (auto simp: Merge_def entries_def split: if_splits)
  next
    case (Some es)
    with m have "h = Some (fold (\<lambda>(k, v). AList.update k v) (entries toMap) es)" by (simp add: Merge_def)
    with Some show ?thesis
      by (intro ext) (simp add: entries_def [of "Some _"] update_fold_lookup [OF assms] map_add_def)
  qed
qed

definition carries :: "header_map \<Rightarrow> Rule \<Rightarrow> bool" where
  "carries headers r \<longleftrightarrow> map_of (entries headers) \<subseteq>\<^sub>m map_of (entries (Headers r))"

lemma merge_rules_spec:
  assumes "distinct (map fst (entries headers))" and "(merge_rules tunIP headers rs :: ('e, Rule list) outcome) = Ret rs'"
  shows "map LocalTunIPv4 rs' = map LocalTunIPv4 rs" and "map (same_client tunIP) rs' = map (same_client tunIP) rs"
    and "filter (\<lambda>r. \<not> same_client tunIP r) rs' = filter (\<lambda>r. \<not> same_client tunIP r) rs"
    and "\<And>r. r \<in> set rs' \<Longrightarrow> same_client tunIP r \<Longrightarrow> carries headers r"
proof -
  have "map LocalTunIPv4 rs' = map LocalTunIPv4 rs \<and> map (same_client tunIP) rs' = map (same_client tunIP) rs
    \<and> filter (\<lambda>r. \<not> same_client tunIP r) rs' = filter (\<lambda>r. \<not> same_client tunIP r) rs
    \<and> (\<forall>r\<in>set rs'. same_client tunIP r \<longrightarrow> carries headers r)"
    using assms(2)
  proof (induction rs arbitrary: rs')
    case (Cons r rs)
    show ?case
    proof (cases "same_client tunIP r")
      case True
      from Cons.prems True obtain h rs1 where h: "(Merge (Headers r) headers :: ('e, _) outcome) = Ret h"
        and rs1: "(merge_rules tunIP headers rs :: ('e, _) outcome) = Ret rs1" and rs': "rs' = r\<lparr>Headers := h\<rparr> # rs1"
        by (auto simp: outcome_simps)
      have "carries headers (r\<lparr>Headers := h\<rparr>)"
        using Merge_spec(2) [OF assms(1) h] by (simp add: carries_def)
      moreover have "same_client tunIP (r\<lparr>Headers := h\<rparr>)" using True by (simp add: same_client_def)
      ultimately show ?thesis using Cons.IH [OF rs1] True rs' by simp
    next
      case False
      from Cons.prems False obtain rs1 where rs1: "(merge_rules tunIP headers rs :: ('e, _) outcome) = Ret rs1" and rs': "rs' = r # rs1"
        by (auto simp: outcome_simps)
      show ?thesis using Cons.IH [OF rs1] False rs' by simp
    qed
  qed simp
  then show "map LocalTunIPv4 rs' = map LocalTunIPv4 rs" and "map (same_client tunIP) rs' = map (same_client tunIP) rs"
    and "filter (\<lambda>r. \<not> same_client tunIP r) rs' = filter (\<lambda>r. \<not> same_client tunIP r) rs"
    and "\<And>r. r \<in> set rs' \<Longrightarrow> same_client tunIP r \<Longrightarrow> carries headers r" by blast+
qed


lemma add_rule_present:
  assumes "distinct (map fst (entries headers))" and "(add_rule nodeID tunIP headers port v :: ('e, Virtual list) outcome) = Ret v'"
  shows "\<exists>a\<in>set v'. Uid a = nodeID \<and> (\<exists>r\<in>set (Rules a). same_client tunIP r \<and> carries headers r)"
  using assms(2)
proof (induction v arbitrary: v')
  case Nil
  have "same_client tunIP (new_rule tunIP headers)" "carries headers (new_rule tunIP headers)"
    by (simp_all add: same_client_def carries_def new_rule_def)
  with Nil show ?case by auto
next
  case (Cons a as)
  show ?case
  proof (cases "nodeID = Uid a")
    case False
    with Cons.prems obtain v1 where "(add_rule nodeID tunIP headers port as :: ('e, _) outcome) = Ret v1" "v' = a # v1"
      by (auto simp: outcome_simps)
    with Cons.IH show ?thesis by auto
  next
    case True
    with Cons.prems obtain a' where a': "(add_to_virtual tunIP headers port a :: ('e, _) outcome) = Ret a'" "v' = a' # as"
      by (auto simp: outcome_simps)
    have "Uid a' = nodeID \<and> (\<exists>r\<in>set (Rules a'). same_client tunIP r \<and> carries headers r)"
    proof (cases "list_ex (same_client tunIP) (Rules a)")
      case ex: True
      with a'(1) obtain rs where rs: "(merge_rules tunIP headers (Rules a) :: ('e, _) outcome) = Ret rs" "a' = a\<lparr>Rules := rs\<rparr>"
        by (auto simp: add_to_virtual_def outcome_simps)
      note ms = merge_rules_spec [OF assms(1) rs(1)]
      from ex ms(2) have "\<exists>r\<in>set rs. same_client tunIP r"
        by (metis (mono_tags, lifting) image_iff list.set_map list_ex_iff)
      with ms(4) rs(2) True show ?thesis by auto
    next
      case False
      then have e: "a' = a\<lparr>Rules := Rules a @ [new_rule tunIP headers], Ports := (if Ports a = None then port else Ports a)\<rparr>"
        using a'(1) by (simp add: add_to_virtual_def)
      show ?thesis unfolding e using True by (simp add: same_client_def carries_def new_rule_def)
    qed
    with a'(2) show ?thesis by auto
  qed
qed

text \<open>The entries of other workloads are never touched.\<close>

lemma add_rule_others:
  "(add_rule nodeID tunIP headers port v :: ('e, Virtual list) outcome) = Ret v' \<Longrightarrow>
   filter (\<lambda>a. Uid a \<noteq> nodeID) v' = filter (\<lambda>a. Uid a \<noteq> nodeID) v"
proof (induction v arbitrary: v')
  case (Cons a as)
  show ?case
  proof (cases "nodeID = Uid a")
    case True
    with Cons.prems obtain a' where a': "(add_to_virtual tunIP headers port a :: ('e, _) outcome) = Ret a'" "v' = a' # as"
      by (auto simp: outcome_simps)
    then have "Uid a' = Uid a" by (auto simp: add_to_virtual_def outcome_simps split: if_splits)
    with a'(2) True show ?thesis by simp
  next
    case False
    with Cons show ?thesis by (auto simp: outcome_simps)
  qed
qed auto

text \<open>The entries stay those of different workloads.\<close>

lemma add_rule_Uids:
  assumes "(add_rule nodeID tunIP headers port v :: ('e, _) outcome) = Ret v'"
  shows "map Uid v' = (if nodeID \<in> Uid ` set v then map Uid v else map Uid v @ [nodeID])"
  using assms
proof (induction v arbitrary: v')
  case (Cons a as)
  show ?case
  proof (cases "nodeID = Uid a")
    case True
    with Cons.prems obtain a' where a': "(add_to_virtual tunIP headers port a :: ('e, _) outcome) = Ret a'" "v' = a' # as"
      by (auto simp: outcome_simps)
    then have "Uid a' = Uid a" by (auto simp: add_to_virtual_def outcome_simps split: if_splits)
    with a'(2) True show ?thesis by simp
  next
    case False
    with Cons.prems obtain v1 where v1: "(add_rule nodeID tunIP headers port as :: ('e, _) outcome) = Ret v1" "v' = a # v1"
      by (auto simp: outcome_simps)
    with False Cons.IH [OF v1(1)] show ?thesis by auto
  qed
qed simp

lemma remove_rule_others:
  "filter (\<lambda>a. Uid a \<noteq> nodeID) (fst (remove_rule nodeID v4 v)) = filter (\<lambda>a. Uid a \<noteq> nodeID) v"
  unfolding remove_rule_eq fst_conv
  by (induction v) (auto simp: drop_rules_filter is_default_def)

lemma remove_rule_gone:
  "a \<in> set (fst (remove_rule nodeID v4 v)) \<Longrightarrow> Uid a = nodeID \<Longrightarrow> Rules a \<noteq> [] \<and> (\<forall>r\<in>set (Rules a). LocalTunIPv4 r \<noteq> v4)"
  unfolding remove_rule_eq fst_conv by (auto simp: drop_rules_filter is_default_def split: if_splits)

definition fill_ports :: "string \<Rightarrow> ContainerPort list option \<Rightarrow> Virtual \<Rightarrow> Virtual" where
  "fill_ports nodeID port a = (if Uid a = nodeID \<and> Ports a = None then a\<lparr>Ports := port\<rparr> else a)"

definition absent :: "string \<Rightarrow> string \<Rightarrow> Virtual \<Rightarrow> bool" where
  "absent nodeID v4 a \<longleftrightarrow> (Uid a = nodeID \<longrightarrow> Rules a \<noteq> [] \<and> (\<forall>r\<in>set (Rules a). LocalTunIPv4 r \<noteq> v4))"

lemma absent_kept:
  assumes "absent nodeID v4 a"
  shows "drop_rules nodeID v4 a = a" and "\<not> is_default nodeID a"
proof -
  from assms have "Uid a = nodeID \<Longrightarrow> filter (\<lambda>r. LocalTunIPv4 r \<noteq> v4) (Rules a) = Rules a"
    by (simp add: absent_def filter_id_conv)
  then show "drop_rules nodeID v4 a = a" by (simp add: drop_rules_filter)
  show "\<not> is_default nodeID a" using assms by (auto simp: is_default_def absent_def)
qed

lemma absent_remove: "\<forall>a\<in>set v. absent nodeID v4 a \<Longrightarrow> remove_rule nodeID v4 v = (v, False)"
proof -
  assume v: "\<forall>a\<in>set v. absent nodeID v4 a"
  then have "map (drop_rules nodeID v4) v = v" by (intro map_idI) (simp add: absent_kept)
  moreover have "\<forall>a\<in>set v. \<not> is_default nodeID a" using v absent_kept(2) by blast
  ultimately show ?thesis by (simp add: remove_rule_eq list_ex_iff)
qed

lemma remove_rule_Cons:
  "remove_rule nodeID v4 (a # as) =
     (if is_default nodeID (drop_rules nodeID v4 a) then (fst (remove_rule nodeID v4 as), True)
      else (drop_rules nodeID v4 a # fst (remove_rule nodeID v4 as), snd (remove_rule nodeID v4 as)))"
  by (simp add: remove_rule_eq)

lemma add_absent:
  assumes "absent (Uid a) (pr_LocalTunIPv4 tunIP) a"
  shows "(add_to_virtual tunIP headers port a :: ('e, _) outcome) =
      Ret (a\<lparr>Rules := Rules a @ [new_rule tunIP headers], Ports := (if Ports a = None then port else Ports a)\<rparr>)"
    and "Uid a = n \<Longrightarrow> drop_rules n (pr_LocalTunIPv4 tunIP)
        (a\<lparr>Rules := Rules a @ [new_rule tunIP headers], Ports := (if Ports a = None then port else Ports a)\<rparr>) = fill_ports n port a"
proof -
  have "\<not> list_ex (same_client tunIP) (Rules a)"
    using assms by (auto simp: absent_def list_ex_iff same_client_def)
  then show "(add_to_virtual tunIP headers port a :: ('e, _) outcome) =
      Ret (a\<lparr>Rules := Rules a @ [new_rule tunIP headers], Ports := (if Ports a = None then port else Ports a)\<rparr>)"
    by (simp add: add_to_virtual_def)
  have "filter (\<lambda>r. LocalTunIPv4 r \<noteq> pr_LocalTunIPv4 tunIP) (Rules a) = Rules a"
    using assms by (simp add: absent_def filter_id_conv)
  then show "Uid a = n \<Longrightarrow> drop_rules n (pr_LocalTunIPv4 tunIP)
        (a\<lparr>Rules := Rules a @ [new_rule tunIP headers], Ports := (if Ports a = None then port else Ports a)\<rparr>) = fill_ports n port a"
    by (simp add: drop_rules_filter new_rule_def fill_ports_def)
qed


lemma add_then_remove:
  assumes "distinct (map Uid v)" and "\<forall>a\<in>set v. absent nodeID (pr_LocalTunIPv4 tunIP) a"
  shows "\<exists>v'. (add_rule nodeID tunIP headers port v :: ('e, _) outcome) = Ret v'
    \<and> remove_rule nodeID (pr_LocalTunIPv4 tunIP) v' = (map (fill_ports nodeID port) v, nodeID \<notin> Uid ` set v)"
  using assms
proof (induction v)
  case Nil
  have "drop_rules nodeID (pr_LocalTunIPv4 tunIP) \<lparr>Uid = nodeID, Ports = port, Rules = [new_rule tunIP headers]\<rparr>
      = \<lparr>Uid = nodeID, Ports = port, Rules = []\<rparr>"
    by (simp add: drop_rules_filter new_rule_def)
  then show ?case by (simp add: remove_rule_eq is_default_def)
next
  case (Cons a as)
  let ?v4 = "pr_LocalTunIPv4 tunIP"
  show ?case
  proof (cases "nodeID = Uid a")
    case True
    then have abs: "absent (Uid a) ?v4 a" using Cons.prems by simp
    have as: "remove_rule nodeID ?v4 as = (as, False)" using absent_remove Cons.prems(2) by simp
    have fill: "map (fill_ports nodeID port) as = as"
      using Cons.prems(1) True by (intro map_idI) (force simp: fill_ports_def image_iff)
    have "\<not> is_default nodeID (fill_ports nodeID port a)"
      using abs True by (auto simp: is_default_def fill_ports_def absent_def)
    then show ?thesis
      using True add_absent(2) [OF abs, of nodeID port headers] as fill by (simp add: remove_rule_Cons add_absent(1) [OF abs])
  next
    case False
    then have "drop_rules nodeID ?v4 a = a" "\<not> is_default nodeID a" "fill_ports nodeID port a = a"
      by (simp_all add: drop_rules_filter is_default_def fill_ports_def)
    moreover obtain v1 where "(add_rule nodeID tunIP headers port as :: ('e, _) outcome) = Ret v1"
      "remove_rule nodeID ?v4 v1 = (map (fill_ports nodeID port) as, nodeID \<notin> Uid ` set as)"
      using Cons by auto
    ultimately show ?thesis using False by (auto simp: remove_rule_Cons)
  qed
qed

section \<open>What the ConfigMap holds afterwards\<close>

text \<open>
  The documented behaviour that is relied on: what the YAML library prints it reads back, and while an object
  keeps its version it is not changed.
\<close>

definition lawful_yaml :: "yaml_codec \<Rightarrow> bool" where
  "lawful_yaml ym \<longleftrightarrow> (\<forall>v txt. ym_marshal ym v = Some txt \<longrightarrow> ym_unmarshal ym txt = Some v)"

definition versioned :: "'w cm_client \<Rightarrow> ('w \<Rightarrow> 'w) \<Rightarrow> bool" where
  "versioned cl mid \<longleftrightarrow>
     (\<forall>w n cm cm'. cm_Get cl w n = Inr cm \<longrightarrow> cm_Get cl (mid w) n = Inr cm' \<longrightarrow> cm_version cm' = cm_version cm \<longrightarrow> cm' = cm)"

lemma versioned_id: "versioned cl id"
  by (simp add: versioned_def)

lemma put_config_stored:
  assumes cl: "lawful_client cl" and ym: "lawful_yaml ym" and get: "cm_Get cl w ConfigMapPodTrafficManager = Inr cm"
    and mid: "versioned cl mid" and str: "ym_marshal ym v = Some str" and put: "put_config cl cm str (mid w) = Ret w'"
  shows "cm_Get cl (mid w) ConfigMapPodTrafficManager = Inr cm" and "stored cl ym w' = Some v"
proof -
  from put obtain m where m: "(gomap_set (cm_data cm) KeyEnvoy str :: (envoy_err, _) outcome) = Ret m"
    and r: "(case cm_Update cl (mid w) (cm\<lparr>cm_data := m\<rparr>) of (Inl e, w') \<Rightarrow> Fail (EnvoyApi e) | (Inr _, w') \<Rightarrow> Ret w') = Ret w'"
    unfolding put_config_def bind_outcome_Ret_iff by blast
  from r obtain c where upd: "cm_Update cl (mid w) (cm\<lparr>cm_data := m\<rparr>) = (Inr c, w')"
    by (auto split: prod.splits sum.splits)
  have name: "cm_name cm = ConfigMapPodTrafficManager" by (rule lawful_Get_name [OF cl get])
  obtain old where old: "cm_Get cl (mid w) ConfigMapPodTrafficManager = Inr old" "cm_version old = cm_version cm"
    "cm_Get cl w' ConfigMapPodTrafficManager = Inr c" "\<And>k. gomap_get (cm_data c) k = gomap_get m k"
    by (rule lawful_Update_succeeds [OF cl upd]) (simp add: name)
  from mid get old(1,2) have "old = cm" unfolding versioned_def by blast
  with old(1) show "cm_Get cl (mid w) ConfigMapPodTrafficManager = Inr cm" by simp
  have "gomap_get m KeyEnvoy = Some str" using m by (cases "cm_data cm") auto
  with old(3,4) ym str show "stored cl ym w' = Some v" by (simp add: stored_def lawful_yaml_def)
qed

lemma addEnvoyConfig_stored:
  assumes cl: "lawful_client cl" and ym: "lawful_yaml ym" and mid: "versioned cl mid"
    and add: "addEnvoyConfig cl ym mid nodeID tunIP headers port w = Ret w'"
  shows "\<exists>v v'. stored cl ym (mid w) = Some v \<and> (add_rule nodeID tunIP headers port v :: (envoy_err, _) outcome) = Ret v'
    \<and> stored cl ym w' = Some v'"
proof -
  from add obtain cm where get: "cm_Get cl w ConfigMapPodTrafficManager = Inr cm"
    and fin: "finish_add cl ym nodeID tunIP headers port cm (mid w) = Ret w'"
    by (auto simp: addEnvoyConfig_def split: sum.splits)
  let ?read = "case gomap_get (cm_data cm) KeyEnvoy of None \<Rightarrow> Some [] | Some str \<Rightarrow> ym_unmarshal ym str"
  from fin obtain v where v: "?read = Some v"
    unfolding finish_add_def by (cases ?read) simp_all
  from fin [unfolded finish_add_def v option.case] obtain v' str
    where v': "(add_rule nodeID tunIP headers port v :: (envoy_err, _) outcome) = Ret v'"
      and str: "ym_marshal ym v' = Some str" and put: "put_config cl cm str (mid w) = Ret w'"
    by (auto simp: outcome_simps split: option.splits)
  note ws = put_config_stored [OF cl ym get mid str put]
  have "stored cl ym (mid w) = Some v" using ws(1) v by (simp add: stored_def)
  with v' ws(2) show ?thesis by blast
qed

lemma removeEnvoyConfig_stored:
  assumes cl: "lawful_client cl" and ym: "lawful_yaml ym" and mid: "versioned cl mid"
    and rem: "removeEnvoyConfig cl ym mid nodeID v4 w = Ret (none_left, w')"
    and found: "cm_Get cl w ConfigMapPodTrafficManager \<noteq> Inl NotFound"
  shows "\<exists>v. stored cl ym (mid w) = Some v \<and> stored cl ym w' = Some (fst (remove_rule nodeID v4 v)) \<and> none_left = snd (remove_rule nodeID v4 v)"
proof -
  from rem found obtain cm where get: "cm_Get cl w ConfigMapPodTrafficManager = Inr cm"
    and fin: "finish_remove cl ym nodeID v4 cm (mid w) = Ret (none_left, w')"
    by (auto simp: removeEnvoyConfig_def split: sum.splits api_err.splits)
  from fin obtain str v str' where str: "gomap_get (cm_data cm) KeyEnvoy = Some str" and v: "ym_unmarshal ym str = Some v"
    and str': "ym_marshal ym (fst (remove_rule nodeID v4 v)) = Some str'" and put: "put_config cl cm str' (mid w) = Ret w'"
    and e: "none_left = snd (remove_rule nodeID v4 v)"
    unfolding finish_remove_def by (auto simp: outcome_simps split: option.splits)
  note ws = put_config_stored [OF cl ym get mid str' put]
  have "stored cl ym (mid w) = Some v" using ws(1) str v by (simp add: stored_def)
  with ws(2) e show ?thesis by blast
qed


text \<open>C9: registering a client for a workload is atomic and does what it should.  For every API server and YAML
  library that behave as documented, and whatever others write between the read and the write: when
  \<^verbatim>\<open>addEnvoyConfig\<close> succeeds, the configuration in the ConfigMap is that of the moment of the write with the
  rule of the client added, no write of anyone is lost, the entries of all other workloads are as they were, and
  the workload has a rule for the addresses of the client that carries the headers asked for.\<close>
theorem addEnvoyConfig_exact:
  assumes "lawful_client cl" and "lawful_yaml ym" and "versioned cl mid"
    and "distinct (map fst (entries headers))"
    and "addEnvoyConfig cl ym mid nodeID tunIP headers port w = Ret w'"
  shows "\<exists>v v'. stored cl ym (mid w) = Some v \<and> stored cl ym w' = Some v'
    \<and> (add_rule nodeID tunIP headers port v :: (envoy_err, _) outcome) = Ret v'
    \<and> filter (\<lambda>a. Uid a \<noteq> nodeID) v' = filter (\<lambda>a. Uid a \<noteq> nodeID) v
    \<and> (\<exists>a\<in>set v'. Uid a = nodeID \<and> (\<exists>r\<in>set (Rules a). same_client tunIP r
        \<and> map_of (entries headers) \<subseteq>\<^sub>m map_of (entries (Headers r))))"
proof -
  from addEnvoyConfig_stored [OF assms(1-3,5)] obtain v v' where v: "stored cl ym (mid w) = Some v" "stored cl ym w' = Some v'"
    and add: "(add_rule nodeID tunIP headers port v :: (envoy_err, _) outcome) = Ret v'" by blast
  from add_rule_present [OF assms(4) add] add_rule_others [OF add] v add show ?thesis
    unfolding carries_def by blast
qed

definition example_client :: PodRouteConfig where
  "example_client = \<lparr>pr_LocalTunIPv4 = ''223.254.0.101'', pr_LocalTunIPv6 = ''efff:ffff:ffff:ffff::999a''\<rparr>"

definition example_port :: ContainerPort where
  "example_port = \<lparr>cp_Name = ''http'', cp_HostPort = 0, cp_ContainerPort = 9080, cp_Protocol = ''TCP'', cp_HostIP = []\<rparr>"

definition example_entry :: Virtual where
  "example_entry = \<lparr>Uid = ''deployments.apps.web'', Ports = Some [example_port],
     Rules = [new_rule example_client (Some [(''user'', ''a'')])]\<rparr>"

text \<open>A codec for the two configurations of the examples.\<close>

definition example_yaml :: yaml_codec where
  "example_yaml = \<lparr>ym_unmarshal = (\<lambda>s. if s = '''' then Some [] else if s = ''web'' then Some [example_entry] else None),
     ym_marshal = (\<lambda>v. if v = [] then Some '''' else if v = [example_entry] then Some ''web'' else None)\<rparr>"

lemma lawful_example_yaml: "lawful_yaml example_yaml"
  by (simp add: lawful_yaml_def example_yaml_def)

definition mesh_cm :: "nat \<Rightarrow> string \<Rightarrow> configmap" where
  "mesh_cm n str = \<lparr>cm_name = ConfigMapPodTrafficManager, cm_namespace = ''default'', cm_version = n, cm_data = Some [KeyEnvoy \<mapsto> str]\<rparr>"

definition mesh_world :: "nat \<Rightarrow> string \<Rightarrow> store" where
  "mesh_world n str = \<lparr>st_rev = Suc n, st_cms = [ConfigMapPodTrafficManager \<mapsto> mesh_cm n str]\<rparr>"

lemma mesh_get: "st_get (mesh_world n str) ConfigMapPodTrafficManager = Inr (mesh_cm n str)"
  by (simp add: st_get_def mesh_world_def mesh_cm_def)

lemma mesh_put: "put_config store_client (mesh_cm n str) str' (mesh_world n str) = Ret (mesh_world (Suc n) str')"
  by (simp add: put_config_def mesh_cm_def st_update_def st_get_def mesh_world_def st_put_def Let_def)

lemma mesh_add:
  "addEnvoyConfig store_client example_yaml id ''deployments.apps.web'' example_client (Some [(''user'', ''a'')]) (Some [example_port]) (mesh_world n '''')
     = Ret (mesh_world (Suc n) ''web'')"
proof -
  have "gomap_get (cm_data (mesh_cm n '''')) KeyEnvoy = Some ''''" by (simp add: mesh_cm_def)
  then show ?thesis
    by (simp add: addEnvoyConfig_def mesh_get finish_add_def example_yaml_def example_entry_def [symmetric] mesh_put)
qed

lemma mesh_remove:
  "removeEnvoyConfig store_client example_yaml id ''deployments.apps.web'' ''223.254.0.101'' (mesh_world n ''web'') = Ret (True, mesh_world (Suc n) '''')"
proof -
  have g: "gomap_get (cm_data (mesh_cm n ''web'')) KeyEnvoy = Some ''web''" by (simp add: mesh_cm_def)
  have "remove_rule ''deployments.apps.web'' ''223.254.0.101'' [example_entry] = ([], True)"
    by (simp add: remove_rule_eq drop_rules_filter is_default_def example_entry_def new_rule_def example_client_def)
  with g show ?thesis
    by (simp add: removeEnvoyConfig_def mesh_get finish_remove_def example_yaml_def mesh_put)
qed

theorem addEnvoyConfig_exact_witness:
  "\<exists>w'. addEnvoyConfig store_client example_yaml id ''deployments.apps.web'' example_client (Some [(''user'', ''a'')]) (Some [example_port]) (mesh_world 1 '''') = Ret w'
    \<and> (\<exists>v'. stored store_client example_yaml w' = Some v'
        \<and> (\<exists>a\<in>set v'. Uid a = ''deployments.apps.web'' \<and> (\<exists>r\<in>set (Rules a). same_client example_client r)))"
  using addEnvoyConfig_exact [OF lawful_store lawful_example_yaml versioned_id _ mesh_add [of 1]] mesh_add [of 1]
  by (auto simp: entries_def)

text \<open>C11: leaving undoes joining.  A client without a rule for a workload that registers and then leaves brings the
  configuration back to what it was, up to the ports of an entry that had none; it is told that the workload has
  no rules left exactly when there was no entry before, which is when the sidecars are taken out.\<close>
theorem add_remove_config:
  assumes "lawful_client cl" and "lawful_yaml ym" and "stored cl ym w = Some v" and "distinct (map Uid v)"
    and "\<forall>a\<in>set v. Uid a = nodeID \<longrightarrow> Rules a \<noteq> [] \<and> (\<forall>r\<in>set (Rules a). LocalTunIPv4 r \<noteq> pr_LocalTunIPv4 tunIP)"
    and "addEnvoyConfig cl ym id nodeID tunIP headers port w = Ret w1"
    and "removeEnvoyConfig cl ym id nodeID (pr_LocalTunIPv4 tunIP) w1 = Ret (none_left, w2)"
  shows "stored cl ym w2 = Some (map (\<lambda>a. if Uid a = nodeID \<and> Ports a = None then a\<lparr>Ports := port\<rparr> else a) v)
    \<and> none_left = (nodeID \<notin> Uid ` set v)"
proof -
  have abs: "\<forall>a\<in>set v. absent nodeID (pr_LocalTunIPv4 tunIP) a" using assms(5) by (simp add: absent_def)
  from addEnvoyConfig_stored [OF assms(1,2) versioned_id assms(6)] assms(3) obtain v'
    where add: "(add_rule nodeID tunIP headers port v :: (envoy_err, _) outcome) = Ret v'" and v': "stored cl ym w1 = Some v'" by auto
  obtain v2 where "(add_rule nodeID tunIP headers port v :: (envoy_err, _) outcome) = Ret v2"
    "remove_rule nodeID (pr_LocalTunIPv4 tunIP) v2 = (map (fill_ports nodeID port) v, nodeID \<notin> Uid ` set v)"
    using add_then_remove [OF assms(4) abs] by blast
  with add have rem: "remove_rule nodeID (pr_LocalTunIPv4 tunIP) v' = (map (fill_ports nodeID port) v, nodeID \<notin> Uid ` set v)" by simp
  have "cm_Get cl w1 ConfigMapPodTrafficManager \<noteq> Inl NotFound" using v' by (auto simp: stored_def)
  from removeEnvoyConfig_stored [OF assms(1,2) versioned_id assms(7) this] v' rem show ?thesis
    by (simp add: fill_ports_def [abs_def])
qed

theorem add_remove_config_witness:
  "stored store_client example_yaml (mesh_world 1 '''') = Some []
   \<and> (\<exists>w1 w2. addEnvoyConfig store_client example_yaml id ''deployments.apps.web'' example_client (Some [(''user'', ''a'')]) (Some [example_port]) (mesh_world 1 '''') = Ret w1
      \<and> removeEnvoyConfig store_client example_yaml id ''deployments.apps.web'' ''223.254.0.101'' w1 = Ret (True, w2)
      \<and> stored store_client example_yaml w2 = Some [])"
proof -
  have st: "stored store_client example_yaml (mesh_world 1 '''') = Some []"
    by (simp add: stored_def mesh_get mesh_cm_def example_yaml_def)
  have v4: "pr_LocalTunIPv4 example_client = ''223.254.0.101''" by (simp add: example_client_def)
  show ?thesis
    using add_remove_config [OF lawful_store lawful_example_yaml st _ _ mesh_add, unfolded v4, OF _ _ mesh_remove [of "Suc 1"]]
      mesh_add [of 1] mesh_remove [of "Suc 1"] st by auto
qed

end
