(* ===== verification/Sidecar.thy ===== *)
theory Sidecar
  imports Envoy_Rules Net_IP
begin

text \<open>
  The sidecar containers and how they get into a workload and out of it again: \<^verbatim>\<open>src/pkg/mesh/controller.go\<close>,
  \<^verbatim>\<open>src/pkg/exchange/controller.go\<close>, \<^verbatim>\<open>InjectVPNAndEnvoySidecar\<close> and \<^verbatim>\<open>UnPatchContainer\<close> of
  \<^verbatim>\<open>src/pkg/handler/envoy.go\<close>, and \<^verbatim>\<open>InjectVPNSidecar\<close>, \<^verbatim>\<open>removeInboundContainer\<close>, \<^verbatim>\<open>patch\<close>, \<^verbatim>\<open>fromPatchToProbe\<close>,
  \<^verbatim>\<open>CleanupUselessInfo\<close> and \<^verbatim>\<open>CreateAfterDeletePod\<close> of \<^verbatim>\<open>src/pkg/handler/remote.go\<close>.

  A probe is a value of an arbitrary type \<open>'p\<close>, the JSON text of a probe one of type \<open>'t\<close> and the JSON text of a list of
  patches one of type \<open>'a\<close>; the JSON library is the record \<open>json_codec\<close> of conversions.  An empty text is
  \<open>None\<close>.  What the code asks of the API server is a value of type \<open>k8s_action\<close>.
\<close>

section \<open>Containers\<close>

record EnvVar =
  ev_Name :: string
  ev_Value :: string
  ev_FieldRef :: "string option"

definition env_value :: "string \<Rightarrow> string \<Rightarrow> EnvVar" where
  "env_value n v = \<lparr>ev_Name = n, ev_Value = v, ev_FieldRef = None\<rparr>"

definition env_field :: "string \<Rightarrow> string \<Rightarrow> EnvVar" where
  "env_field n path = \<lparr>ev_Name = n, ev_Value = [], ev_FieldRef = Some path\<rparr>"

record 'p Container =
  ct_Name :: string
  ct_Image :: string
  ct_Command :: "string list"
  ct_Args :: "string list"
  ct_Ports :: "ContainerPort list"
  ct_EnvFrom :: "string list"
  ct_Env :: "EnvVar list"
  ct_Requests :: "(string \<times> string) list"
  ct_Limits :: "(string \<times> string) list"
  ct_PullPolicy :: string
  ct_Capabilities :: "string list"
  ct_RunAsUser :: "int option"
  ct_Privileged :: "bool option"
  ct_Readiness :: "'p option"
  ct_Liveness :: "'p option"
  ct_Startup :: "'p option"

record 'p PodSpec =
  ps_Containers :: "'p Container list"
  ps_PriorityClassName :: string
  ps_InitContainers :: "'p Container list"
  ps_EphemeralContainers :: "'p Container list"

definition ContainerSidecarVPN :: string where "ContainerSidecarVPN = ''vpn''"
definition ContainerSidecarEnvoyProxy :: string where "ContainerSidecarEnvoyProxy = ''envoy-proxy''"

definition sidecar_requests :: "(string \<times> string) list" where
  "sidecar_requests = [(''cpu'', ''128m''), (''memory'', ''128Mi'')]"

definition sidecar_limits :: "(string \<times> string) list" where
  "sidecar_limits = [(''cpu'', ''256m''), (''memory'', ''256Mi'')]"

text \<open>A shell script starts with an empty line; \<open>quoted\<close> puts a text in double quotes.\<close>

definition script :: "string list \<Rightarrow> string" where
  "script ls = join [CHR 0x0A] ([] # ls)"

definition quoted :: "string \<Rightarrow> string" where
  "quoted s = [CHR 0x22] @ s @ [CHR 0x22]"

definition net_prologue :: "string list" where
  "net_prologue =
     [''update-alternatives --set iptables /usr/sbin/iptables-legacy'',
      ''iptables -F'',
      ''ip6tables -F'',
      ''iptables -P INPUT ACCEPT'',
      ''ip6tables -P INPUT ACCEPT'',
      ''iptables -P FORWARD ACCEPT'',
      ''ip6tables -P FORWARD ACCEPT'']"

definition mesh_script :: string where
  "mesh_script = script
     ([''sysctl -w net.ipv4.ip_forward=1'',
       ''sysctl -w net.ipv6.conf.all.disable_ipv6=0'',
       ''sysctl -w net.ipv6.conf.all.forwarding=1''] @ net_prologue @
      [''iptables -t nat -A PREROUTING ! -p icmp ! -s 127.0.0.1 ! -d ${CIDR4} -j DNAT --to 127.0.0.1:15006'',
       ''ip6tables -t nat -A PREROUTING ! -p icmp ! -s 0:0:0:0:0:0:0:1 ! -d ${CIDR6} -j DNAT --to [0:0:0:0:0:0:0:1]:15006'',
       ''iptables -t nat -A POSTROUTING ! -p icmp ! -s 127.0.0.1 ! -d ${CIDR4} -j MASQUERADE'',
       ''ip6tables -t nat -A POSTROUTING ! -p icmp ! -s 0:0:0:0:0:0:0:1 ! -d ${CIDR6} -j MASQUERADE'',
       ''kubevpn serve -L '' @ quoted ''tun:/localhost:8422?net=${TunIPv4}&route=${CIDR4}'' @ '' -F '' @ quoted ''tcp://${TrafficManagerService}:10800''])"

definition exchange_script :: string where
  "exchange_script = script
     ([''sysctl -w net.ipv4.ip_forward=1'',
       ''sysctl -w net.ipv6.conf.all.disable_ipv6=0'',
       ''sysctl -w net.ipv6.conf.all.forwarding=1'',
       ''sysctl -w net.ipv4.conf.all.route_localnet=1''] @ net_prologue @
      [''iptables -t nat -A PREROUTING ! -p icmp -j DNAT --to ${LocalTunIPv4}'',
       ''ip6tables -t nat -A PREROUTING ! -p icmp -j DNAT --to ${LocalTunIPv6}'',
       ''iptables -t nat -A POSTROUTING ! -p icmp -j MASQUERADE'',
       ''ip6tables -t nat -A POSTROUTING ! -p icmp -j MASQUERADE'',
       ''iptables -t nat -A OUTPUT -o lo ! -p icmp -j DNAT --to-destination ${LocalTunIPv4}'',
       ''ip6tables -t nat -A OUTPUT -o lo ! -p icmp -j DNAT --to-destination ${LocalTunIPv6}'',
       ''kubevpn serve -L '' @ quoted ''tun:/127.0.0.1:8422?net=${TunIPv4}&route=${CIDR4}'' @ '' -F '' @ quoted ''tcp://${TrafficManagerService}:10800''])"

definition cidr4_text :: string where "cidr4_text = ipnet_String CIDR"
definition cidr6_text :: string where "cidr6_text = ipnet_String CIDR6"

definition mesh_vpn_container :: "string \<Rightarrow> 'p Container" where
  "mesh_vpn_container img =
     \<lparr>ct_Name = ContainerSidecarVPN, ct_Image = img, ct_Command = [''/bin/sh'', ''-c''], ct_Args = [mesh_script],
      ct_Ports = [], ct_EnvFrom = [ConfigMapPodTrafficManager],
      ct_Env = [env_value ''CIDR4'' cidr4_text, env_value ''CIDR6'' cidr6_text, env_value ''TunIPv4'' '''', env_value ''TunIPv6'' '''',
        env_value ''TrafficManagerService'' ConfigMapPodTrafficManager,
        env_field ''POD_NAMESPACE'' ''metadata.namespace'', env_field ''POD_NAME'' ''metadata.name''],
      ct_Requests = sidecar_requests, ct_Limits = sidecar_limits, ct_PullPolicy = ''IfNotPresent'',
      ct_Capabilities = [''NET_ADMIN''], ct_RunAsUser = Some 0, ct_Privileged = Some True,
      ct_Readiness = None, ct_Liveness = None, ct_Startup = None\<rparr>"

definition envoy_container :: "string \<Rightarrow> string \<Rightarrow> string \<Rightarrow> 'p Container" where
  "envoy_container img envoyConfig nodeId =
     \<lparr>ct_Name = ContainerSidecarEnvoyProxy, ct_Image = img,
      ct_Command = [''envoy'', ''-l'', ''error'', ''--base-id'', ''1'', ''--service-node'', nodeId, ''--service-cluster'', nodeId, ''--config-yaml''],
      ct_Args = [envoyConfig], ct_Ports = [], ct_EnvFrom = [], ct_Env = [],
      ct_Requests = sidecar_requests, ct_Limits = sidecar_limits, ct_PullPolicy = ''IfNotPresent'',
      ct_Capabilities = [], ct_RunAsUser = None, ct_Privileged = None,
      ct_Readiness = None, ct_Liveness = None, ct_Startup = None\<rparr>"

definition exchange_vpn_container :: "string \<Rightarrow> PodRouteConfig \<Rightarrow> 'p Container" where
  "exchange_vpn_container img c =
     \<lparr>ct_Name = ContainerSidecarVPN, ct_Image = img, ct_Command = [''/bin/sh'', ''-c''], ct_Args = [exchange_script],
      ct_Ports = [], ct_EnvFrom = [ConfigMapPodTrafficManager],
      ct_Env = [env_value ''LocalTunIPv4'' (pr_LocalTunIPv4 c), env_value ''LocalTunIPv6'' (pr_LocalTunIPv6 c),
        env_value ''TunIPv4'' '''', env_value ''TunIPv6'' '''', env_value ''CIDR4'' cidr4_text, env_value ''CIDR6'' cidr6_text,
        env_value ''TrafficManagerService'' ConfigMapPodTrafficManager],
      ct_Requests = sidecar_requests, ct_Limits = sidecar_limits, ct_PullPolicy = ''IfNotPresent'',
      ct_Capabilities = [''NET_ADMIN''], ct_RunAsUser = Some 0, ct_Privileged = Some True,
      ct_Readiness = None, ct_Liveness = None, ct_Startup = None\<rparr>"

definition RemoveContainers :: "'p PodSpec \<Rightarrow> 'p PodSpec" where
  "RemoveContainers s =
     s\<lparr>ps_Containers := fst (delete_loop (\<lambda>c. ct_Name c \<in> {ContainerSidecarEnvoyProxy, ContainerSidecarVPN}) 0 (ps_Containers s) 0)\<rparr>"

definition AddMeshContainer :: "string \<Rightarrow> string \<Rightarrow> string \<Rightarrow> 'p PodSpec \<Rightarrow> 'p PodSpec" where
  "AddMeshContainer img envoyConfig nodeId s =
     (let s1 = RemoveContainers s in
      s1\<lparr>ps_Containers := ps_Containers s1 @ [mesh_vpn_container img] @ [envoy_container img envoyConfig nodeId]\<rparr>)"

definition RemoveContainer :: "'p PodSpec \<Rightarrow> 'p PodSpec" where
  "RemoveContainer s =
     s\<lparr>ps_Containers := fst (delete_loop (\<lambda>c. ct_Name c = ContainerSidecarVPN) 0 (ps_Containers s) 0)\<rparr>"

definition AddContainer :: "string \<Rightarrow> PodRouteConfig \<Rightarrow> 'p PodSpec \<Rightarrow> 'p PodSpec" where
  "AddContainer img c s =
     (let s1 = RemoveContainer s in
      s1\<lparr>ps_Containers := ps_Containers s1 @ [exchange_vpn_container img c],
         ps_PriorityClassName := (if ps_PriorityClassName s1 = [] then ''system-cluster-critical'' else ps_PriorityClassName s1)\<rparr>)"


section \<open>Probes\<close>

text \<open>
  The probes are taken out of a workload while the sidecars are in, and kept in an annotation: a list of patches, each
  with the path of a probe and its JSON text.
\<close>

datatype 't restore_value = RNil | RText "'t option" | RJson 't

record 't restore =
  re_Path :: string
  re_Value :: "'t restore_value"

text \<open>The annotation: empty, a JSON text, or the base64 form of a JSON text.\<close>

datatype 'a annot = NoteEmpty | NoteText 'a | NoteBase64 'a

record ('p, 't, 'a) json_codec =
  js_probe :: "'p \<Rightarrow> 't option"
  js_unprobe :: "'t \<Rightarrow> 'p option"
  js_list :: "'t restore list \<Rightarrow> 'a option"
  js_unlist :: "'a annot \<Rightarrow> 't restore list option"

definition json_path :: "string list \<Rightarrow> string" where
  "json_path ps = ''/'' @ join ''/'' ps"

definition probe_path :: "string list \<Rightarrow> nat \<Rightarrow> string \<Rightarrow> string" where
  "probe_path path i probe = json_path (path @ [''spec'', ''containers'', show_nat i, probe])"

definition readiness :: string where "readiness = ''readinessProbe''"
definition liveness :: string where "liveness = ''livenessProbe''"
definition startup :: string where "startup = ''startupProbe''"

definition probe_text :: "('p, 't, 'a) json_codec \<Rightarrow> 'p option \<Rightarrow> 't restore_value" where
  "probe_text js p = RText (case p of None \<Rightarrow> None | Some x \<Rightarrow> js_probe js x)"

text \<open>\<^verbatim>\<open>patch\<close>: the paths to clear and the patches to restore, three for each container, in order.\<close>

fun patch_from :: "('p, 't, 'a) json_codec \<Rightarrow> string list \<Rightarrow> nat \<Rightarrow> 'p Container list \<Rightarrow> string list \<times> 't restore list" where
  "patch_from js path i [] = ([], [])"
| "patch_from js path i (c # cs) =
     (let (rm, rs) = patch_from js path (Suc i) cs in
      ([probe_path path i readiness, probe_path path i liveness, probe_path path i startup] @ rm,
       [\<lparr>re_Path = probe_path path i readiness, re_Value = probe_text js (ct_Readiness c)\<rparr>,
        \<lparr>re_Path = probe_path path i liveness, re_Value = probe_text js (ct_Liveness c)\<rparr>,
        \<lparr>re_Path = probe_path path i startup, re_Value = probe_text js (ct_Startup c)\<rparr>] @ rs))"

definition patch :: "('p, 't, 'a) json_codec \<Rightarrow> string list \<Rightarrow> 'p PodSpec \<Rightarrow> string list \<times> 't restore list" where
  "patch js path s = patch_from js path 0 (ps_Containers s)"

fun probe_of :: "('p, 't, 'a) json_codec \<Rightarrow> 't restore_value \<Rightarrow> 'p option" where
  "probe_of js RNil = None"
| "probe_of js (RText None) = None"
| "probe_of js (RText (Some t)) = js_unprobe js t"
| "probe_of js (RJson t) = js_unprobe js t"

text \<open>The switch on the path of a patch, for the container of index \<open>i\<close>.\<close>

definition put_probe :: "string list \<Rightarrow> nat \<Rightarrow> string \<times> 'p option \<Rightarrow> 'p Container \<Rightarrow> 'p Container" where
  "put_probe path i pv c =
     (if fst pv = probe_path path i readiness then c\<lparr>ct_Readiness := snd pv\<rparr>
      else if fst pv = probe_path path i liveness then c\<lparr>ct_Liveness := snd pv\<rparr>
      else if fst pv = probe_path path i startup then c\<lparr>ct_Startup := snd pv\<rparr>
      else c)"

fun put_probes :: "string list \<Rightarrow> (string \<times> 'p option) list \<Rightarrow> nat \<Rightarrow> 'p Container list \<Rightarrow> 'p Container list" where
  "put_probes path pvs i [] = []"
| "put_probes path pvs i (c # cs) = fold (put_probe path i) pvs c # put_probes path pvs (Suc i) cs"

definition fromPatchToProbe :: "('p, 't, 'a) json_codec \<Rightarrow> string list \<Rightarrow> 't restore list \<Rightarrow> 'p PodSpec \<Rightarrow> 'p PodSpec" where
  "fromPatchToProbe js path ps s =
     (if length ps \<noteq> 3 * length (ps_Containers s) then s
      else s\<lparr>ps_Containers := put_probes path (map (\<lambda>r. (re_Path r, probe_of js (re_Value r))) ps) 0 (ps_Containers s)\<rparr>)"

section \<open>Workloads\<close>

record 'a ObjectMeta =
  om_Name :: string
  om_Namespace :: string
  om_SelfLink :: string
  om_Generation :: int
  om_ResourceVersion :: string
  om_UID :: string
  om_DeletionTimestamp :: "string option"
  om_ManagedFields :: "string list"
  om_OwnerReferences :: "string list"
  om_Note :: "'a annot"

record ('p, 'a) Pod =
  pod_meta :: "'a ObjectMeta"
  pod_spec :: "'p PodSpec"

text \<open>
  A workload as \<^verbatim>\<open>GetUnstructuredObject\<close> and \<^verbatim>\<open>GetPodTemplateSpecPath\<close> give it: its resource and name, its annotation, and
  the path of its pod template (empty for a pod) with the metadata and the spec found there.
\<close>

record ('p, 'a) workload =
  wl_Resource :: string
  wl_Name :: string
  wl_Note :: "'a annot"
  wl_path :: "string list"
  wl_meta :: "'a ObjectMeta"
  wl_spec :: "'p PodSpec"

text \<open>The JSON patches the code sends: of a pod spec, of the annotation, and without a value.\<close>

datatype ('p, 'a) patch_op = ReplaceSpec string "'p PodSpec" | ReplaceNote "'a annot" | ReplaceNil string

record ('w, 'p, 'a) wl_client =
  wl_Get :: "'w \<Rightarrow> string \<Rightarrow> string + ('p, 'a) workload"
  wl_Patch :: "'w \<Rightarrow> ('p, 'a) workload \<Rightarrow> ('p, 'a) patch_op list \<Rightarrow> string option \<times> 'w"
  wl_Delete :: "'w \<Rightarrow> string \<Rightarrow> string option \<times> 'w"
  wl_Create :: "'w \<Rightarrow> ('p, 'a) Pod \<Rightarrow> api_err option \<times> 'w"
  wl_Running :: "'w \<Rightarrow> string \<Rightarrow> bool"
  wl_Rollout :: "'w \<Rightarrow> string \<Rightarrow> string option"

definition CleanupUselessInfo :: "('p, 'a) Pod \<Rightarrow> ('p, 'a) Pod" where
  "CleanupUselessInfo pod = pod\<lparr>pod_meta := (pod_meta pod)\<lparr>om_SelfLink := [], om_Generation := 0, om_ResourceVersion := [],
     om_UID := [], om_DeletionTimestamp := None, om_ManagedFields := [], om_OwnerReferences := []\<rparr>\<rparr>"

text \<open>\<open>CreatedAgain\<close> is the empty error with which a successful creation asks for another round.\<close>

datatype create_err = CreateApi api_err | CreatedAgain

definition create_again :: "create_err \<Rightarrow> bool \<Rightarrow> bool" where
  "create_again e running \<longleftrightarrow> e \<noteq> CreateApi AlreadyExists \<or> \<not> running"

definition CreateAfterDeletePod :: "('w, 'p, 'a) wl_client \<Rightarrow> ('p, 'a) Pod \<Rightarrow> 'w \<Rightarrow> create_err option \<times> 'w" where
  "CreateAfterDeletePod wl p w =
     (let w1 = snd (wl_Delete wl w (om_Name (pod_meta p)));
          (err, w2) = retry_OnError 10 (\<lambda>e w. create_again e (wl_Running wl w (om_Name (pod_meta p))))
            (\<lambda>w. case wl_Create wl w p of
               (Some e, w') \<Rightarrow> (Some (CreateApi e), w')
             | (None, w') \<Rightarrow> (Some CreatedAgain, w')) w1
      in (if err = Some (CreateApi AlreadyExists) then None else err, w2))"

section \<open>Injecting\<close>

datatype inject_err = GetFailed string | EnvoyFailed envoy_err | MarshalFailed | UnmarshalFailed | PatchFailed string
  | RecreateFailed create_err | RolloutFailed string | DeleteFailed string | NoTunIP

definition node_id :: "('p, 'a) workload \<Rightarrow> string" where
  "node_id o1 = wl_Resource o1 @ ''.'' @ wl_Name o1"

definition spec_path :: "('p, 'a) workload \<Rightarrow> string" where
  "spec_path o1 = json_path (wl_path o1 @ [''spec''])"

definition workload_ports :: "'p PodSpec \<Rightarrow> ContainerPort list option" where
  "workload_ports s = (case concat (map ct_Ports (ps_Containers s)) of [] \<Rightarrow> None | ps \<Rightarrow> Some ps)"

definition is_injected :: "'p PodSpec \<Rightarrow> bool" where
  "is_injected s \<longleftrightarrow> {ContainerSidecarVPN, ContainerSidecarEnvoyProxy} \<subseteq> set (map ct_Name (ps_Containers s))"

text \<open>What \<^verbatim>\<open>InjectVPNAndEnvoySidecar\<close> sends; \<open>None\<close> when the restore patch cannot be marshalled.\<close>

definition mesh_ops ::
  "('p, 't, 'a) json_codec \<Rightarrow> string \<Rightarrow> string \<Rightarrow> ('p, 'a) workload \<Rightarrow> ('p, 'a) patch_op list option" where
  "mesh_ops js img envoyConfig o1 =
     (let (rm, rs) = patch js (wl_path o1) (wl_spec o1) in
      case js_list js rs of
        None \<Rightarrow> None
      | Some b \<Rightarrow> Some ([ReplaceSpec (spec_path o1) (AddMeshContainer img envoyConfig (node_id o1) (wl_spec o1)), ReplaceNote (NoteText b)]
                  @ map ReplaceNil rm))"

definition patch_and_wait ::
  "('w, 'p, 'a) wl_client \<Rightarrow> string \<Rightarrow> ('p, 'a) workload \<Rightarrow> ('p, 'a) patch_op list \<Rightarrow> 'w \<Rightarrow> (inject_err, unit) outcome \<times> 'w" where
  "patch_and_wait wl workload o1 ops w =
     (case wl_Patch wl w o1 ops of
        (Some e, w') \<Rightarrow> (Fail (PatchFailed e), w')
      | (None, w') \<Rightarrow> (case wl_Rollout wl w' workload of Some e \<Rightarrow> (Fail (RolloutFailed e), w') | None \<Rightarrow> (Ret (), w')))"

definition InjectVPNAndEnvoySidecar ::
  "'w cm_client \<Rightarrow> yaml_codec \<Rightarrow> ('p, 't, 'a) json_codec \<Rightarrow> ('w, 'p, 'a) wl_client \<Rightarrow> string \<Rightarrow> string \<Rightarrow>
   string \<Rightarrow> PodRouteConfig \<Rightarrow> header_map \<Rightarrow> 'w \<Rightarrow> (inject_err, unit) outcome \<times> 'w" where
  "InjectVPNAndEnvoySidecar cl ym js wl img envoyConfig workload c headers w =
     (case wl_Get wl w workload of
        Inl e \<Rightarrow> (Fail (GetFailed e), w)
      | Inr o1 \<Rightarrow>
          (case addEnvoyConfig cl ym id (node_id o1) c headers (workload_ports (wl_spec o1)) w of
             Fail e \<Rightarrow> (Fail (EnvoyFailed e), w)
           | Panic \<Rightarrow> (Panic, w)
           | Ret w1 \<Rightarrow>
               if is_injected (wl_spec o1) then (Ret (), w1)
               else (case mesh_ops js img envoyConfig o1 of
                       None \<Rightarrow> (Fail MarshalFailed, w1)
                     | Some ops \<Rightarrow> patch_and_wait wl workload o1 ops w1)))"

text \<open>
  \<^verbatim>\<open>InjectVPNSidecar\<close>.  The copy \<^verbatim>\<open>origin\<close> shares its array with the spec that \<^verbatim>\<open>AddContainer\<close> changes in place: it sees the
  first containers of the new list, as many as there were before.  The loop that clears the probes of a pod works on
  copies and changes nothing.  The restore patch is sent as bytes, which JSON carries in base64; when it cannot be
  marshalled its text is empty.
\<close>

definition origin_spec :: "string \<Rightarrow> PodRouteConfig \<Rightarrow> 'p PodSpec \<Rightarrow> 'p PodSpec" where
  "origin_spec img c s = s\<lparr>ps_Containers := take (length (ps_Containers s)) (ps_Containers (AddContainer img c s))\<rparr>"

definition exchange_ops ::
  "('p, 't, 'a) json_codec \<Rightarrow> string \<Rightarrow> PodRouteConfig \<Rightarrow> ('p, 'a) workload \<Rightarrow> ('p, 'a) patch_op list" where
  "exchange_ops js img c o1 =
     (let (rm, rs) = patch js (wl_path o1) (origin_spec img c (wl_spec o1)) in
      [ReplaceSpec (spec_path o1) (AddContainer img c (wl_spec o1)),
       ReplaceNote (case js_list js rs of None \<Rightarrow> NoteEmpty | Some b \<Rightarrow> NoteBase64 b)] @ map ReplaceNil rm)"

definition InjectVPNSidecar ::
  "('p, 't, 'a) json_codec \<Rightarrow> ('w, 'p, 'a) wl_client \<Rightarrow> string \<Rightarrow> string \<Rightarrow> PodRouteConfig \<Rightarrow> 'w \<Rightarrow> (inject_err, unit) outcome \<times> 'w" where
  "InjectVPNSidecar js wl img workload c w =
     (case wl_Get wl w workload of
        Inl e \<Rightarrow> (Fail (GetFailed e), w)
      | Inr o1 \<Rightarrow>
          if wl_path o1 = [] then
            let s = (AddContainer img c (wl_spec o1))\<lparr>ps_PriorityClassName := []\<rparr>;
                (err, w1) = CreateAfterDeletePod wl (CleanupUselessInfo \<lparr>pod_meta = wl_meta o1, pod_spec = s\<rparr>) w
            in (case err of
                  Some e \<Rightarrow> (Fail (RecreateFailed e), w1)
                | None \<Rightarrow> (case wl_Rollout wl w1 workload of Some e \<Rightarrow> (Fail (RolloutFailed e), w1) | None \<Rightarrow> (Ret (), w1)))
          else patch_and_wait wl workload o1 (exchange_ops js img c o1) w)"

fun inject_all :: "(string \<Rightarrow> 'w \<Rightarrow> (inject_err, unit) outcome \<times> 'w) \<Rightarrow> string list \<Rightarrow> 'w \<Rightarrow> (inject_err, unit) outcome \<times> 'w" where
  "inject_all inject [] w = (Ret (), w)"
| "inject_all inject (workload # ws) w =
     (case inject workload w of
        (Ret _, w') \<Rightarrow> inject_all inject ws w'
      | (r, w') \<Rightarrow> (r, w'))"

definition CreateRemoteInboundPod ::
  "'w cm_client \<Rightarrow> yaml_codec \<Rightarrow> ('p, 't, 'a) json_codec \<Rightarrow> ('w, 'p, 'a) wl_client \<Rightarrow> string \<Rightarrow> string \<Rightarrow>
   ipnet option \<times> ipnet option \<Rightarrow> string list \<Rightarrow> header_map \<Rightarrow> 'w \<Rightarrow> (inject_err, unit) outcome \<times> 'w" where
  "CreateRemoteInboundPod cl ym js wl img envoyConfig ips workloads headers w =
     (case ips of
        (Some ip4, Some ip6) \<Rightarrow>
          let c = \<lparr>pr_LocalTunIPv4 = ip_String (net_IP ip4), pr_LocalTunIPv6 = ip_String (net_IP ip6)\<rparr> in
          inject_all (\<lambda>workload.
            if entries headers \<noteq> [] then InjectVPNAndEnvoySidecar cl ym js wl img envoyConfig workload c headers
            else InjectVPNSidecar js wl img workload c) workloads w
      | _ \<Rightarrow> (Fail NoTunIP, w))"

section \<open>Leaving\<close>

text \<open>The spec \<^verbatim>\<open>UnPatchContainer\<close> restores; \<open>None\<close> when the annotation cannot be read.\<close>

definition unpatch_spec :: "('p, 't, 'a) json_codec \<Rightarrow> ('p, 'a) workload \<Rightarrow> 'p PodSpec option" where
  "unpatch_spec js o1 =
     (let s = RemoveContainers (wl_spec o1) in
      if wl_Note o1 = NoteEmpty then Some s
      else (case js_unlist js (wl_Note o1) of
              None \<Rightarrow> None
            | Some ps \<Rightarrow> Some (fromPatchToProbe js (wl_path o1) ps s)))"

definition UnPatchContainer ::
  "'w cm_client \<Rightarrow> yaml_codec \<Rightarrow> ('p, 't, 'a) json_codec \<Rightarrow> ('w, 'p, 'a) wl_client \<Rightarrow> string \<Rightarrow> string \<Rightarrow> 'w \<Rightarrow>
   (inject_err, unit) outcome \<times> 'w" where
  "UnPatchContainer cl ym js wl workload localTunIPv4 w =
     (case wl_Get wl w workload of
        Inl e \<Rightarrow> (Fail (GetFailed e), w)
      | Inr o1 \<Rightarrow>
          (case removeEnvoyConfig cl ym id (node_id o1) localTunIPv4 w of
             Fail e \<Rightarrow> (Fail (EnvoyFailed e), w)
           | Panic \<Rightarrow> (Panic, w)
           | Ret (none_left, w1) \<Rightarrow>
               (case unpatch_spec js o1 of
                  None \<Rightarrow> (Fail UnmarshalFailed, w1)
                | Some s \<Rightarrow>
                    if \<not> none_left then (Ret (), w1)
                    else if wl_path o1 = [] then
                      (case CreateAfterDeletePod wl (CleanupUselessInfo \<lparr>pod_meta = (wl_meta o1)\<lparr>om_Note := NoteEmpty\<rparr>, pod_spec = s\<rparr>) w1 of
                         (None, w2) \<Rightarrow> (Ret (), w2)
                       | (Some e, w2) \<Rightarrow> (Fail (RecreateFailed e), w2))
                    else
                      (case wl_Patch wl w1 o1 [ReplaceSpec (spec_path o1) s, ReplaceNote NoteEmpty] of
                         (Some e, w2) \<Rightarrow> (Fail (PatchFailed e), w2)
                       | (None, w2) \<Rightarrow> (Ret (), w2)))))"

definition removeInboundContainer ::
  "('w, 'p, 'a) wl_client \<Rightarrow> string \<Rightarrow> 'w \<Rightarrow> (inject_err, unit) outcome \<times> 'w" where
  "removeInboundContainer wl workload w =
     (case wl_Get wl w workload of
        Inl e \<Rightarrow> (Fail (GetFailed e), w)
      | Inr o1 \<Rightarrow>
          (case (if wl_path o1 = [] then wl_Delete wl w (wl_Name o1) else (None, w)) of
             (Some e, w1) \<Rightarrow> (Fail (DeleteFailed e), w1)
           | (None, w1) \<Rightarrow>
               (case wl_Patch wl w1 o1 [ReplaceSpec (spec_path o1) (RemoveContainer (wl_spec o1))] of
                  (Some e, w2) \<Rightarrow> (Fail (PatchFailed e), w2)
                | (None, w2) \<Rightarrow> (Ret (), w2))))"

text \<open>\<^verbatim>\<open>Leave\<close> of the daemon goes on after an error; a panic ends it.\<close>

fun leave_all :: "(string \<Rightarrow> 'w \<Rightarrow> (inject_err, unit) outcome \<times> 'w) \<Rightarrow> string list \<Rightarrow> 'w \<Rightarrow> (inject_err, unit) outcome \<times> 'w" where
  "leave_all leave [] w = (Ret (), w)"
| "leave_all leave (workload # ws) w =
     (case leave workload w of
        (Panic, w') \<Rightarrow> (Panic, w')
      | (_, w') \<Rightarrow> leave_all leave ws w')"

text \<open>
  \<^verbatim>\<open>LeaveProxyResources\<close>: the name of a workload from the key of its entry, which must have a dot, and the error of the
  last workload.
\<close>

definition uid_workload :: "string \<Rightarrow> ('e, string) outcome" where
  "uid_workload uid =
     (case last_index uid ''.'' of
        None \<Rightarrow> Panic
      | Some i \<Rightarrow> Ret (take i uid @ ''/'' @ drop (Suc i) uid))"

fun leave_virtuals ::
  "(string \<Rightarrow> 'w \<Rightarrow> (inject_err, unit) outcome \<times> 'w) \<Rightarrow> Virtual list \<Rightarrow> (inject_err, unit) outcome \<Rightarrow> 'w \<Rightarrow> (inject_err, unit) outcome \<times> 'w" where
  "leave_virtuals leave [] r w = (r, w)"
| "leave_virtuals leave (v # vs) r w =
     (case (uid_workload (Uid v) :: (inject_err, string) outcome) of
        Ret uid \<Rightarrow>
          (case leave uid w of
             (Panic, w') \<Rightarrow> (Panic, w')
           | (r', w') \<Rightarrow> leave_virtuals leave vs r' w')
      | _ \<Rightarrow> (Panic, w))"

definition LeaveProxyResources ::
  "'w cm_client \<Rightarrow> yaml_codec \<Rightarrow> ('p, 't, 'a) json_codec \<Rightarrow> ('w, 'p, 'a) wl_client \<Rightarrow> string \<Rightarrow> 'w \<Rightarrow> (inject_err, unit) outcome \<times> 'w" where
  "LeaveProxyResources cl ym js wl localTunIPv4 w =
     (case cm_Get cl w ConfigMapPodTrafficManager of
        Inl e \<Rightarrow> (Fail (EnvoyFailed (EnvoyApi e)), w)
      | Inr cm \<Rightarrow>
          (case gomap_get (cm_data cm) KeyEnvoy of
             None \<Rightarrow> (Ret (), w)
           | Some str \<Rightarrow>
               if str = [] then (Ret (), w)
               else (case ym_unmarshal ym str of
                       None \<Rightarrow> (Fail (EnvoyFailed EnvoyYaml), w)
                     | Some v \<Rightarrow> leave_virtuals (\<lambda>uid. UnPatchContainer cl ym js wl uid localTunIPv4) v (Ret ()) w)))"


section \<open>The sidecars in the list of containers\<close>

definition plain_containers :: "'p PodSpec \<Rightarrow> 'p Container list" where
  "plain_containers s = filter (\<lambda>c. ct_Name c \<noteq> ContainerSidecarEnvoyProxy \<and> ct_Name c \<noteq> ContainerSidecarVPN) (ps_Containers s)"

lemma RemoveContainers_plain: "RemoveContainers s = s\<lparr>ps_Containers := plain_containers s\<rparr>"
  by (simp add: RemoveContainers_def plain_containers_def)

lemma sidecar_names [simp]:
  "ct_Name (mesh_vpn_container img) = ContainerSidecarVPN"
  "ct_Name (envoy_container img y n) = ContainerSidecarEnvoyProxy"
  "ct_Name (exchange_vpn_container img c) = ContainerSidecarVPN"
  by (simp_all add: mesh_vpn_container_def envoy_container_def exchange_vpn_container_def)

lemma AddMeshContainer_containers:
  "ps_Containers (AddMeshContainer img y n s) = plain_containers s @ [mesh_vpn_container img, envoy_container img y n]"
  by (simp add: AddMeshContainer_def RemoveContainers_plain Let_def)

lemma plain_AddMeshContainer: "plain_containers (AddMeshContainer img y n s) = plain_containers s"
  unfolding plain_containers_def AddMeshContainer_containers
  by (simp add: plain_containers_def ContainerSidecarVPN_def ContainerSidecarEnvoyProxy_def)

text \<open>Injecting again replaces the sidecars, and removing them undoes it.\<close>

lemma AddMeshContainer_again: "AddMeshContainer img y n (AddMeshContainer img' y' n' s) = AddMeshContainer img y n s"
proof -
  have "AddMeshContainer img' y' n' s = s\<lparr>ps_Containers := plain_containers s @ [mesh_vpn_container img', envoy_container img' y' n']\<rparr>"
    by (simp add: AddMeshContainer_def RemoveContainers_plain Let_def)
  with plain_AddMeshContainer [of img' y' n' s] show ?thesis
    by (simp add: AddMeshContainer_def [of img y n] RemoveContainers_plain Let_def)
qed

lemma AddMeshContainer_injected: "is_injected (AddMeshContainer img y n s)"
  by (simp add: is_injected_def AddMeshContainer_containers)

section \<open>Paths of probes\<close>

lemma join_snoc: "xs \<noteq> [] \<Longrightarrow> join sep (xs @ [x]) = join sep xs @ sep @ x"
proof (induction xs)
  case (Cons a xs)
  then show ?case by (cases xs) (simp_all add: join_Cons)
qed simp

lemma probe_path_split:
  "probe_path path i a = ''/'' @ join ''/'' (path @ [''spec'', ''containers'']) @ ''/'' @ show_nat i @ ''/'' @ a"
proof -
  let ?p = "path @ [''spec'', ''containers'']"
  have "path @ [''spec'', ''containers'', show_nat i, a] = (?p @ [show_nat i]) @ [a]" by simp
  moreover have "join ''/'' ((?p @ [show_nat i]) @ [a]) = join ''/'' (?p @ [show_nat i]) @ ''/'' @ a"
    by (rule join_snoc) simp
  moreover have "join ''/'' (?p @ [show_nat i]) = join ''/'' ?p @ ''/'' @ show_nat i"
    by (rule join_snoc) simp
  ultimately show ?thesis unfolding probe_path_def json_path_def by (simp only: append_assoc)
qed

lemma split_at_slash:
  assumes "CHR ''/'' \<notin> set x" and "CHR ''/'' \<notin> set y" and "x @ ''/'' @ a = y @ ''/'' @ b"
  shows "x = y \<and> a = b"
proof -
  have "takeWhile (\<lambda>c. c \<noteq> CHR ''/'') (z @ ''/'' @ d) = z" if "CHR ''/'' \<notin> set z" for z d
    using that by (subst takeWhile_append2) auto
  with assms have "x = y" by metis
  with assms(3) show ?thesis by simp
qed

lemma probe_path_eq: "probe_path path i a = probe_path path j b \<longleftrightarrow> i = j \<and> a = b"
proof
  assume "probe_path path i a = probe_path path j b"
  then have e: "show_nat i @ ''/'' @ a = show_nat j @ ''/'' @ b" unfolding probe_path_split by simp
  have "CHR ''/'' \<notin> set (show_nat k)" for k by (rule show_nat_no_char) (simp add: digit_val_def)
  from split_at_slash [OF this this e] show "i = j \<and> a = b" using show_nat_inj by blast
qed simp

lemma probe_names [simp]:
  "readiness \<noteq> liveness" "liveness \<noteq> readiness" "readiness \<noteq> startup" "startup \<noteq> readiness" "liveness \<noteq> startup" "startup \<noteq> liveness"
  by (simp_all add: readiness_def liveness_def startup_def)

section \<open>Taking the probes out and putting them back\<close>

definition clear :: "'p Container \<Rightarrow> 'p Container" where
  "clear c = c\<lparr>ct_Readiness := None, ct_Liveness := None, ct_Startup := None\<rparr>"

lemma clear_restore:
  "clear d = clear c \<Longrightarrow> d\<lparr>ct_Readiness := ct_Readiness c, ct_Liveness := ct_Liveness c, ct_Startup := ct_Startup c\<rparr> = c"
  by (cases c; cases d) (simp add: clear_def)

text \<open>The probes of a list of containers with their paths.\<close>

fun slots :: "string list \<Rightarrow> nat \<Rightarrow> 'p Container list \<Rightarrow> (string \<times> 'p option) list" where
  "slots path i [] = []"
| "slots path i (c # cs) = [(probe_path path i readiness, ct_Readiness c), (probe_path path i liveness, ct_Liveness c),
     (probe_path path i startup, ct_Startup c)] @ slots path (Suc i) cs"

definition not_at :: "string list \<Rightarrow> nat \<Rightarrow> string \<times> 'p option \<Rightarrow> bool" where
  "not_at path i pv \<longleftrightarrow> fst pv \<notin> {probe_path path i readiness, probe_path path i liveness, probe_path path i startup}"

lemma fold_not_at: "\<forall>pv\<in>set pvs. not_at path i pv \<Longrightarrow> fold (put_probe path i) pvs c = c"
  by (induction pvs arbitrary: c) (auto simp: put_probe_def not_at_def)

lemma slots_not_at: "i < k \<or> k + length cs \<le> i \<Longrightarrow> pv \<in> set (slots path k cs) \<Longrightarrow> not_at path i pv"
proof (induction cs arbitrary: k)
  case (Cons c cs)
  from Cons.prems(2) consider "pv \<in> set (slots path k [c])" | "pv \<in> set (slots path (Suc k) cs)" by auto
  then show ?case
  proof cases
    case 1
    then show ?thesis using Cons.prems(1) by (auto simp: not_at_def probe_path_eq)
  next
    case 2
    then show ?thesis using Cons.prems(1) by (intro Cons.IH [of "Suc k"]) auto
  qed
qed simp

lemma put_slots:
  assumes "list_all2 (\<lambda>d c. clear d = clear c) ds cs" and "\<forall>pv\<in>set pre. \<forall>j\<ge>i. not_at path j pv"
  shows "put_probes path (pre @ slots path i cs) i (ds @ es) = cs @ put_probes path (pre @ slots path i cs) (i + length cs) es"
  using assms
proof (induction ds cs arbitrary: i pre rule: list_all2_induct)
  case (Cons d ds c cs)
  let ?three = "slots path i [c]"
  have s: "slots path i (c # cs) = ?three @ slots path (Suc i) cs" by simp
  have "fold (put_probe path i) pre d = d" using Cons.prems by (intro fold_not_at) blast
  moreover have "fold (put_probe path i) ?three d = c"
    using Cons.hyps(1) by (simp add: put_probe_def probe_path_eq clear_restore)
  moreover have "fold (put_probe path i) (slots path (Suc i) cs) c = c"
    by (intro fold_not_at ballI, rule slots_not_at) auto
  ultimately have hd: "fold (put_probe path i) (pre @ slots path i (c # cs)) d = c" unfolding s by simp
  have "\<forall>pv\<in>set (pre @ ?three). \<forall>j\<ge>Suc i. not_at path j pv"
    using Cons.prems by (auto simp: not_at_def probe_path_eq)
  from Cons.IH [OF this] show ?case using hd unfolding s by simp
qed simp

lemma put_probes_id: "\<forall>pv\<in>set pvs. \<forall>j\<ge>i. not_at path j pv \<Longrightarrow> put_probes path pvs i cs = cs"
  by (induction cs arbitrary: i) (auto intro!: fold_not_at)

lemma put_slots_append:
  assumes "list_all2 (\<lambda>d c. clear d = clear c) ds cs"
  shows "put_probes path (slots path 0 cs) 0 (ds @ es) = cs @ es"
proof -
  have "put_probes path (slots path 0 cs) (length cs) es = es"
    by (intro put_probes_id ballI allI impI, rule slots_not_at) auto
  with put_slots [OF assms, of "[]" 0 path es] show ?thesis by simp
qed

lemma put_probes_fold: "fold (\<lambda>pv. put_probes path [pv] i) pvs cs = put_probes path pvs i cs"
proof (induction cs arbitrary: i)
  case Nil
  show ?case by (induction pvs) auto
next
  case (Cons c cs)
  have "fold (\<lambda>pv. put_probes path [pv] i) pvs (c # cs) = fold (put_probe path i) pvs c # fold (\<lambda>pv. put_probes path [pv] (Suc i)) pvs cs" for c cs
    by (induction pvs arbitrary: c cs) auto
  with Cons show ?case by simp
qed


section \<open>A workload before, during and after\<close>

text \<open>
  What the API server does with the patches (RFC 6902, for the three forms that are sent), and what is relied on of the
  JSON library: what it prints it reads back, every probe can be printed, and base64 text is not JSON.
\<close>

fun apply_op :: "('p, 'a) patch_op \<Rightarrow> ('p, 'a) workload \<Rightarrow> ('p, 'a) workload" where
  "apply_op (ReplaceSpec p s) o1 = (if p = spec_path o1 then o1\<lparr>wl_spec := s\<rparr> else o1)"
| "apply_op (ReplaceNote n) o1 = o1\<lparr>wl_Note := n\<rparr>"
| "apply_op (ReplaceNil p) o1 =
     o1\<lparr>wl_spec := (wl_spec o1)\<lparr>ps_Containers := put_probes (wl_path o1) [(p, None)] 0 (ps_Containers (wl_spec o1))\<rparr>\<rparr>"

definition lawful_json :: "('p, 't, 'a) json_codec \<Rightarrow> bool" where
  "lawful_json js \<longleftrightarrow>
     (\<forall>p. \<exists>t. js_probe js p = Some t \<and> js_unprobe js t = Some p)
   \<and> (\<forall>rs b. js_list js rs = Some b \<longrightarrow> js_unlist js (NoteText b) = Some rs)
   \<and> (\<forall>b. js_unlist js (NoteBase64 b) = None)"

lemma probe_of_text: "lawful_json js \<Longrightarrow> probe_of js (probe_text js p) = p"
  unfolding lawful_json_def probe_text_def by (cases p) (auto, metis option.sel probe_of.simps(3))

lemma patch_restore: "lawful_json js \<Longrightarrow> map (\<lambda>r. (re_Path r, probe_of js (re_Value r))) (snd (patch_from js path i cs)) = slots path i cs"
  by (induction cs arbitrary: i) (simp_all add: probe_of_text case_prod_beta Let_def)

lemma patch_remove: "map (\<lambda>p. (p, None)) (fst (patch_from js path i cs)) = slots path i (map clear cs)"
  by (induction cs arbitrary: i) (simp_all add: clear_def case_prod_beta Let_def)

lemma patch_length: "length (snd (patch_from js path i cs)) = 3 * length cs"
  by (induction cs arbitrary: i) (simp_all add: case_prod_beta Let_def)

lemma apply_nils:
  "fold apply_op (map ReplaceNil ps) o1 =
     o1\<lparr>wl_spec := (wl_spec o1)\<lparr>ps_Containers := put_probes (wl_path o1) (map (\<lambda>p. (p, None)) ps) 0 (ps_Containers (wl_spec o1))\<rparr>\<rparr>"
proof (induction ps arbitrary: o1)
  case Nil
  have "put_probes (wl_path o1) [] i cs = cs" for i and cs :: "'a Container list" by (induction cs arbitrary: i) auto
  then show ?case by simp
next
  case (Cons p ps)
  have "put_probes (wl_path o1) (map (\<lambda>p. (p, None)) ps) 0 (put_probes (wl_path o1) [(p, None)] 0 cs)
      = put_probes (wl_path o1) (map (\<lambda>p. (p, None)) (p # ps)) 0 cs" for cs :: "'a Container list"
    using put_probes_fold [of "wl_path o1" 0 "(p, None) # map (\<lambda>p. (p, None)) ps" cs]
      put_probes_fold [of "wl_path o1" 0 "map (\<lambda>p. (p, None)) ps" "put_probes (wl_path o1) [(p, None)] 0 cs"] by simp
  then show ?case by (simp add: Cons.IH)
qed

lemma list_all2_clear: "list_all2 (\<lambda>d c. clear d = clear c) cs (map clear cs)" "list_all2 (\<lambda>d c. clear d = clear c) (map clear cs) cs"
  by (simp_all add: list_all2_conv_all_nth clear_def)

definition no_sidecars :: "'p PodSpec \<Rightarrow> bool" where
  "no_sidecars s \<longleftrightarrow> ContainerSidecarEnvoyProxy \<notin> set (map ct_Name (ps_Containers s)) \<and> ContainerSidecarVPN \<notin> set (map ct_Name (ps_Containers s))"

lemma no_sidecars_plain: "no_sidecars s \<Longrightarrow> plain_containers s = ps_Containers s"
  unfolding no_sidecars_def plain_containers_def by (rule filter_True) force

lemma mesh_applied:
  assumes "no_sidecars (wl_spec o1)" and "mesh_ops js img y o1 = Some ops"
  obtains b where "js_list js (snd (patch js (wl_path o1) (wl_spec o1))) = Some b"
    "fold apply_op ops o1 = o1\<lparr>wl_spec := (wl_spec o1)\<lparr>ps_Containers :=
        map clear (ps_Containers (wl_spec o1)) @ [mesh_vpn_container img, envoy_container img y (node_id o1)]\<rparr>, wl_Note := NoteText b\<rparr>"
proof -
  let ?cs = "ps_Containers (wl_spec o1)"
  let ?s = "AddMeshContainer img y (node_id o1) (wl_spec o1)"
  obtain b where b: "js_list js (snd (patch js (wl_path o1) (wl_spec o1))) = Some b"
    and ops: "ops = [ReplaceSpec (spec_path o1) ?s, ReplaceNote (NoteText b)] @ map ReplaceNil (fst (patch js (wl_path o1) (wl_spec o1)))"
    using assms(2) by (auto simp: mesh_ops_def case_prod_beta Let_def split: option.splits)
  have cs: "ps_Containers ?s = ?cs @ [mesh_vpn_container img, envoy_container img y (node_id o1)]"
    using no_sidecars_plain [OF assms(1)] by (simp add: AddMeshContainer_containers)
  have s: "?s\<lparr>ps_Containers := xs\<rparr> = (wl_spec o1)\<lparr>ps_Containers := xs\<rparr>" for xs
    by (simp add: AddMeshContainer_def RemoveContainers_plain Let_def)
  have "put_probes (wl_path o1) (slots (wl_path o1) 0 (map clear ?cs)) 0 (ps_Containers ?s) =
      map clear ?cs @ [mesh_vpn_container img, envoy_container img y (node_id o1)]"
    unfolding cs by (rule put_slots_append [OF list_all2_clear(1)])
  then have "fold apply_op ops o1 = o1\<lparr>wl_spec := (wl_spec o1)\<lparr>ps_Containers :=
        map clear ?cs @ [mesh_vpn_container img, envoy_container img y (node_id o1)]\<rparr>, wl_Note := NoteText b\<rparr>"
    unfolding ops by (simp add: apply_nils patch_def patch_remove s)
  with b that show ?thesis by blast
qed

lemma clear_name [simp]: "ct_Name (clear c) = ct_Name c"
  by (simp add: clear_def)

lemma unpatch_restores:
  assumes js: "lawful_json js" and o1: "no_sidecars (wl_spec o1)"
    and b: "js_list js (snd (patch js (wl_path o1) (wl_spec o1))) = Some b"
    and o2: "wl_path o2 = wl_path o1" "wl_Note o2 = NoteText b"
      "wl_spec o2 = (wl_spec o1)\<lparr>ps_Containers := map clear (ps_Containers (wl_spec o1)) @ [mesh_vpn_container img, envoy_container img y n]\<rparr>"
  shows "unpatch_spec js o2 = Some (wl_spec o1)"
proof -
  let ?cs = "ps_Containers (wl_spec o1)"
  have "map ct_Name (map clear ?cs) = map ct_Name ?cs" by simp
  with o1 have "no_sidecars ((wl_spec o1)\<lparr>ps_Containers := map clear ?cs\<rparr>)" unfolding no_sidecars_def by simp
  from no_sidecars_plain [OF this] have "RemoveContainers (wl_spec o2) = (wl_spec o1)\<lparr>ps_Containers := map clear ?cs\<rparr>"
    unfolding RemoveContainers_plain o2(3) by (simp add: plain_containers_def)
  moreover have "js_unlist js (NoteText b) = Some (snd (patch_from js (wl_path o1) 0 ?cs))"
    using js b unfolding lawful_json_def patch_def by blast
  moreover have "put_probes (wl_path o1) (slots (wl_path o1) 0 ?cs) 0 (map clear ?cs) = ?cs"
    using put_slots_append [OF list_all2_clear(2), of "wl_path o1" ?cs "[]"] by simp
  ultimately show ?thesis
    by (simp add: unpatch_spec_def o2(1,2) Let_def fromPatchToProbe_def patch_length patch_restore [OF js])
qed


text \<open>The annotation of the exchange variant cannot be read back, so leaving such a workload fails.\<close>

lemma exchange_leave_fails:
  assumes "lawful_json js" and "wl_Note o2 = NoteBase64 b"
  shows "unpatch_spec js o2 = None"
  using assms by (simp add: unpatch_spec_def lawful_json_def Let_def)

section \<open>An example\<close>

definition example_json :: "(string, string, string restore list) json_codec" where
  "example_json = \<lparr>js_probe = Some, js_unprobe = Some, js_list = Some,
     js_unlist = (\<lambda>n. case n of NoteText b \<Rightarrow> Some b | _ \<Rightarrow> None)\<rparr>"

lemma lawful_example_json: "lawful_json example_json"
  by (simp add: lawful_json_def example_json_def)

definition example_workload :: "(string, string restore list) workload" where
  "example_workload =
     \<lparr>wl_Resource = ''deployments.apps'', wl_Name = ''web'', wl_Note = NoteEmpty, wl_path = [''spec'', ''template''],
      wl_meta = \<lparr>om_Name = [], om_Namespace = [], om_SelfLink = [], om_Generation = 0, om_ResourceVersion = [], om_UID = [],
        om_DeletionTimestamp = None, om_ManagedFields = [], om_OwnerReferences = [], om_Note = NoteEmpty\<rparr>,
      wl_spec = \<lparr>ps_Containers = [(envoy_container ''app'' [] [])\<lparr>ct_Name := ''app'', ct_Readiness := Some ''tcp:80'', ct_Startup := Some ''http:/''\<rparr>],
        ps_PriorityClassName = [], ps_InitContainers = [], ps_EphemeralContainers = []\<rparr>\<rparr>"


end
