(* ===== verification/Cleaner.thy ===== *)
theory Cleaner
  imports Sidecar Dhcp
begin

text \<open>
  Counting the clients and cleaning up after the last one (\<^verbatim>\<open>src/pkg/handler/cleaner.go\<close>).  Other writers act between the
  read and the write of the count; they are the function \<open>mid\<close>.
\<close>

section \<open>The count of clients\<close>

text \<open>\<^verbatim>\<open>fmt.Errorf\<close> with \<^verbatim>\<open>%v\<close> makes a new error in which the old one is only text.\<close>

datatype count_err = Plain api_err | Wrapped api_err | BadCount num_err

definition IsConflict :: "count_err \<Rightarrow> bool" where "IsConflict e \<longleftrightarrow> e = Plain Conflict"
definition IsNotFound :: "count_err \<Rightarrow> bool" where "IsNotFound e \<longleftrightarrow> e = Plain NotFound"

definition count_retriable :: "count_err \<Rightarrow> bool" where
  "count_retriable e = (if IsNotFound e then False else if IsConflict e then True else False)"

definition wrap_err :: "api_err \<Rightarrow> count_err" where
  "wrap_err e = (if e = NotFound then Plain e else Wrapped e)"

text \<open>Go's sum of two 64-bit integers, and the new count.\<close>

definition add64 :: "int \<Rightarrow> int \<Rightarrow> int" where
  "add64 x y = sint (word_of_int x + word_of_int y :: 64 word)"

definition new_count :: "string \<Rightarrow> int \<Rightarrow> int" where
  "new_count txt increment =
     (let newVal = add64 (fst (atoi txt)) increment in if newVal < 0 then 0 else newVal)"

definition count_round ::
  "'w cm_client \<Rightarrow> ('w \<Rightarrow> 'w) \<Rightarrow> string \<Rightarrow> int \<Rightarrow> 'w \<Rightarrow> count_err option \<times> 'w" where
  "count_round cl mid name increment w =
     (case cm_Get cl w name of
        Inl e \<Rightarrow> (Some (wrap_err e), w)
      | Inr cm \<Rightarrow>
          (case cm_Patch cl (mid w) name (MergeData [(KeyRefCount, show_int (new_count (data_at (cm_data cm) KeyRefCount) increment))]) of
             (Inl e, w') \<Rightarrow> (Some (wrap_err e), w')
           | (Inr _, w') \<Rightarrow> (None, w')))"

definition updateRefCount ::
  "'w cm_client \<Rightarrow> ('w \<Rightarrow> 'w) \<Rightarrow> string \<Rightarrow> int \<Rightarrow> 'w \<Rightarrow> (int \<times> count_err option) \<times> 'w" where
  "updateRefCount cl mid name increment w =
     (case retry_OnError 5 (\<lambda>e _. count_retriable e) (count_round cl mid name increment) w of
        (Some e, w1) \<Rightarrow> ((0, Some e), w1)
      | (None, w1) \<Rightarrow>
          (case cm_Get cl w1 name of
             Inl e \<Rightarrow> ((0, Some (Wrapped e)), w1)
           | Inr cm \<Rightarrow>
               (case atoi (data_at (cm_data cm) KeyRefCount) of
                  (n, None) \<Rightarrow> ((n, None), w1)
                | (n, Some e) \<Rightarrow> ((n, Some (BadCount e)), w1))))"

section \<open>Removing what was installed\<close>

text \<open>The kinds of object that are deleted; errors of a deletion are ignored, so it is a function on the world.\<close>

datatype kind = KConfigMap | KPod | KSecret | KMutatingWebhookConfiguration | KRoleBinding | KServiceAccount | KRole | KService | KDeployment

definition CniNetName :: string where "CniNetName = ''cni-net-dir-kubevpn''"

definition cleanup ::
  "'w cm_client \<Rightarrow> (kind \<Rightarrow> string \<Rightarrow> 'w \<Rightarrow> 'w) \<Rightarrow> string \<Rightarrow> string \<Rightarrow> bool \<Rightarrow> 'w \<Rightarrow> 'w" where
  "cleanup cl del ns name keepCIDR w =
     (let w1 = (if keepCIDR then
            (let w' = snd (cm_Patch cl w name (RemoveData [KeyDHCP, KeyDHCP6]))
             in snd (cm_Patch cl w' name (MergeData [(KeyRefCount, show_int 0)])))
          else del KConfigMap name w)
      in (del KDeployment name \<circ> del KService name \<circ> del KRole name \<circ> del KServiceAccount name \<circ> del KRoleBinding name
          \<circ> del KMutatingWebhookConfiguration (name @ ''.'' @ ns) \<circ> del KSecret name \<circ> del KPod CniNetName) w1)"

text \<open>
  \<^verbatim>\<open>Cleanup\<close> of a connection: the leases are returned, the client is counted out, and the last one removes the installation if
  its deployment is not available (\<open>unavailable\<close> is the number of replicas the API reports, \<open>None\<close> an error); then the roll-back
  functions run and the workloads are left.  The DNS settings and the driver library are of the operating system.
\<close>

record 'w connection =
  cn_tunIPv4 :: "ipnet option"
  cn_tunIPv6 :: "ipnet option"
  cn_dhcp :: "DHCPManager option"
  cn_namespace :: string
  cn_rollback :: "('w \<Rightarrow> 'w) list"

definition tun_ips :: "'w connection \<Rightarrow> ip list" where
  "tun_ips c =
     (case cn_tunIPv4 c of Some n \<Rightarrow> if net_IP n \<noteq> [] then [net_IP n] else [] | None \<Rightarrow> [])
   @ (case cn_tunIPv6 c of Some n \<Rightarrow> if net_IP n \<noteq> [] then [net_IP n] else [] | None \<Rightarrow> [])"

definition GetLocalTunIPv4 :: "'w connection \<Rightarrow> string" where
  "GetLocalTunIPv4 c = (case cn_tunIPv4 c of Some n \<Rightarrow> ip_String (net_IP n) | None \<Rightarrow> [])"

definition count_out ::
  "'w cm_client \<Rightarrow> (kind \<Rightarrow> string \<Rightarrow> 'w \<Rightarrow> 'w) \<Rightarrow> ('w \<Rightarrow> nat option) \<Rightarrow> string \<Rightarrow> 'w \<Rightarrow> 'w" where
  "count_out cl del unavailable ns w =
     (case updateRefCount cl id ConfigMapPodTrafficManager (- 1) (del KPod CniNetName w) of
        ((count, None), w1) \<Rightarrow>
          if count \<le> 0 \<and> (case unavailable w1 of Some n \<Rightarrow> n \<noteq> 0 | None \<Rightarrow> False)
          then cleanup cl del ns ConfigMapPodTrafficManager True w1 else w1
      | ((_, Some e), w1) \<Rightarrow> w1)"

definition Cleanup ::
  "'w cm_client \<Rightarrow> yaml_codec \<Rightarrow> ('p, 't, 'a) json_codec \<Rightarrow> ('w, 'p, 'a) wl_client \<Rightarrow>
   (kind \<Rightarrow> string \<Rightarrow> 'w \<Rightarrow> 'w) \<Rightarrow> ('w \<Rightarrow> nat option) \<Rightarrow> 'w connection \<Rightarrow> 'w \<Rightarrow> (inject_err, unit) outcome \<times> 'w" where
  "Cleanup cl ym js wl del unavailable c w =
     (let w1 = (case cn_dhcp c of Some d \<Rightarrow> snd (ReleaseIP cl id d (tun_ips c) w) | None \<Rightarrow> w);
          w2 = count_out cl del unavailable (cn_namespace c) w1;
          w3 = fold (\<lambda>f. f) (cn_rollback c) w2
      in LeaveProxyResources cl ym js wl (GetLocalTunIPv4 c) w3)"

text \<open>\<^verbatim>\<open>Reset\<close> up to the network of Docker.\<close>

definition Reset ::
  "'w cm_client \<Rightarrow> yaml_codec \<Rightarrow> ('p, 't, 'a) json_codec \<Rightarrow> ('w, 'p, 'a) wl_client \<Rightarrow>
   (kind \<Rightarrow> string \<Rightarrow> 'w \<Rightarrow> 'w) \<Rightarrow> 'w connection \<Rightarrow> 'w \<Rightarrow> (inject_err, unit) outcome \<times> 'w" where
  "Reset cl ym js wl del c w =
     (case LeaveProxyResources cl ym js wl (GetLocalTunIPv4 c) w of
        (Panic, w1) \<Rightarrow> (Panic, w1)
      | (_, w1) \<Rightarrow> (Ret (), cleanup cl del (cn_namespace c) ConfigMapPodTrafficManager False w1))"

section \<open>What the count says\<close>

lemma new_count_bounds: "0 \<le> new_count txt increment" "new_count txt increment < 2 ^ 63"
proof -
  have "add64 x y < 2 ^ 63" for x y
    unfolding add64_def using sint_less [of "word_of_int x + word_of_int y :: 64 word"] by simp
  then show "0 \<le> new_count txt increment" "new_count txt increment < 2 ^ 63"
    by (simp_all add: new_count_def Let_def)
qed

lemma add64_exact: "- (2 ^ 63) \<le> x + y \<Longrightarrow> x + y < 2 ^ 63 \<Longrightarrow> add64 x y = x + y"
  unfolding add64_def by (simp flip: of_int_add add: signed_of_int signed_take_bit_int_eq_self)

text \<open>An error worth retrying is never returned, so there is one round.\<close>

lemma count_once: "retry_OnError 5 (\<lambda>e _. count_retriable e) (count_round cl mid name increment) w = count_round cl mid name increment w"
proof (rule retry_once)
  fix e w w'
  assume "count_round cl mid name increment w = (Some e, w')"
  then have "\<exists>a. e = wrap_err a" by (auto simp: count_round_def split: sum.splits prod.splits)
  then show "\<not> count_retriable e" by (auto simp: count_retriable_def wrap_err_def IsConflict_def IsNotFound_def split: if_splits)
qed simp

lemma atoi_count: "atoi (show_int (new_count str increment)) = (new_count str increment, None)"
  using new_count_bounds [of str increment] by (intro atoi_show_int) simp_all

lemma count_round_stored:
  assumes "lawful_patch cl" and "cm_Get cl w name = Inr cm" and "count_round cl mid name increment w = (None, w')"
  shows "\<exists>old c. cm_Get cl (mid w) name = Inr old \<and> cm_Get cl w' name = Inr c
    \<and> gomap_get (cm_data c) KeyRefCount = Some (show_int (new_count (data_at (cm_data cm) KeyRefCount) increment))
    \<and> (\<forall>k. k \<noteq> KeyRefCount \<longrightarrow> gomap_get (cm_data c) k = gomap_get (cm_data old) k)"
proof -
  let ?v = "show_int (new_count (data_at (cm_data cm) KeyRefCount) increment)"
  from assms(2,3) obtain c where "cm_Patch cl (mid w) name (MergeData [(KeyRefCount, ?v)]) = (Inr c, w')"
    by (auto simp: count_round_def split: sum.splits prod.splits)
  with assms(1) obtain old where "cm_Get cl (mid w) name = Inr old" "cm_Get cl w' name = Inr c"
    "\<forall>k. gomap_get (cm_data c) k = (case map_of [(KeyRefCount, ?v)] k of Some v \<Rightarrow> Some v | None \<Rightarrow> gomap_get (cm_data old) k)"
    unfolding lawful_patch_def by blast
  then show ?thesis by auto
qed

lemma update_count_stored:
  assumes "lawful_patch cl" and "cm_Get cl w name = Inr cm" and "updateRefCount cl mid name increment w = ((n, None), w')"
  shows "n = new_count (data_at (cm_data cm) KeyRefCount) increment
    \<and> count_round cl mid name increment w = (None, w')
    \<and> (\<exists>old c. cm_Get cl (mid w) name = Inr old \<and> cm_Get cl w' name = Inr c
        \<and> gomap_get (cm_data c) KeyRefCount = Some (show_int n)
        \<and> (\<forall>k. k \<noteq> KeyRefCount \<longrightarrow> gomap_get (cm_data c) k = gomap_get (cm_data old) k))"
proof -
  let ?n = "new_count (data_at (cm_data cm) KeyRefCount) increment"
  have round: "count_round cl mid name increment w = (None, w')"
    using assms(3) unfolding updateRefCount_def count_once
    by (auto split: prod.splits option.splits sum.splits)
  from count_round_stored [OF assms(1,2) round] obtain old c where oc: "cm_Get cl (mid w) name = Inr old" "cm_Get cl w' name = Inr c"
    "gomap_get (cm_data c) KeyRefCount = Some (show_int ?n)"
    "\<forall>k. k \<noteq> KeyRefCount \<longrightarrow> gomap_get (cm_data c) k = gomap_get (cm_data old) k" by blast
  have "data_at (cm_data c) KeyRefCount = show_int ?n" using oc(3) by (simp add: data_at_def)
  then have "n = ?n" using assms(3) round oc(2) unfolding updateRefCount_def count_once by (simp add: atoi_count)
  with round oc show ?thesis by blast
qed


definition count_cm :: "nat \<Rightarrow> string \<Rightarrow> configmap" where
  "count_cm v str = \<lparr>cm_name = ConfigMapPodTrafficManager, cm_namespace = ''default'', cm_version = v, cm_data = Some [KeyRefCount \<mapsto> str]\<rparr>"

definition count_world :: "nat \<Rightarrow> string \<Rightarrow> store" where
  "count_world v str = \<lparr>st_rev = Suc v, st_cms = [ConfigMapPodTrafficManager \<mapsto> count_cm v str]\<rparr>"

lemma count_get: "st_get (count_world v str) ConfigMapPodTrafficManager = Inr (count_cm v str)"
  by (simp add: st_get_def count_world_def count_cm_def)

lemma count_patch:
  "st_patch (count_world v str) ConfigMapPodTrafficManager (MergeData [(KeyRefCount, str')]) = (Inr (count_cm (Suc v) str'), count_world (Suc v) str')"
  unfolding st_patch_def count_get by (simp add: count_cm_def st_put_def count_world_def Let_def)

lemma count_update:
  "updateRefCount store_client (\<lambda>_. count_world v1 str1) ConfigMapPodTrafficManager increment (count_world v0 str0) =
     ((new_count str0 increment, None), count_world (Suc v1) (show_int (new_count str0 increment)))"
  unfolding updateRefCount_def count_once count_round_def store_client_simps count_get
  by (simp add: count_patch count_get) (simp add: count_cm_def data_at_def atoi_count)


end
