(* ===== verification/Hosts_Dns.thy ===== *)
theory Hosts_Dns
  imports Go_Url Net_IP
begin

text \<open>
  Names of the cluster on the client: the hosts file (\<^verbatim>\<open>src/pkg/dns/dns.go\<close>), the forwarding DNS server
  (\<^verbatim>\<open>src/pkg/dns/forwardserver.go\<close>) and the text of a resolver configuration (\<^verbatim>\<open>toString\<close> of \<^verbatim>\<open>src/pkg/dns/dns_unix.go\<close>).
  The hosts file is a text, \<open>None\<close> when it cannot be read; what the system resolver and the DNS servers answer are
  arguments.
\<close>

definition HostsKeyWord :: string where "HostsKeyWord = ''# Add by KubeVPN''"

record Entry =
  en_IP :: string
  en_Domain :: string

section \<open>Updating the hosts file\<close>

datatype hosts_err = HostsRead | EmptyHosts | EmptyContent

text \<open>
  The loop over the entries goes on after a deletion, with the text of the deleted line and a decremented index; so a line
  that two entries occur in takes the line before it along, and the first line of the file a panic.
\<close>

fun unhost_inner :: "Entry list \<Rightarrow> string \<Rightarrow> string list \<Rightarrow> int \<Rightarrow> ('e, string list \<times> int) outcome" where
  "unhost_inner [] line lines i = Ret (lines, i)"
| "unhost_inner (h # hs) line lines i =
     (if str_contains line (en_Domain h) then
        if i < 0 \<or> int (length lines) \<le> i then Panic
        else unhost_inner hs line (take (nat i) lines @ drop (Suc (nat i)) lines) (i - 1)
      else unhost_inner hs line lines i)"

lemma unhost_inner_measure: "unhost_inner hs line lines i = Ret (lines', i') \<Longrightarrow> int (length lines') - i' = int (length lines) - i"
  by (induction hs line lines i rule: unhost_inner.induct) (auto split: if_splits)

function unhost_outer :: "Entry list \<Rightarrow> string list \<Rightarrow> int \<Rightarrow> (hosts_err, string list) outcome" where
  "unhost_outer hs lines i =
     (if i < int (length lines) then
        if str_contains (lines ! nat i) HostsKeyWord then
          (case unhost_inner hs (lines ! nat i) lines i of
             Ret (lines', i') \<Rightarrow> unhost_outer hs lines' (i' + 1)
           | Fail e \<Rightarrow> Fail e
           | Panic \<Rightarrow> Panic)
        else unhost_outer hs lines (i + 1)
      else Ret lines)"
  by pat_completeness auto
termination
proof (relation "measure (\<lambda>(hs, lines, i). nat (int (length lines) - i))")
  fix hs lines i lines' i' and x :: "string list \<times> int"
  assume "i < int (length lines)" and "(unhost_inner hs (lines ! nat i) lines i :: (hosts_err, _) outcome) = Ret x" and "(lines', i') = x"
  then have "int (length lines') - i' = int (length lines) - i" using unhost_inner_measure by metis
  with \<open>i < int (length lines)\<close> show "((hs, lines', i' + 1), (hs, lines, i)) \<in> measure (\<lambda>(hs, lines, i). nat (int (length lines) - i))" by simp
qed simp_all

declare unhost_outer.simps [simp del]

definition newline :: string where "newline = [CHR 0x0A]"

definition is_localhost :: "string \<Rightarrow> bool" where
  "is_localhost line \<longleftrightarrow> str_contains line ''localhost'' \<and> str_contains line ''127.0.0.1''"

definition with_localhost :: "string list \<Rightarrow> string list" where
  "with_localhost lines = (if list_ex is_localhost lines then lines else lines @ [''127.0.0.1 localhost'' @ newline])"

definition finish_hosts :: "string \<Rightarrow> string list \<Rightarrow> (hosts_err, string) outcome" where
  "finish_hosts str lines =
     (if lines = [] then Fail EmptyHosts
      else let s = trim_right (CHR 0x0A) (join newline (with_localhost lines) @ (if str \<noteq> [] then newline @ str else [])) in
        if trim_space s = [] then Fail EmptyContent else Ret s)"

definition updateHosts :: "Entry list \<Rightarrow> string \<Rightarrow> string option \<Rightarrow> (hosts_err, string) outcome" where
  "updateHosts hosts str file =
     (case file of
        None \<Rightarrow> Fail HostsRead
      | Some s \<Rightarrow> bind_outcome (unhost_outer hosts (split_on (CHR 0x0A) s) 0) (finish_hosts str))"

definition CleanupHosts :: "string option \<Rightarrow> (hosts_err, string) outcome" where
  "CleanupHosts file =
     (case file of
        None \<Rightarrow> Fail HostsRead
      | Some s \<Rightarrow>
          let lines = fst (delete_loop (\<lambda>line. str_contains line HostsKeyWord) 0 (split_on (CHR 0x0A) s) 0) in
          if lines = [] then Fail EmptyHosts else Ret (join newline lines))"

section \<open>The entries\<close>

text \<open>Comparison of texts, and a stable sort by a strict order.\<close>

fun str_less :: "string \<Rightarrow> string \<Rightarrow> bool" where
  "str_less [] [] = False"
| "str_less [] (b # bs) = True"
| "str_less (a # as) [] = False"
| "str_less (a # as) (b # bs) = (if (of_char a :: nat) = of_char b then str_less as bs else (of_char a :: nat) < of_char b)"

definition entry_before :: "Entry \<Rightarrow> Entry \<Rightarrow> bool" where
  "entry_before x y =
     (if en_Domain x = en_Domain y then str_less (en_IP y) (en_IP x) else str_less (en_Domain y) (en_Domain x))"

fun stable_insert :: "('a \<Rightarrow> 'a \<Rightarrow> bool) \<Rightarrow> 'a \<Rightarrow> 'a list \<Rightarrow> 'a list" where
  "stable_insert lt x [] = [x]"
| "stable_insert lt x (y # ys) = (if lt y x then y # stable_insert lt x ys else x # y # ys)"

definition SliceStable :: "('a \<Rightarrow> 'a \<Rightarrow> bool) \<Rightarrow> 'a list \<Rightarrow> 'a list" where
  "SliceStable lt xs = foldr (stable_insert lt) xs []"

record k8s_service =
  sv_Name :: string
  sv_ClusterIPs :: "string list"
  sv_ExternalIPs :: "string list"
  sv_ExternalName :: string

definition service_entries :: "(string list \<Rightarrow> string list) \<Rightarrow> k8s_service \<Rightarrow> Entry list" where
  "service_entries unsorted item =
     (if to_lower (sv_Name item) = ''kubernetes'' then []
      else [\<lparr>en_IP = a, en_Domain = d\<rparr>.
              a \<leftarrow> unsorted (sv_ClusterIPs item @ sv_ExternalIPs item), d \<leftarrow> unsorted [sv_Name item, sv_ExternalName item],
              ParseIP a \<noteq> None \<and> d \<noteq> []])"

text \<open>An entry that occurs in a line of the hosts file is taken out, for each line in turn.\<close>

definition in_line :: "string \<Rightarrow> Entry \<Rightarrow> bool" where
  "in_line line e \<longleftrightarrow> str_contains line (en_Domain e) \<and> str_contains line (en_IP e)"

definition drop_known :: "string list \<Rightarrow> Entry list \<Rightarrow> Entry list" where
  "drop_known lines es = fold (\<lambda>line es. fst (delete_loop (in_line line) 0 es 0)) lines es"

text \<open>
  The text of the entries.  The table writer pads each cell but the last to the widest of its column and a blank.
\<close>

definition pad_to :: "nat \<Rightarrow> string \<Rightarrow> string" where
  "pad_to n s = s @ replicate (n - length s) CHR '' ''"

definition host_line :: "nat \<Rightarrow> nat \<Rightarrow> Entry \<Rightarrow> string" where
  "host_line w1 w2 e = pad_to (Suc w1) (en_IP e) @ pad_to (Suc w2) (en_Domain e) @ pad_to 1 [] @ HostsKeyWord @ newline"

definition host_table :: "Entry list \<Rightarrow> string" where
  "host_table es =
     concat (map (host_line (Max (insert 0 (set (map (length \<circ> en_IP) es)))) (Max (insert 0 (set (map (length \<circ> en_Domain) es))))) es)"

text \<open>
  \<^verbatim>\<open>generateHostsEntry\<close>: the new text and the entries the configuration remembers, which stay as they were when the hosts file
  cannot be read.  \<open>resolved\<close> are the entries whose lookups have come back in time; \<open>unsortedE\<close> is the order of the set of entries.
\<close>

definition generateHostsEntry ::
  "(string list \<Rightarrow> string list) \<Rightarrow> (Entry list \<Rightarrow> Entry list) \<Rightarrow> Entry list \<Rightarrow> string option \<Rightarrow> Entry list \<Rightarrow> Entry list \<Rightarrow> k8s_service list \<Rightarrow>
   string \<times> Entry list" where
  "generateHostsEntry unsorted unsortedE resolved file cHosts hosts services =
     (let all = unsortedE (cHosts @ hosts) @ concat (map (service_entries unsorted) services);
          sorted = SliceStable entry_before all;
          unresolved = fst (delete_loop (\<lambda>e. e \<in> set resolved) 0 sorted 0)
      in case file of
           None \<Rightarrow> ([], cHosts)
         | Some s \<Rightarrow>
             let es = drop_known (split_on (CHR 0x0A) s) unresolved in (host_table es, es))"

text \<open>
  One event of the watch in \<^verbatim>\<open>AddServiceNameToHosts\<close>.  The state is the hosts file, the remembered entries and the last text;
  \<open>None\<close> as the result ends the watch.
\<close>

record hosts_state =
  hs_file :: "string option"
  hs_hosts :: "Entry list"
  hs_last :: string

definition write_entry :: "string \<Rightarrow> hosts_state \<Rightarrow> (hosts_state, hosts_state) outcome" where
  "write_entry entry st =
     (case updateHosts (hs_hosts st) entry (hs_file st) of
        Ret s \<Rightarrow> Ret (st\<lparr>hs_file := Some s, hs_last := entry\<rparr>)
      | Fail _ \<Rightarrow> Fail st
      | Panic \<Rightarrow> Panic)"

definition watch_event ::
  "(string list \<Rightarrow> string list) \<Rightarrow> (Entry list \<Rightarrow> Entry list) \<Rightarrow> Entry list \<Rightarrow> Entry list \<Rightarrow> bool \<Rightarrow> bool \<Rightarrow> k8s_service list option \<Rightarrow>
   hosts_state \<Rightarrow> (hosts_state, hosts_state) outcome" where
  "watch_event unsorted unsortedE resolved hosts ignored accepted services st =
     (if ignored then Ret st
      else if \<not> accepted then Fail st
      else (case services of
              None \<Rightarrow> Fail st
            | Some items \<Rightarrow>
                let (entry, es) = generateHostsEntry unsorted unsortedE resolved (hs_file st) (hs_hosts st) hosts items;
                    st1 = st\<lparr>hs_hosts := es\<rparr>
                in if entry = [] \<or> entry = hs_last st then Ret st1 else write_entry entry st1))"

section \<open>The forwarding DNS server\<close>

definition fix_names :: "string \<Rightarrow> string list \<Rightarrow> string list" where
  "fix_names domain suffix = domain # map (\<lambda>s. trim_suffix domain ''.'' @ ''.'' @ s @ ''.'') suffix"

record dns_flags =
  df_Response :: bool
  df_Authoritative :: bool
  df_AuthenticatedData :: bool
  df_CheckingDisabled :: bool
  df_Truncated :: bool
  df_RecursionDesired :: bool
  df_RecursionAvailable :: bool
  df_Zero :: bool
  df_Opcode :: nat
  df_Rcode :: nat

record dns_msg =
  dm_Question :: "string list"
  dm_Answer :: "(string \<times> string) list"
  dm_flags :: dns_flags

definition search_list :: "(string \<rightharpoonup> string) \<Rightarrow> string list \<Rightarrow> string \<Rightarrow> string list" where
  "search_list cache suffixes origin = (case cache origin of Some v \<Rightarrow> [v] | None \<Rightarrow> fix_names origin suffixes)"

definition queried :: "string list \<Rightarrow> string list" where
  "queried names = filter (\<lambda>n. 5 \<le> count_char CHR ''.'' n \<and> count_char CHR ''.'' n \<le> 6) names"

text \<open>
  The state the goroutines share: the message, the cache, whether the context is still open and what was written.  \<open>take_answer\<close> is
  what one of them does when the answer to its name comes in.
\<close>

record dns_state =
  ds_msg :: dns_msg
  ds_cache :: "string \<rightharpoonup> string"
  ds_open :: bool
  ds_written :: "dns_msg option"

definition take_answer :: "string \<Rightarrow> string \<times> dns_msg option \<Rightarrow> dns_state \<Rightarrow> dns_state" where
  "take_answer origin ev st =
     (case snd ev of
        None \<Rightarrow> st
      | Some answer \<Rightarrow>
          if dm_Answer answer = [] then st
          else
            let r = (ds_msg st)\<lparr>dm_Answer := map (\<lambda>a. (origin, snd a)) (dm_Answer answer), dm_flags := dm_flags answer\<rparr>;
                st1 = st\<lparr>ds_msg := r, ds_cache := (ds_cache st)(origin \<mapsto> fst ev)\<rparr>
            in if ds_open st1 then st1\<lparr>ds_written := Some r, ds_open := False\<rparr> else st1)"

text \<open>
  \<^verbatim>\<open>ServeDNS\<close>: \<open>answers\<close> are the answers to the queried names in the order in which they arrive (\<open>None\<close> an error), those of the
  first five seconds; the written message and the cache are returned.
\<close>

definition ServeDNS ::
  "(string \<rightharpoonup> string) \<Rightarrow> bool \<Rightarrow> (string \<times> dns_msg option) list \<Rightarrow> dns_msg \<Rightarrow> dns_msg option \<times> (string \<rightharpoonup> string)" where
  "ServeDNS cache acquired answers r =
     (case dm_Question r of
        [] \<Rightarrow> (Some (r\<lparr>dm_flags := (dm_flags r)\<lparr>df_Response := True\<rparr>\<rparr>), cache)
      | origin # _ \<Rightarrow>
          if \<not> acquired then (None, cache)
          else
            let st = fold (take_answer origin) answers \<lparr>ds_msg = r, ds_cache = cache, ds_open = True, ds_written = None\<rparr> in
            (case ds_written st of
               Some m \<Rightarrow> (Some m, ds_cache st)
             | None \<Rightarrow> (Some ((ds_msg st)\<lparr>dm_flags := (dm_flags (ds_msg st))\<lparr>df_Response := True\<rparr>\<rparr>), ds_cache st)))"

section \<open>Resolver configurations\<close>

record client_config =
  cc_Servers :: "string list"
  cc_Search :: "string list"
  cc_Port :: string
  cc_Ndots :: int
  cc_Timeout :: int

definition config_toString :: "client_config \<Rightarrow> string" where
  "config_toString c =
     (if cc_Search c \<noteq> [] then ''search '' @ join '' '' (cc_Search c) @ newline else [])
   @ concat (map (\<lambda>s. ''nameserver '' @ s @ newline) (cc_Servers c))
   @ (if cc_Port c \<noteq> [] then ''port '' @ cc_Port c @ newline else [])
   @ ''options ndots:'' @ show_int (cc_Ndots c) @ newline @ ''options timeout:'' @ show_int (cc_Timeout c) @ newline"

section \<open>Deleting lines\<close>

text \<open>The entries that occur in a line; with at most one, the loop is a filter.\<close>

definition matching :: "Entry list \<Rightarrow> string \<Rightarrow> Entry list" where
  "matching hs line = filter (\<lambda>h. str_contains line (en_Domain h)) hs"

lemma unhost_inner_none: "matching hs line = [] \<Longrightarrow> unhost_inner hs line lines i = Ret (lines, i)"
  by (induction hs) (auto simp: matching_def split: if_splits)

lemma unhost_inner_one:
  assumes "length (matching hs line) = 1" and "0 \<le> i" and "i < int (length lines)"
  shows "unhost_inner hs line lines i = Ret (take (nat i) lines @ drop (Suc (nat i)) lines, i - 1)"
  using assms
proof (induction hs)
  case (Cons h hs)
  show ?case
  proof (cases "str_contains line (en_Domain h)")
    case True
    then have "matching hs line = []" using Cons.prems(1) by (simp add: matching_def)
    then show ?thesis using Cons.prems True by (simp add: unhost_inner_none)
  next
    case False
    then show ?thesis using Cons by (simp add: matching_def)
  qed
qed (simp add: matching_def)

definition ours :: "Entry list \<Rightarrow> string \<Rightarrow> bool" where
  "ours hs line \<longleftrightarrow> str_contains line HostsKeyWord \<and> matching hs line \<noteq> []"

lemma unhost_outer_filter:
  assumes "\<forall>line\<in>set lines. str_contains line HostsKeyWord \<longrightarrow> length (matching hs line) \<le> 1" and "i \<le> length lines"
  shows "unhost_outer hs lines (int i) = Ret (take i lines @ filter (\<lambda>l. \<not> ours hs l) (drop i lines))"
  using assms
proof (induction "length lines - i" arbitrary: lines i)
  case 0
  then show ?case by (subst unhost_outer.simps) simp
next
  case (Suc k)
  then have i: "i < length lines" by simp
  let ?l = "lines ! i"
  have mem: "?l \<in> set lines" using i by simp
  have d: "drop i lines = ?l # drop (Suc i) lines" using i by (simp add: Cons_nth_drop_Suc)
  have e: "int i + 1 = int (Suc i)" by simp
  have keep: "unhost_outer hs lines (int i + 1) = Ret (take (Suc i) lines @ filter (\<lambda>l. \<not> ours hs l) (drop (Suc i) lines))"
    unfolding e using Suc.hyps(2) Suc.prems i by (intro Suc.hyps(1)) auto
  show ?case
  proof (cases "ours hs ?l")
    case False
    then have "str_contains ?l HostsKeyWord \<Longrightarrow> matching hs ?l = []" by (simp add: ours_def)
    then show ?thesis using i d keep False
      by (subst unhost_outer.simps) (auto simp: unhost_inner_none take_Suc_conv_app_nth)
  next
    case True
    let ?v = "take i lines @ drop (Suc i) lines"
    have kw: "str_contains ?l HostsKeyWord" and "length (matching hs ?l) = 1"
      using True Suc.prems(1) mem by (auto simp: ours_def le_Suc_eq)
    then have inner: "(unhost_inner hs ?l lines (int i) :: (hosts_err, _) outcome) = Ret (?v, int i - 1)"
      using unhost_inner_one [of hs ?l "int i" lines] i by simp
    have "set ?v \<subseteq> set lines" using set_take_subset set_drop_subset by fastforce
    then have "unhost_outer hs ?v (int i) = Ret (take i ?v @ filter (\<lambda>l. \<not> ours hs l) (drop i ?v))"
      using Suc.hyps(2) Suc.prems i by (intro Suc.hyps(1)) auto
    moreover have "take i ?v = take i lines" "drop i ?v = drop (Suc i) lines" using i by simp_all
    ultimately show ?thesis using i d True kw inner by (subst unhost_outer.simps) simp
  qed
qed

text \<open>A second match of a line deletes the line before it.\<close>

lemma unhost_inner_two:
  assumes "length (matching hs line) = 2" and "0 \<le> i" and "i < int (length lines)"
  shows "(unhost_inner hs line lines i :: ('e, string list \<times> int) outcome) =
    (if i = 0 then Panic else Ret (take (nat i - 1) lines @ drop (Suc (nat i)) lines, i - 2))"
  using assms
proof (induction hs)
  case (Cons h hs)
  show ?case
  proof (cases "str_contains line (en_Domain h)")
    case False
    then show ?thesis using Cons by (simp add: matching_def)
  next
    case True
    let ?v = "take (nat i) lines @ drop (Suc (nat i)) lines"
    have one: "length (matching hs line) = 1" using Cons.prems(1) True by (simp add: matching_def)
    have step: "(unhost_inner (h # hs) line lines i :: ('e, string list \<times> int) outcome) = unhost_inner hs line ?v (i - 1)" using Cons.prems True by simp
    show ?thesis
    proof (cases "i = 0")
      case zero: True
      have "(unhost_inner hs line v (- 1) :: ('e, string list \<times> int) outcome) = Panic" for v using one
        by (induction hs) (auto simp: matching_def split: if_splits)
      then show ?thesis unfolding step using zero by simp
    next
      case False
      then have i: "0 \<le> i - 1" "i - 1 < int (length ?v)" and n: "nat (i - 1) = nat i - 1" "nat i \<noteq> 0"
        using Cons.prems(2,3) by (simp_all add: nat_diff_distrib)
      have nl: "nat i < length lines" using Cons.prems(2,3) by (simp add: nat_less_iff)
      have tk: "take (nat i - 1) ?v = take (nat i - 1) lines" "drop (Suc (nat i - 1)) ?v = drop (Suc (nat i)) lines"
        using n nl by (simp_all add: min_def)
      show ?thesis unfolding step unhost_inner_one [OF one i] n(1) tk using False by simp
    qed
  qed
qed (simp add: matching_def)

lemma unhost_outer_neighbour:
  assumes "\<not> str_contains p HostsKeyWord" and "str_contains l HostsKeyWord" and "length (matching hs l) = 2"
  shows "unhost_outer hs (p # l # ls) 0 = unhost_outer hs ls 0" and "unhost_outer hs (l # ls) 0 = Panic"
proof -
  have "(unhost_inner hs l (p # l # ls) 1 :: (hosts_err, _) outcome) = Ret (ls, - 1)"
    using unhost_inner_two [OF assms(3), of 1 "p # l # ls"] by simp
  then have "unhost_outer hs (p # l # ls) 1 = unhost_outer hs ls 0"
    using assms(2) by (subst unhost_outer.simps) simp
  then show "unhost_outer hs (p # l # ls) 0 = unhost_outer hs ls 0"
    using assms(1) by (subst unhost_outer.simps) simp
  have "(unhost_inner hs l (l # ls) 0 :: (hosts_err, _) outcome) = Panic"
    using unhost_inner_two [OF assms(3), of 0 "l # ls"] by simp
  then show "unhost_outer hs (l # ls) 0 = Panic"
    using assms(2) by (subst unhost_outer.simps) simp
qed

text \<open>C36: which lines of the hosts file are deleted.  When no line of ours holds the names of two entries, the loop of
  \<^verbatim>\<open>updateHosts\<close> deletes exactly the lines of ours that hold the name of an entry.  But when a line holds the names of two
  entries, as the line of \<^verbatim>\<open>foo-bar\<close> does while there is also a service \<^verbatim>\<open>foo\<close>, the line before it is deleted too, whatever it says,
  and if there is none the loop panics.\<close>
theorem updateHosts_deletes:
  "(list_all (\<lambda>line. str_contains line HostsKeyWord \<longrightarrow> length (matching hs line) \<le> 1) lines \<longrightarrow>
      unhost_outer hs lines 0 = Ret (filter (\<lambda>line. \<not> (str_contains line HostsKeyWord \<and> matching hs line \<noteq> [])) lines))
   \<and> (\<not> str_contains p HostsKeyWord \<and> str_contains l HostsKeyWord \<and> length (matching hs l) = 2 \<longrightarrow>
      unhost_outer hs (p # l # ls) 0 = unhost_outer hs ls 0 \<and> unhost_outer hs (l # ls) 0 = Panic)"
  using unhost_outer_filter [of lines hs 0] unhost_outer_neighbour [of p l hs ls]
  by (auto simp: list_all_iff ours_def)

definition foo_entries :: "Entry list" where
  "foo_entries = [\<lparr>en_IP = ''10.1.0.7'', en_Domain = ''foo-bar''\<rparr>, \<lparr>en_IP = ''10.1.0.8'', en_Domain = ''foo''\<rparr>]"

text \<open>The entry of localhost is lost and then added again at the end; that of a server is just lost.\<close>

theorem updateHosts_deletes_witness:
  "unhost_outer foo_entries [''10.0.0.9 db'', ''10.1.0.7 foo-bar  # Add by KubeVPN'', ''127.0.0.1 localhost''] 0 = Ret [''127.0.0.1 localhost'']
   \<and> updateHosts foo_entries [] (Some (''10.0.0.9 db'' @ newline @ ''10.1.0.7 foo-bar  # Add by KubeVPN'' @ newline @ ''127.0.0.1 localhost''))
      = Ret ''127.0.0.1 localhost''"
proof -
  let ?p = "''10.0.0.9 db''" and ?l = "''10.1.0.7 foo-bar  # Add by KubeVPN''" and ?ls = "[''127.0.0.1 localhost'']"
  have "\<not> str_contains ?p HostsKeyWord" "str_contains ?l HostsKeyWord" "length (matching foo_entries ?l) = 2"
    and one: "list_all (\<lambda>line. str_contains line HostsKeyWord \<longrightarrow> length (matching foo_entries line) \<le> 1) ?ls"
    and keep: "filter (\<lambda>line. \<not> (str_contains line HostsKeyWord \<and> matching foo_entries line \<noteq> [])) ?ls = ?ls"
    by code_simp+
  then have u: "unhost_outer foo_entries (?p # ?l # ?ls) 0 = Ret ?ls"
    using updateHosts_deletes [of foo_entries ?ls ?p ?l ?ls] by (simp only: simp_thms)
  have split: "split_on (CHR 0x0A) (?p @ newline @ ?l @ newline @ ''127.0.0.1 localhost'') = ?p # ?l # ?ls"
    and fin: "finish_hosts [] ?ls = Ret ''127.0.0.1 localhost''" by code_simp+
  have "updateHosts foo_entries [] (Some (?p @ newline @ ?l @ newline @ ''127.0.0.1 localhost'')) = Ret ''127.0.0.1 localhost''"
    unfolding updateHosts_def option.case split u bind_outcome.simps by (rule fin)
  with u show ?thesis by blast
qed

section \<open>Cleaning up and answering\<close>

lemma CleanupHosts_lines:
  assumes "CleanupHosts (Some s) = Ret s'"
  shows "split_on (CHR 0x0A) s' = filter (\<lambda>l. \<not> str_contains l HostsKeyWord) (split_on (CHR 0x0A) s)"
proof -
  let ?ls = "filter (\<lambda>l. \<not> str_contains l HostsKeyWord) (split_on (CHR 0x0A) s)"
  from assms have "?ls \<noteq> []" "s' = join newline ?ls" by (auto simp: CleanupHosts_def Let_def split: if_splits)
  moreover have "\<forall>l\<in>set ?ls. CHR 0x0A \<notin> set l" using split_on_parts by auto
  ultimately show ?thesis using split_on_join by (metis newline_def)
qed

text \<open>The reply keeps the question, and every answer in it is to the name that was asked.\<close>

definition dns_inv :: "string \<Rightarrow> dns_msg \<Rightarrow> dns_state \<Rightarrow> bool" where
  "dns_inv origin r st \<longleftrightarrow>
     dm_Question (ds_msg st) = dm_Question r \<and> (dm_Answer (ds_msg st) = dm_Answer r \<or> (\<forall>a\<in>set (dm_Answer (ds_msg st)). fst a = origin))
   \<and> (\<forall>m. ds_written st = Some m \<longrightarrow> dm_Question m = dm_Question r \<and> dm_Answer m \<noteq> [] \<and> (\<forall>a\<in>set (dm_Answer m). fst a = origin))"

lemma take_answer_inv: "dns_inv origin r st \<Longrightarrow> dns_inv origin r (take_answer origin ev st)"
proof -
  assume inv: "dns_inv origin r st"
  show ?thesis
  proof (cases "\<exists>answer. snd ev = Some answer \<and> dm_Answer answer \<noteq> []")
    case False
    then have "take_answer origin ev st = st" by (auto simp: take_answer_def split: option.splits)
    with inv show ?thesis by simp
  next
    case True
    then obtain answer where a: "snd ev = Some answer" "dm_Answer answer \<noteq> []" by blast
    define m where "m = (ds_msg st)\<lparr>dm_Answer := map (\<lambda>a. (origin, snd a)) (dm_Answer answer), dm_flags := dm_flags answer\<rparr>"
    have msg: "ds_msg (take_answer origin ev st) = m"
      and wr: "ds_written (take_answer origin ev st) = (if ds_open st then Some m else ds_written st)"
      using a by (simp_all add: take_answer_def Let_def m_def)
    have "dm_Question m = dm_Question (ds_msg st)" by (simp add: m_def)
    then have m: "dm_Question m = dm_Question r" "dm_Answer m \<noteq> []" "\<forall>a\<in>set (dm_Answer m). fst a = origin"
      using inv a(2) by (simp_all add: dns_inv_def m_def)
    have "dm_Question x = dm_Question r \<and> dm_Answer x \<noteq> [] \<and> (\<forall>a\<in>set (dm_Answer x). fst a = origin)"
      if "(if ds_open st then Some m else ds_written st) = Some x" for x
      using that m inv [unfolded dns_inv_def, THEN conjunct2, THEN conjunct2] by (metis option.inject)
    then show ?thesis unfolding dns_inv_def msg wr using m(1,3) by blast
  qed
qed

lemma fold_answers_inv: "dns_inv origin r st \<Longrightarrow> dns_inv origin r (fold (take_answer origin) answers st)"
  by (induction answers arbitrary: st) (simp_all add: take_answer_inv)

lemma ServeDNS_reply:
  assumes "ServeDNS cache acquired answers r = (Some m, cache')" and "dm_Question r = origin # qs" and "dm_Answer r = []"
  shows "dm_Question m = dm_Question r" and "\<forall>a\<in>set (dm_Answer m). fst a = origin"
proof -
  define st where "st = fold (take_answer origin) answers \<lparr>ds_msg = r, ds_cache = cache, ds_open = True, ds_written = None\<rparr>"
  have "dns_inv origin r \<lparr>ds_msg = r, ds_cache = cache, ds_open = True, ds_written = None\<rparr>" by (simp add: dns_inv_def)
  then have inv: "dns_inv origin r st" unfolding st_def by (rule fold_answers_inv)
  from assms(1,2) have "acquired" by (auto simp: ServeDNS_def split: if_splits)
  with assms(1,2) have m: "m = (case ds_written st of Some m \<Rightarrow> m | None \<Rightarrow> (ds_msg st)\<lparr>dm_flags := (dm_flags (ds_msg st))\<lparr>df_Response := True\<rparr>\<rparr>)"
    unfolding ServeDNS_def st_def by (simp add: Let_def split: option.splits)
  have "dm_Question m = dm_Question r \<and> (\<forall>a\<in>set (dm_Answer m). fst a = origin)"
  proof (cases "ds_written st")
    case None
    then have "dm_Question m = dm_Question (ds_msg st)" "dm_Answer m = dm_Answer (ds_msg st)" unfolding m by simp_all
    with inv assms(3) show ?thesis unfolding dns_inv_def by (metis empty_iff empty_set)
  next
    case (Some x)
    then have "m = x" unfolding m by simp
    with inv Some show ?thesis unfolding dns_inv_def by blast
  qed
  then show "dm_Question m = dm_Question r" and "\<forall>a\<in>set (dm_Answer m). fst a = origin" by blast+
qed

end
