(* ===== verification/Dhcp_System.thy ===== *)
theory Dhcp_System
  imports Dhcp
begin

text \<open>
  Many clients of the DHCP component at once.  A client first reads the ConfigMap and later, on that
  possibly stale copy, finishes its rental, release or setting; reads and writes of different clients
  interleave in any order, and other components may write other keys of the ConfigMap at any time.
  The properties of the DHCP component stand at the end.
\<close>

section \<open>The state machine\<close>

datatype dhcp_request = RentReq "ip list" | ReleaseReq ip ip | SetReq string string

text \<open>The world, the address pairs that clients hold, and the requests with the copy each has read.\<close>

record 'w dhcp_sys =
  sys_world :: 'w
  sys_held :: "(ip \<times> ip) list"
  sys_pending :: "(dhcp_request \<times> configmap) list"

inductive dhcp_step :: "'w cm_client \<Rightarrow> DHCPManager \<Rightarrow> 'w dhcp_sys \<Rightarrow> 'w dhcp_sys \<Rightarrow> bool"
  for cl d where
  step_read: "cm_Get cl (sys_world s) ConfigMapPodTrafficManager = Inr cm \<Longrightarrow>
    dhcp_step cl d s (s\<lparr>sys_pending := (q, cm) # sys_pending s\<rparr>)"
| step_rent: "(RentReq nics, cm) \<in> set (sys_pending s) \<Longrightarrow>
    finish_update cl d (rent_action d nics) cm (sys_world s) = (Inr (n4, n6), w') \<Longrightarrow>
    dhcp_step cl d s (s\<lparr>sys_world := w', sys_held := (net_IP n4, net_IP n6) # sys_held s,
      sys_pending := remove1 (RentReq nics, cm) (sys_pending s)\<rparr>)"
| step_release: "(ReleaseReq a b, cm) \<in> set (sys_pending s) \<Longrightarrow> (a, b) \<in> set (sys_held s) \<Longrightarrow>
    finish_update cl d (release_action [a, b]) cm (sys_world s) = (Inr (), w') \<Longrightarrow>
    dhcp_step cl d s (s\<lparr>sys_world := w', sys_held := remove1 (a, b) (sys_held s),
      sys_pending := remove1 (ReleaseReq a b, cm) (sys_pending s)\<rparr>)"
| step_set: "(SetReq k v, cm) \<in> set (sys_pending s) \<Longrightarrow> k \<noteq> KeyDHCP \<Longrightarrow> k \<noteq> KeyDHCP6 \<Longrightarrow>
    finish_set cl k v cm (sys_world s) = (Inr (), w') \<Longrightarrow>
    dhcp_step cl d s (s\<lparr>sys_world := w', sys_pending := remove1 (SetReq k v, cm) (sys_pending s)\<rparr>)"
| step_fail: "(q, cm) \<in> set (sys_pending s) \<Longrightarrow>
    (case q of
       RentReq nics \<Rightarrow> \<exists>e. finish_update cl d (rent_action d nics) cm (sys_world s) = (Inl e, w')
     | ReleaseReq a b \<Rightarrow> \<exists>e. finish_update cl d (release_action [a, b]) cm (sys_world s) = (Inl e, w')
     | SetReq k v \<Rightarrow> \<exists>e. finish_set cl k v cm (sys_world s) = (Inl e, w')) \<Longrightarrow>
    dhcp_step cl d s (s\<lparr>sys_world := w', sys_pending := remove1 (q, cm) (sys_pending s)\<rparr>)"
| step_other: "cm_Get cl (sys_world s) ConfigMapPodTrafficManager = Inr cm \<Longrightarrow>
    cm_Get cl w' ConfigMapPodTrafficManager = Inr cm' \<Longrightarrow> cm_version cm < cm_version cm' \<Longrightarrow>
    gomap_get (cm_data cm') KeyDHCP = gomap_get (cm_data cm) KeyDHCP \<Longrightarrow>
    gomap_get (cm_data cm') KeyDHCP6 = gomap_get (cm_data cm) KeyDHCP6 \<Longrightarrow>
    dhcp_step cl d s (s\<lparr>sys_world := w'\<rparr>)"

section \<open>The invariant\<close>

text \<open>A copy that was read: stale, or equal to what is stored.\<close>

definition snapshot_of :: "configmap \<Rightarrow> configmap \<Rightarrow> bool" where
  "snapshot_of c cm \<longleftrightarrow> cm_name c = ConfigMapPodTrafficManager \<and> cm_version c \<le> cm_version cm
     \<and> (cm_version c = cm_version cm \<longrightarrow> (\<forall>k. gomap_get (cm_data c) k = gomap_get (cm_data cm) k))"

definition leases_ok :: "DHCPManager \<Rightarrow> configmap \<Rightarrow> (ip \<times> ip) list \<Rightarrow> bool" where
  "leases_ok d cm hs \<longleftrightarrow> cm_wf d cm \<and> distinct (map fst hs) \<and> distinct (map snd hs)
     \<and> fst ` set hs \<subseteq> lease4 d cm \<and> snd ` set hs \<subseteq> lease6 d cm"

definition sys_inv :: "'w cm_client \<Rightarrow> DHCPManager \<Rightarrow> 'w dhcp_sys \<Rightarrow> bool" where
  "sys_inv cl d s \<longleftrightarrow> (\<exists>cm. cm_Get cl (sys_world s) ConfigMapPodTrafficManager = Inr cm
     \<and> leases_ok d cm (sys_held s) \<and> (\<forall>(q, c)\<in>set (sys_pending s). snapshot_of c cm))"

lemma leases_ok_pools:
  "pool4 d cm = pool4 d cm' \<Longrightarrow> pool6 d cm = pool6 d cm' \<Longrightarrow> leases_ok d cm hs = leases_ok d cm' hs"
  by (simp add: leases_ok_def cm_wf_def lease4_def lease6_def)

text \<open>After a successful write every outstanding copy is stale.\<close>

lemma snapshot_stale: "snapshot_of c cm \<Longrightarrow> cm_version cm < cm_version cm' \<Longrightarrow> snapshot_of c cm'"
  by (simp add: snapshot_of_def)

lemma sys_inv_write:
  assumes "sys_inv cl d s"
    and "cm_Get cl (sys_world s) ConfigMapPodTrafficManager = Inr old"
    and "cm_Get cl w' ConfigMapPodTrafficManager = Inr new" and "cm_version old < cm_version new"
    and "leases_ok d new hs" and "set qs \<subseteq> set (sys_pending s)"
  shows "sys_inv cl d (s\<lparr>sys_world := w', sys_held := hs, sys_pending := qs\<rparr>)"
proof -
  from assms(1,2) have "\<forall>(q, c)\<in>set (sys_pending s). snapshot_of c old"
    by (auto simp: sys_inv_def)
  with assms(4,6) have "\<forall>(q, c)\<in>set qs. snapshot_of c new"
    using snapshot_stale by fastforce
  with assms(3,5) show ?thesis by (simp add: sys_inv_def)
qed

text \<open>A transaction that succeeds worked on what was stored.\<close>

lemma finish_update_Inr:
  assumes "lawful_client cl" and "finish_update cl d f c w = (Inr r, w')"
    and "cm_Get cl w ConfigMapPodTrafficManager = Inr old" and "snapshot_of c old"
  obtains c' new where "dhcp_transform d f c = Inr (r, c')"
    "cm_Get cl w' ConfigMapPodTrafficManager = Inr new" "cm_version old < cm_version new"
    "pool4 d new = pool4 d c'" "pool6 d new = pool6 d c'" "pool4 d c = pool4 d old" "pool6 d c = pool6 d old"
proof -
  from assms(2) obtain c' new where t: "dhcp_transform d f c = Inr (r, c')"
    and u: "cm_Update cl w c' = (Inr new, w')"
    by (auto simp: finish_update_def split: sum.splits prod.splits)
  have n: "cm_name c' = ConfigMapPodTrafficManager" "cm_version c' = cm_version c"
    using assms(4) by (rule_tac [!] dhcp_transform_Inr [OF t]) (auto simp: snapshot_of_def)
  obtain old' where o: "cm_Get cl w (cm_name c') = Inr old'" "cm_version old' = cm_version c'"
    "cm_Get cl w' (cm_name c') = Inr new" "cm_version old' < cm_version new"
    "\<And>k. gomap_get (cm_data new) k = gomap_get (cm_data c') k"
    by (rule lawful_Update_succeeds [OF assms(1) u]) blast
  have "old' = old" using o(1) assms(3) n(1) by simp
  with o(2) n(2) assms(4) have "\<And>k. gomap_get (cm_data c) k = gomap_get (cm_data old) k"
    by (simp add: snapshot_of_def)
  from pools_by_data [OF this] pools_by_data [OF o(5)] show ?thesis
    using that [OF t] o(3,4) n(1) \<open>old' = old\<close> by simp
qed

lemma subset_minus: "A \<subseteq> B \<Longrightarrow> B \<subseteq> C \<Longrightarrow> a \<notin> A \<Longrightarrow> A \<subseteq> C - {a}"
  by blast

lemma distinct_map_remove1:
  "distinct (map f xs) \<Longrightarrow> x \<in> set xs \<Longrightarrow> distinct (map f (remove1 x xs)) \<and> f x \<notin> f ` set (remove1 x xs)"
proof (induction xs)
  case (Cons y ys)
  then show ?case using notin_set_remove1 by (auto simp: image_iff)
qed simp

subsection \<open>Every step keeps the invariant\<close>

lemma sys_invE:
  assumes "sys_inv cl d s"
  obtains cm where "cm_Get cl (sys_world s) ConfigMapPodTrafficManager = Inr cm"
    "leases_ok d cm (sys_held s)" "\<And>q c. (q, c) \<in> set (sys_pending s) \<Longrightarrow> snapshot_of c cm"
  using assms by (auto simp: sys_inv_def)

lemma inv_rent:
  assumes "lawful_client cl" and inv: "sys_inv cl d s" and "(RentReq nics, cm) \<in> set (sys_pending s)"
    and f: "finish_update cl d (rent_action d nics) cm (sys_world s) = (Inr (n4, n6), w')"
  shows "sys_inv cl d (s\<lparr>sys_world := w', sys_held := (net_IP n4, net_IP n6) # sys_held s,
      sys_pending := remove1 (RentReq nics, cm) (sys_pending s)\<rparr>)"
proof -
  obtain old where old: "cm_Get cl (sys_world s) ConfigMapPodTrafficManager = Inr old"
    and ok: "leases_ok d old (sys_held s)" and snap: "snapshot_of cm old"
    using assms(3) by (rule_tac sys_invE [OF inv]) blast
  obtain c' new where t: "dhcp_transform d (rent_action d nics) cm = Inr ((n4, n6), c')"
    and new: "cm_Get cl w' ConfigMapPodTrafficManager = Inr new" "cm_version old < cm_version new"
    and pn: "pool4 d new = pool4 d c'" "pool6 d new = pool6 d c'"
    and po: "pool4 d cm = pool4 d old" "pool6 d cm = pool6 d old"
    by (rule finish_update_Inr [OF assms(1) f old snap])
  have eq: "lease4 d cm = lease4 d old" "lease6 d cm = lease6 d old" "cm_wf d cm = cm_wf d old"
    "lease4 d new = lease4 d c'" "lease6 d new = lease6 d c'" "cm_wf d new = cm_wf d c'"
    by (simp_all add: lease4_def lease6_def cm_wf_def po pn)
  have wf: "cm_wf d cm" using ok by (simp add: leases_ok_def eq)
  have "leases_ok d new ((net_IP n4, net_IP n6) # sys_held s)"
    using ok rent_transform(1,4-7) [OF wf t] unfolding leases_ok_def eq by auto
  then show ?thesis
    by (rule sys_inv_write [OF inv old new]) (rule set_remove1_subset)
qed

lemma inv_release:
  fixes ns defines "d \<equiv> NewDHCPManager ns"
  assumes "lawful_client cl" and inv: "sys_inv cl d s" and "(ReleaseReq a b, cm) \<in> set (sys_pending s)"
    and held: "(a, b) \<in> set (sys_held s)"
    and f: "finish_update cl d (release_action [a, b]) cm (sys_world s) = (Inr (), w')"
  shows "sys_inv cl d (s\<lparr>sys_world := w', sys_held := remove1 (a, b) (sys_held s),
      sys_pending := remove1 (ReleaseReq a b, cm) (sys_pending s)\<rparr>)"
proof -
  obtain old where old: "cm_Get cl (sys_world s) ConfigMapPodTrafficManager = Inr old"
    and ok: "leases_ok d old (sys_held s)" and snap: "snapshot_of cm old"
    using assms(4) by (rule_tac sys_invE [OF inv]) blast
  obtain c' new where t: "dhcp_transform d (release_action [a, b]) cm = Inr ((), c')"
    and new: "cm_Get cl w' ConfigMapPodTrafficManager = Inr new" "cm_version old < cm_version new"
    and pn: "pool4 d new = pool4 d c'" "pool6 d new = pool6 d c'"
    and po: "pool4 d cm = pool4 d old" "pool6 d cm = pool6 d old"
    by (rule finish_update_Inr [OF assms(2) f old snap])
  have eq: "lease4 d cm = lease4 d old" "lease6 d cm = lease6 d old" "cm_wf d cm = cm_wf d old"
    "lease4 d new = lease4 d c'" "lease6 d new = lease6 d c'" "cm_wf d new = cm_wf d c'"
    by (simp_all add: lease4_def lease6_def cm_wf_def po pn)
  have wf: "cm_wf d cm" and ab: "a \<in> lease4 d cm" "b \<in> lease6 d cm"
    using ok held unfolding leases_ok_def eq by force+
  note rel = release_transform [of ns cm a b c', folded d_def, OF wf ab t]
  have "distinct (map fst (sys_held s))" "distinct (map snd (sys_held s))"
    using ok by (simp_all add: leases_ok_def)
  note rem = distinct_map_remove1 [OF this(1) held] distinct_map_remove1 [OF this(2) held]
  define hs where "hs = remove1 (a, b) (sys_held s)"
  have "set hs \<subseteq> set (sys_held s)" unfolding hs_def by (rule set_remove1_subset)
  then have "fst ` set hs \<subseteq> fst ` set (sys_held s)" "snd ` set hs \<subseteq> snd ` set (sys_held s)"
    by (simp_all add: image_mono)
  moreover have "a \<notin> fst ` set hs" "b \<notin> snd ` set hs"
    using rem by (simp_all add: hs_def)
  moreover have "fst ` set (sys_held s) \<subseteq> lease4 d old" "snd ` set (sys_held s) \<subseteq> lease6 d old"
    using ok by (simp_all add: leases_ok_def)
  ultimately have "fst ` set hs \<subseteq> lease4 d old - {a}" "snd ` set hs \<subseteq> lease6 d old - {b}"
    by (metis subset_minus)+
  moreover have "lease4 d old - {a} \<subseteq> lease4 d new" "lease6 d old - {b} \<subseteq> lease6 d new"
    unfolding eq(4,5) rel(4,5) eq(1,2) by auto
  ultimately have "fst ` set hs \<subseteq> lease4 d new" "snd ` set hs \<subseteq> lease6 d new"
    by (blast intro: order_trans)+
  then have "leases_ok d new (remove1 (a, b) (sys_held s))"
    using rel(1) rem by (simp add: leases_ok_def eq(6) hs_def)
  then show ?thesis
    by (rule sys_inv_write [OF inv old new]) (rule set_remove1_subset)
qed

lemma inv_set:
  assumes "lawful_client cl" and inv: "sys_inv cl d s" and "(SetReq k v, cm) \<in> set (sys_pending s)"
    and k: "k \<noteq> KeyDHCP" "k \<noteq> KeyDHCP6" and f: "finish_set cl k v cm (sys_world s) = (Inr (), w')"
  shows "sys_inv cl d (s\<lparr>sys_world := w', sys_pending := remove1 (SetReq k v, cm) (sys_pending s)\<rparr>)"
proof -
  obtain old where old: "cm_Get cl (sys_world s) ConfigMapPodTrafficManager = Inr old"
    and ok: "leases_ok d old (sys_held s)" and snap: "snapshot_of cm old"
    using assms(3) by (rule_tac sys_invE [OF inv]) blast
  define c' where "c' = cm\<lparr>cm_data := Some ((case cm_data cm of None \<Rightarrow> (\<lambda>_. None) | Some m \<Rightarrow> m)(k \<mapsto> v))\<rparr>"
  from f obtain new where u: "cm_Update cl (sys_world s) c' = (Inr new, w')"
    by (auto simp: finish_set_def Let_def c'_def split: prod.splits sum.splits)
  have n: "cm_name c' = ConfigMapPodTrafficManager" "cm_version c' = cm_version cm"
    using snap by (simp_all add: c'_def snapshot_of_def)
  obtain old' where o: "cm_Get cl (sys_world s) (cm_name c') = Inr old'" "cm_version old' = cm_version c'"
    "cm_Get cl w' (cm_name c') = Inr new" "cm_version old' < cm_version new"
    "\<And>k. gomap_get (cm_data new) k = gomap_get (cm_data c') k"
    by (rule lawful_Update_succeeds [OF assms(1) u]) blast
  have "old' = old" using o(1) old n(1) by simp
  with o(2) n(2) snap have same: "\<And>k. gomap_get (cm_data cm) k = gomap_get (cm_data old) k"
    by (simp add: snapshot_of_def)
  have "gomap_get (cm_data new) j = gomap_get (cm_data old) j" if "j \<noteq> k" for j
    using o(5) [of j] same [of j] that by (auto simp: c'_def split: option.splits)
  then have "pool4 d new = pool4 d old" "pool6 d new = pool6 d old"
    using k by (simp_all add: pool4_def pool6_def data_at_def)
  with ok have "leases_ok d new (sys_held s)" using leases_ok_pools by blast
  moreover have "s\<lparr>sys_world := w', sys_pending := qs\<rparr> = s\<lparr>sys_world := w', sys_held := sys_held s, sys_pending := qs\<rparr>" for qs
    by simp
  ultimately show ?thesis
    using sys_inv_write [OF inv old _ _ _ set_remove1_subset] o(3,4) n(1) \<open>old' = old\<close> by metis
qed

lemma finish_fail_world:
  assumes "lawful_client cl"
  shows "finish_update cl d f cm w = (Inl e, w') \<Longrightarrow> w' = w" "finish_set cl k v cm w = (Inl e, w') \<Longrightarrow> w' = w"
  using lawful_Update_fails [OF assms]
  by (auto simp: finish_update_def finish_set_def Let_def split: sum.splits prod.splits)

lemma sys_inv_step:
  assumes "lawful_client cl" and "dhcp_step cl (NewDHCPManager ns) s t" and "sys_inv cl (NewDHCPManager ns) s"
  shows "sys_inv cl (NewDHCPManager ns) t"
  using assms(2,3)
proof (induction rule: dhcp_step.induct)
  case (step_read s cm q)
  then show ?case
    using lawful_Get_name [OF assms(1) step_read.hyps] by (auto simp: sys_inv_def snapshot_of_def)
next
  case (step_rent nics cm s n4 n6 w')
  then show ?case using inv_rent [OF assms(1)] by blast
next
  case (step_release a b cm s w')
  then show ?case using inv_release [OF assms(1)] by blast
next
  case (step_set k v cm s w')
  then show ?case using inv_set [OF assms(1)] by blast
next
  case (step_fail q cm s w')
  from step_fail.hyps(2) have "w' = sys_world s"
    by (cases q) (auto dest: finish_fail_world [OF assms(1)])
  then show ?case
    using step_fail.prems set_remove1_subset by (fastforce simp: sys_inv_def)
next
  case (step_other s cm w' cm')
  have "pool4 (NewDHCPManager ns) cm' = pool4 (NewDHCPManager ns) cm"
    "pool6 (NewDHCPManager ns) cm' = pool6 (NewDHCPManager ns) cm"
    using step_other.hyps(4,5) by (simp_all add: pool4_def pool6_def data_at_def)
  moreover have "leases_ok (NewDHCPManager ns) cm (sys_held s)"
    using step_other.prems step_other.hyps(1) by (auto simp: sys_inv_def)
  ultimately have "leases_ok (NewDHCPManager ns) cm' (sys_held s)"
    using leases_ok_pools by blast
  from sys_inv_write [OF step_other.prems step_other.hyps(1-3) this subset_refl] show ?case by simp
qed

lemma sys_inv_reach:
  assumes "lawful_client cl" and "(dhcp_step cl (NewDHCPManager ns))\<^sup>*\<^sup>* s t" and "sys_inv cl (NewDHCPManager ns) s"
  shows "sys_inv cl (NewDHCPManager ns) t"
  using assms(2,3) by (induction rule: rtranclp_induct) (auto intro: sys_inv_step [OF assms(1)])

section \<open>Properties of the DHCP component\<close>

lemma pool_of_empty:
  assumes "b64_decode tx \<in> {None, Some []}"
  shows "pool_of n tx = NewAllocatorCIDRRange n"
proof -
  have "countBits 0 = 0" by (simp add: countBits_card)
  with assms show ?thesis
    by (auto simp: pool_of_def NewAllocatorCIDRRange_def NewContiguousAllocationMap_def Let_def)
qed

lemma traffic_manager_wf_empty:
  assumes "b64_decode (data_at (cm_data cm) KeyDHCP) \<in> {None, Some []}"
    and "b64_decode (data_at (cm_data cm) KeyDHCP6) \<in> {None, Some []}"
  shows "cm_wf (NewDHCPManager ns) cm \<and> lease4 (NewDHCPManager ns) cm = {} \<and> lease6 (NewDHCPManager ns) cm = {}"
proof -
  have "range_ok (NewAllocatorCIDRRange (dm_cidr (NewDHCPManager ns)))"
  proof (rule range_ok_new)
    show "RangeSize (dm_cidr (NewDHCPManager ns)) \<le> 2 ^ 62"
      "int (bigForIP (net_IP (dm_cidr (NewDHCPManager ns)))) + max 0 (RangeSize (dm_cidr (NewDHCPManager ns))) < 2 ^ 128"
      by (simp_all only: NewDHCPManager_def DHCPManager.simps ipnet.simps) code_simp+
  qed
  moreover have "range_ok (NewAllocatorCIDRRange (dm_cidr6 (NewDHCPManager ns)))"
  proof (rule range_ok_new)
    show "RangeSize (dm_cidr6 (NewDHCPManager ns)) \<le> 2 ^ 62"
      "int (bigForIP (net_IP (dm_cidr6 (NewDHCPManager ns)))) + max 0 (RangeSize (dm_cidr6 (NewDHCPManager ns))) < 2 ^ 128"
      by (simp_all only: NewDHCPManager_def DHCPManager.simps ipnet.simps) code_simp+
  qed
  ultimately show ?thesis
    using pool_of_empty [OF assms(1)] pool_of_empty [OF assms(2)] by (simp add: cm_wf_def pool4_def pool6_def lease4_def lease6_def)
qed


text \<open>A world in which \<^verbatim>\<open>initDHCP\<close> has created the ConfigMap, and the first rental there.\<close>

definition example_world :: store where
  "example_world = snd (initDHCP store_client (NewDHCPManager ''default'') empty_store)"

definition example_cm :: configmap where
  "example_cm = \<lparr>cm_name = ConfigMapPodTrafficManager, cm_namespace = ''default'', cm_version = 1,
     cm_data = Some [KeyEnvoy \<mapsto> '''', KeyRefCount \<mapsto> ''0'']\<rparr>"

definition example_nics :: "ip list" where
  "example_nics = [[127, 0, 0, 1]]"

lemma example_get: "cm_Get store_client example_world ConfigMapPodTrafficManager = Inr example_cm"
  by (simp add: example_world_def example_cm_def initDHCP_def empty_store_def st_get_def st_create_def
      st_put_def Let_def NewDHCPManager_def)

lemma example_data:
  "data_at (cm_data example_cm) KeyDHCP = []" "data_at (cm_data example_cm) KeyDHCP6 = []"
  by code_simp+

lemma example_wf: "cm_wf (NewDHCPManager ns) example_cm" "lease4 (NewDHCPManager ns) example_cm = {}"
  "lease6 (NewDHCPManager ns) example_cm = {}"
  using traffic_manager_wf_empty [of example_cm ns] example_data by simp_all

definition example_rent :: "(dhcp_err + ipnet \<times> ipnet) \<times> store" where
  "example_rent = finish_update store_client (NewDHCPManager ''default'')
     (rent_action (NewDHCPManager ''default'') example_nics) example_cm example_world"

lemma ip_Equal_big: "ip_Equal a b \<Longrightarrow> bigForIP a = bigForIP b"
proof (cases "length a = length b")
  case False
  assume e: "ip_Equal a b"
  with False have "length a \<in> {4, 16}" "length b \<in> {4, 16}" by (auto simp: ip_Equal_def split: if_splits)
  with e show ?thesis by (simp only: ip_Equal_iff_To16 bigForIP_def)
qed (simp add: ip_Equal_def)

text \<open>The first rental from an empty range takes its first address.\<close>

lemma rent_loop_first:
  assumes "0 < rg_max (NewAllocatorCIDRRange n)" and "\<not> ex (addIPOffset (rg_base (NewAllocatorCIDRRange n)) 0)"
  shows "fst (rent_loop ex (NewAllocatorCIDRRange n)) = Inr (addIPOffset (rg_base (NewAllocatorCIDRRange n)) 0)"
proof -
  have "first_zero 0 0 (nat (rg_max (NewAllocatorCIDRRange n))) = Some 0"
    using assms(1) by (simp add: first_zero.simps [of 0 0])
  then have "fst (range_AllocateNext (NewAllocatorCIDRRange n)) =
      Inr (addIPOffset (rg_base (NewAllocatorCIDRRange n)) 0)"
    using assms(1) by (simp add: range_AllocateNext_def bm_AllocateNext_def AllocateBit_def
        NewAllocatorCIDRRange_def NewContiguousAllocationMap_def Let_def)
  then obtain r' where "range_AllocateNext (NewAllocatorCIDRRange n) =
      (Inr (addIPOffset (rg_base (NewAllocatorCIDRRange n)) 0), r')"
    by (metis prod.collapse)
  with assms(2) show ?thesis
    by (simp add: rent_loop.simps [of ex "NewAllocatorCIDRRange n"])
qed

lemma empty_pools:
  assumes "b64_decode (data_at (cm_data cm) KeyDHCP) \<in> {None, Some []}"
  shows "pool4 d cm = NewAllocatorCIDRRange (dm_cidr d)"
  using pool_of_empty [OF assms] by (simp add: pool4_def)

lemma empty_pools6:
  assumes "b64_decode (data_at (cm_data cm) KeyDHCP6) \<in> {None, Some []}"
  shows "pool6 d cm = NewAllocatorCIDRRange (dm_cidr6 d)"
  using pool_of_empty [OF assms] by (simp add: pool6_def)

lemma rent_transform_succeeds:
  assumes "fst (rent_loop (isAlreadyExisted addrs) (pool4 d cm)) = Inr a"
    and "fst (rent_loop (isAlreadyExisted addrs) (pool6 d cm)) = Inr b"
  shows "\<exists>n4 n6 c'. dhcp_transform d (rent_action d addrs) cm = Inr ((n4, n6), c') \<and> net_IP n4 = a \<and> net_IP n6 = b"
proof -
  obtain q4 q6 where "rent_loop (isAlreadyExisted addrs) (pool4 d cm) = (Inr a, q4)"
    "rent_loop (isAlreadyExisted addrs) (pool6 d cm) = (Inr b, q6)"
    using assms by (metis prod.collapse)
  then show ?thesis by (simp add: dhcp_transform_pools rent_action_def)
qed

lemma example_rent_step:
  "\<exists>n4 n6 w'. example_rent = (Inr (n4, n6), w') \<and> net_IP n4 = addIPOffset base4 0 \<and> net_IP n6 = addIPOffset base6 0"
proof -
  let ?d = "NewDHCPManager ''default''" and ?ex = "isAlreadyExisted example_nics"
  have "bigForIP [127, 0, 0, 1] = 281472812449793" by code_simp
  then have "\<not> ?ex (addIPOffset base4 0)" "\<not> ?ex (addIPOffset base6 0)"
    using bigForIP_addIPOffset [of base4 0] bigForIP_addIPOffset [of base6 0] ip_Equal_big
    by (auto simp: isAlreadyExisted_def example_nics_def base4_def base6_def)
  then have l: "fst (rent_loop ?ex (NewAllocatorCIDRRange (dm_cidr ?d))) = Inr (addIPOffset base4 0)"
    "fst (rent_loop ?ex (NewAllocatorCIDRRange (dm_cidr6 ?d))) = Inr (addIPOffset base6 0)"
    using rent_loop_first [of "dm_cidr ?d" ?ex] rent_loop_first [of "dm_cidr6 ?d" ?ex]
    by (simp_all add: manager_ranges)
  have "pool4 ?d example_cm = NewAllocatorCIDRRange (dm_cidr ?d)"
    "pool6 ?d example_cm = NewAllocatorCIDRRange (dm_cidr6 ?d)"
    using empty_pools [of example_cm] empty_pools6 [of example_cm] example_data by simp_all
  with l obtain n4 n6 c' where t: "dhcp_transform ?d (rent_action ?d example_nics) example_cm = Inr ((n4, n6), c')"
    and n: "net_IP n4 = addIPOffset base4 0" "net_IP n6 = addIPOffset base6 0"
    using rent_transform_succeeds [of example_nics ?d example_cm] by force
  have "cm_name c' = ConfigMapPodTrafficManager" "cm_version c' = 1"
    by (rule dhcp_transform_Inr [OF t], simp add: example_cm_def)+
  moreover have "st_rev example_world = 2"
    by (simp add: example_world_def initDHCP_def empty_store_def st_get_def st_create_def st_put_def Let_def)
  moreover have "cm_version example_cm = 1" by (simp add: example_cm_def)
  ultimately have "\<exists>x w'. st_update example_world c' = (Inr x, w')"
    using example_get by (simp add: st_update_def st_put_def Let_def)
  with t n show ?thesis by (auto simp: example_rent_def finish_update_def)
qed


lemma finish_update_cases:
  "(\<exists>e. dhcp_transform d f cm = Inl e) \<or> (\<exists>r w'. finish_update cl d f cm w = (Inr r, w'))
   \<or> (\<exists>e w'. finish_update cl d f cm w = (Inl (UpdateFailed e), w'))"
  by (auto simp: finish_update_def split: prod.splits sum.splits)

lemma finish_update_world:
  assumes "lawful_client cl" and "cm_Get cl w ConfigMapPodTrafficManager = Inr cm"
    and "finish_update cl d f cm w = (Inr r, w')"
  obtains c' new where "dhcp_transform d f cm = Inr (r, c')"
    "cm_Get cl w' ConfigMapPodTrafficManager = Inr new"
    "pool4 d new = pool4 d c'" "pool6 d new = pool6 d c'"
proof -
  have "snapshot_of cm cm" using lawful_Get_name [OF assms(1,2)] by (simp add: snapshot_of_def)
  from finish_update_Inr [OF assms(1,3,2) this] that show ?thesis by metis
qed

text \<open>The effect of a rental that succeeds, on what is stored.\<close>

lemma rent_success:
  fixes ns defines "d \<equiv> NewDHCPManager ns"
  assumes "lawful_client cl" and "cm_Get cl w ConfigMapPodTrafficManager = Inr cm" and "cm_wf d cm"
    and good: "finish_update cl d (rent_action d addrs) cm w = (Inr (n4, n6), w')"
  shows "\<exists>cm'. cm_Get cl w' ConfigMapPodTrafficManager = Inr cm' \<and> cm_wf d cm'
    \<and> net_IP n4 \<notin> lease4 d cm \<and> net_IP n6 \<notin> lease6 d cm
    \<and> insert (net_IP n4) (lease4 d cm) \<subseteq> lease4 d cm' \<and> insert (net_IP n6) (lease6 d cm) \<subseteq> lease6 d cm'
    \<and> lease4 d cm' \<subseteq> insert (net_IP n4) (lease4 d cm) \<union> {a. isAlreadyExisted addrs a}
    \<and> lease6 d cm' \<subseteq> insert (net_IP n6) (lease6 d cm) \<union> {a. isAlreadyExisted addrs a}
    \<and> \<not> isAlreadyExisted addrs (net_IP n4) \<and> \<not> isAlreadyExisted addrs (net_IP n6)
    \<and> net_Mask n4 = [255, 255, 0, 0] \<and> net_Mask n6 = CIDRMask 64 128"
proof -
  have masks: "net_Mask (dm_cidr d) = [255, 255, 0, 0]" "net_Mask (dm_cidr6 d) = CIDRMask 64 128"
    by (simp_all only: d_def NewDHCPManager_def DHCPManager.simps ipnet.simps) code_simp+
  obtain c' new where t: "dhcp_transform d (rent_action d addrs) cm = Inr ((n4, n6), c')"
    and new: "cm_Get cl w' ConfigMapPodTrafficManager = Inr new"
    and p: "pool4 d new = pool4 d c'" "pool6 d new = pool6 d c'"
    by (rule finish_update_world [OF assms(2,3) good])
  have l: "lease4 d new = lease4 d c'" "lease6 d new = lease6 d c'" "cm_wf d new = cm_wf d c'"
    by (simp_all add: lease4_def lease6_def cm_wf_def p)
  obtain q4 q6 where "rent_action d addrs (pool4 d cm) (pool6 d cm) = (Inr (n4, n6), q4, q6)"
    by (rule dhcp_transform_Inr [OF t]) blast
  note m = rent_action_Inr(3,4) [OF this]
  show ?thesis using rent_transform [OF assms(4) t] new l m masks by auto
qed

text \<open>C23: what \<^verbatim>\<open>RentIPRandom\<close> does on every branch.  A rental that succeeds returns an IPv4 and an IPv6
  address that were free in the ConfigMap and are on no interface of the host, with the masks of the
  pools, and stores them as taken together with nothing but addresses of the host; a rental fails with
  a full range only when every address of a pool is taken or on the host, and otherwise only because the
  write was refused, in both cases without changing anything.\<close>

theorem RentIPRandom_spec:
  fixes ns defines "d \<equiv> NewDHCPManager ns"
  assumes "lawful_client cl" and "cm_Get cl w ConfigMapPodTrafficManager = Inr cm" and "cm_wf d cm"
  shows "case RentIPRandom cl id d (Inr addrs) w of
      (Inr (n4, n6), w') \<Rightarrow>
        (\<exists>cm'. cm_Get cl w' ConfigMapPodTrafficManager = Inr cm' \<and> cm_wf d cm'
          \<and> net_IP n4 \<notin> lease4 d cm \<and> net_IP n6 \<notin> lease6 d cm
          \<and> insert (net_IP n4) (lease4 d cm) \<subseteq> lease4 d cm' \<and> insert (net_IP n6) (lease6 d cm) \<subseteq> lease6 d cm'
          \<and> lease4 d cm' \<subseteq> insert (net_IP n4) (lease4 d cm) \<union> {a. isAlreadyExisted addrs a}
          \<and> lease6 d cm' \<subseteq> insert (net_IP n6) (lease6 d cm) \<union> {a. isAlreadyExisted addrs a}
          \<and> \<not> isAlreadyExisted addrs (net_IP n4) \<and> \<not> isAlreadyExisted addrs (net_IP n6)
          \<and> net_Mask n4 = [255, 255, 0, 0] \<and> net_Mask n6 = CIDRMask 64 128)
    | (Inl (RangeFailed e), w') \<Rightarrow> e = ErrFull \<and> w' = w
        \<and> ((\<forall>k<65534. addIPOffset base4 k \<in> lease4 d cm \<or> isAlreadyExisted addrs (addIPOffset base4 k))
          \<or> (\<forall>k<65534. addIPOffset base6 k \<in> lease6 d cm \<or> isAlreadyExisted addrs (addIPOffset base6 k)))
    | (Inl (UpdateFailed e), w') \<Rightarrow> w' = w
    | _ \<Rightarrow> False"
proof -
  have eq: "RentIPRandom cl id d (Inr addrs) w = finish_update cl d (rent_action d addrs) cm w"
    using assms(3) by (simp add: RentIPRandom_def updateDHCPConfigMap_def)
  consider (good) n4 n6 w' where "finish_update cl d (rent_action d addrs) cm w = (Inr (n4, n6), w')"
    | (full) e where "dhcp_transform d (rent_action d addrs) cm = Inl e"
    | (refused) e w' where "finish_update cl d (rent_action d addrs) cm w = (Inl (UpdateFailed e), w')"
    using finish_update_cases [of d "rent_action d addrs" cm cl w] by fast
  then show ?thesis
  proof cases
    case good
    show ?thesis
      unfolding eq good prod.case sum.case
      using rent_success [of cl w cm ns, folded d_def, OF assms(2-4) good] by simp
  next
    case full
    have w: "finish_update cl d (rent_action d addrs) cm w = (Inl e, w)" using full by (simp add: finish_update_def)
    note o4 = cm_wf_over(1) [OF assms(4)] and o6 = cm_wf_over(2) [OF assms(4)]
    have a4: "range_addr (pool4 d cm) k = addIPOffset base4 k" and a6: "range_addr (pool6 d cm) k = addIPOffset base6 k" for k
      using manager_over [OF o4 [unfolded d_def]] manager_over6 [OF o6 [unfolded d_def]]
      by (simp_all add: range_addr_def d_def)
    have m4: "rg_max (pool4 d cm) = 65534" and m6: "rg_max (pool6 d cm) = 65534"
      using manager_over [OF o4 [unfolded d_def]] manager_over6 [OF o6 [unfolded d_def]] by (simp_all add: d_def)
    from full obtain r where r: "e = RangeFailed r"
      and "(\<exists>q. rent_loop (isAlreadyExisted addrs) (pool4 d cm) = (Inl r, q))
         \<or> (\<exists>q. rent_loop (isAlreadyExisted addrs) (pool6 d cm) = (Inl r, q))"
      by (auto simp: dhcp_transform_pools rent_action_def split: prod.splits sum.splits)
    then have "r = ErrFull \<and>
      ((\<forall>k<65534. addIPOffset base4 k \<in> lease4 d cm \<or> isAlreadyExisted addrs (addIPOffset base4 k))
        \<or> (\<forall>k<65534. addIPOffset base6 k \<in> lease6 d cm \<or> isAlreadyExisted addrs (addIPOffset base6 k)))"
      using rent_loop_Inl [OF o4] rent_loop_Inl [OF o6] unfolding lease4_def lease6_def a4 a6 m4 m6 by fastforce
    then show ?thesis by (simp add: eq w r)
  next
    case refused
    then have "w' = w" using finish_fail_world(1) [OF assms(2)] by blast
    with refused show ?thesis by (simp add: eq)
  qed
qed

lemma example_RentIPRandom:
  "RentIPRandom store_client id (NewDHCPManager ''default'') (Inr example_nics) example_world = example_rent"
  using example_get by (simp add: RentIPRandom_def updateDHCPConfigMap_def example_rent_def)

theorem RentIPRandom_spec_witness:
  "\<exists>n4 n6 w' cm'. RentIPRandom store_client id (NewDHCPManager ''default'') (Inr example_nics) example_world
      = (Inr (n4, n6), w')
    \<and> cm_Get store_client w' ConfigMapPodTrafficManager = Inr cm'
    \<and> net_IP n4 = addIPOffset base4 0 \<and> net_IP n4 \<in> lease4 (NewDHCPManager ''default'') cm'"
proof -
  obtain n4 n6 w' where r: "example_rent = (Inr (n4, n6), w')" and n: "net_IP n4 = addIPOffset base4 0"
    using example_rent_step by blast
  from RentIPRandom_spec [OF lawful_store example_get example_wf(1) [of "''default''"], of example_nics]
  show ?thesis unfolding example_RentIPRandom r using n by auto
qed

text \<open>The effect of a release that succeeds.\<close>

lemma release_success:
  fixes ns defines "d \<equiv> NewDHCPManager ns"
  assumes "lawful_client cl" and "cm_Get cl w ConfigMapPodTrafficManager = Inr cm" and "cm_wf d cm"
    and "a \<in> lease4 d cm" and "b \<in> lease6 d cm" and "ReleaseIP cl id d [a, b] w = (Inr (), w')"
  shows "\<exists>cm'. cm_Get cl w' ConfigMapPodTrafficManager = Inr cm' \<and> cm_wf d cm'
    \<and> lease4 d cm' = lease4 d cm - (if net_Contains CIDR a then {a} else {})
    \<and> lease6 d cm' = lease6 d cm - (if net_Contains (dm_cidr6 d) b then {b} else {})"
proof -
  have f: "finish_update cl d (release_action [a, b]) cm w = (Inr (), w')"
    using assms(3,7) by (simp add: ReleaseIP_def updateDHCPConfigMap_def)
  obtain c' new where t: "dhcp_transform d (release_action [a, b]) cm = Inr ((), c')"
    and new: "cm_Get cl w' ConfigMapPodTrafficManager = Inr new"
    and p: "pool4 d new = pool4 d c'" "pool6 d new = pool6 d c'"
    by (rule finish_update_world [OF assms(2,3) f])
  have "net_Contains (dm_cidr d) a \<longleftrightarrow> net_Contains CIDR a"
    unfolding net_Contains_CIDR d_def
    by (rule net_Contains_v4_16 [of _ _ _ 0 100])
      (simp_all add: NewDHCPManager_def RouterIP_def CIDR_def IPv4_def To4_def v4InV6Prefix_def)
  with release_transform [of ns cm a b c', folded d_def, OF assms(4-6) t] new show ?thesis
    by (simp add: lease4_def lease6_def cm_wf_def p)
qed

text \<open>C24: releasing a held pair of addresses frees exactly these two, and only if they lie inside the
  network of their pool; all other leases stay.\<close>

theorem ReleaseIP_spec:
  fixes ns defines "d \<equiv> NewDHCPManager ns"
  assumes "lawful_client cl" and "cm_Get cl w ConfigMapPodTrafficManager = Inr cm" and "cm_wf d cm"
    and "a \<in> lease4 d cm" and "b \<in> lease6 d cm" and "ReleaseIP cl id d [a, b] w = (Inr (), w')"
  shows "\<exists>cm'. cm_Get cl w' ConfigMapPodTrafficManager = Inr cm' \<and> cm_wf d cm'
    \<and> lease4 d cm' = lease4 d cm - (if net_Contains CIDR a then {a} else {})
    \<and> lease6 d cm' = lease6 d cm - (if net_Contains (dm_cidr6 d) b then {b} else {})"
  unfolding d_def by (rule release_success [OF assms(2-7) [unfolded d_def]])

lemma example_world_ok: "st_ok example_world"
  using st_ok_put [OF st_ok_empty, of "example_cm\<lparr>cm_version := 0\<rparr>"]
  by (simp add: example_world_def initDHCP_def empty_store_def st_get_def st_create_def st_put_def Let_def
      NewDHCPManager_def example_cm_def)

text \<open>In a store a transaction that computes a result also writes it.\<close>

lemma finish_update_store:
  assumes "st_ok w" and "st_get w ConfigMapPodTrafficManager = Inr cm" and "dhcp_transform d f cm = Inr (r, c')"
  shows "\<exists>w'. finish_update store_client d f cm w = (Inr r, w') \<and> st_ok w'"
proof -
  have "cm_name c' = ConfigMapPodTrafficManager" "cm_version c' = cm_version cm"
    using st_get_name [OF assms(2)] by (rule_tac [!] dhcp_transform_Inr [OF assms(3)]) auto
  from st_update_succeeds [OF assms(1,2) this] assms(3) show ?thesis
    by (auto simp: finish_update_def)
qed

lemma example_rent_ok: "example_rent = (r, w') \<Longrightarrow> st_ok w'"
proof -
  assume e: "example_rent = (r, w')"
  from example_rent_step obtain n4 n6 where "r = Inr (n4, n6)" by (auto simp: e)
  with e obtain c' where "dhcp_transform (NewDHCPManager ''default'')
      (rent_action (NewDHCPManager ''default'') example_nics) example_cm = Inr ((n4, n6), c')"
    by (auto simp: example_rent_def finish_update_def split: sum.splits prod.splits)
  from finish_update_store [OF example_world_ok _ this] e example_get show ?thesis
    by (auto simp: example_rent_def)
qed

theorem ReleaseIP_spec_witness:
  "\<exists>w a b w' cm'. ReleaseIP store_client id (NewDHCPManager ''default'') [a, b] w = (Inr (), w')
    \<and> cm_Get store_client w' ConfigMapPodTrafficManager = Inr cm'
    \<and> net_Contains CIDR a \<and> a \<notin> lease4 (NewDHCPManager ''default'') cm'"
proof -
  let ?d = "NewDHCPManager ''default''"
  obtain n4 n6 w where r: "example_rent = (Inr (n4, n6), w)" and n: "net_IP n4 = addIPOffset base4 0"
    using example_rent_step by blast
  from RentIPRandom_spec [OF lawful_store example_get example_wf(1) [of "''default''"], of example_nics]
  obtain cm where cm: "cm_Get store_client w ConfigMapPodTrafficManager = Inr cm" "cm_wf ?d cm"
    "net_IP n4 \<in> lease4 ?d cm" "net_IP n6 \<in> lease6 ?d cm"
    unfolding example_RentIPRandom r by auto
  have "\<exists>c'. dhcp_transform ?d (release_action [net_IP n4, net_IP n6]) cm = Inr ((), c')"
    by (simp add: dhcp_transform_pools)
  then obtain w' where u: "ReleaseIP store_client id ?d [net_IP n4, net_IP n6] w = (Inr (), w')"
    using finish_update_store [OF example_rent_ok [OF r]] cm(1)
    by (fastforce simp: ReleaseIP_def updateDHCPConfigMap_def)
  have "net_Contains CIDR (net_IP n4)"
    unfolding net_Contains_CIDR n by (simp add: addr4 numeral_2_eq_2)
  with ReleaseIP_spec [OF lawful_store cm u] u show ?thesis by auto
qed

text \<open>C29: the IPv4 pool reaches beyond its network.  Slot \<open>k\<close> of the range is inside 223.254.0.0/16 exactly
  for the first 65435 slots, the last of which is the broadcast address; the remaining 99 slots are
  addresses of the network kubevpn gives to Docker, and releasing one of them has no effect.\<close>

theorem dhcp_pool_outside_cidr:
  assumes "range_over (dm_cidr (NewDHCPManager ns)) r" and "k < 65534"
  shows "(net_Contains CIDR (range_addr r k) \<longleftrightarrow> k < 65435)
    \<and> (65435 \<le> k \<longrightarrow> net_Contains DockerCIDR (range_addr r k) \<and> range_Release (range_addr r k) r = r)"
proof -
  have docker: "net_Contains DockerCIDR p \<longleftrightarrow> (\<exists>x y. To4 p = [223, 255, x, y])" for p
    by (rule net_Contains_v4_16 [of _ _ _ 0 0]) (simp_all add: DockerCIDR_def To4_def)
  have own: "net_Contains (rg_net r) p \<longleftrightarrow> (\<exists>x y. To4 p = [223, 254, x, y])" for p
    using assms(1)
    by (intro net_Contains_v4_16 [of _ _ _ 0 100])
      (simp_all add: range_over_def NewDHCPManager_def RouterIP_def CIDR_def IPv4_def To4_def v4InV6Prefix_def)
  have two: "\<exists>x y. be_fixed 2 n = [x, y]" for n
    by (simp add: numeral_2_eq_2)
  have a: "range_addr r k = addIPOffset base4 k" and m: "k < nat (rg_max r)"
    using manager_over [OF assms(1)] assms(2) by (simp_all add: range_addr_def)
  show ?thesis
    using two [of "101 + k"] range_Release_addr [OF range_over_ok [OF assms(1)] m]
    by (auto simp: net_Contains_CIDR docker own a addr4 [OF assms(2)])
qed

theorem dhcp_pool_outside_cidr_witness:
  "net_Contains DockerCIDR (range_addr (NewAllocatorCIDRRange (dm_cidr (NewDHCPManager ''ns''))) 65500)"
proof -
  have "range_over (dm_cidr (NewDHCPManager ''ns'')) (NewAllocatorCIDRRange (dm_cidr (NewDHCPManager ''ns'')))"
    using cm_wf_over(1) [OF example_wf(1)] empty_pools [of example_cm] example_data by simp
  from dhcp_pool_outside_cidr [OF this, of 65500] show ?thesis by simp
qed

text \<open>Text under the DHCP key that is not base64 makes the component forget every lease: the next
  rental starts again with the first address of the pool, whoever holds it.\<close>

theorem dhcp_corrupt_pool_reissues:
  assumes "cm_Get cl w ConfigMapPodTrafficManager = Inr cm"
    and "b64_decode (data_at (cm_data cm) KeyDHCP) = None" and "\<not> isAlreadyExisted addrs (addIPOffset base4 0)"
    and "RentIPRandom cl id (NewDHCPManager ns) (Inr addrs) w = (Inr (n4, n6), w')"
  shows "net_IP n4 = addIPOffset base4 0"
proof -
  let ?d = "NewDHCPManager ns"
  from assms(1,4) obtain c' where "dhcp_transform ?d (rent_action ?d addrs) cm = Inr ((n4, n6), c')"
    by (auto simp: RentIPRandom_def updateDHCPConfigMap_def finish_update_def split: sum.splits prod.splits)
  then obtain q4 q6 where "rent_action ?d addrs (pool4 ?d cm) (pool6 ?d cm) = (Inr (n4, n6), q4, q6)"
    by (rule dhcp_transform_Inr) blast
  from rent_action_Inr(1) [OF this] have "rent_loop (isAlreadyExisted addrs) (pool4 ?d cm) = (Inr (net_IP n4), q4)" .
  moreover have "pool4 ?d cm = NewAllocatorCIDRRange (dm_cidr ?d)"
    using empty_pools [of cm] assms(2) by simp
  ultimately show ?thesis
    using rent_loop_first [of "dm_cidr ?d" "isAlreadyExisted addrs"] assms(3) by (simp add: manager_ranges)
qed

text \<open>A store whose DHCP text is damaged, with nothing rented yet under the IPv6 key.\<close>

definition damaged_cm :: configmap where
  "damaged_cm = \<lparr>cm_name = ConfigMapPodTrafficManager, cm_namespace = ''default'', cm_version = 1,
     cm_data = Some [KeyDHCP \<mapsto> ''#'']\<rparr>"

definition damaged_world :: store where
  "damaged_world = \<lparr>st_rev = 2, st_cms = [ConfigMapPodTrafficManager \<mapsto> damaged_cm]\<rparr>"

lemma damaged_get: "st_get damaged_world ConfigMapPodTrafficManager = Inr damaged_cm"
  by (simp add: st_get_def damaged_world_def) (simp add: damaged_cm_def)

lemma damaged_ok: "st_ok damaged_world"
  by (auto simp: st_ok_def st_get_def damaged_world_def damaged_cm_def split: if_splits)

lemma damaged_data: "b64_decode (data_at (cm_data damaged_cm) KeyDHCP) = None"
  "b64_decode (data_at (cm_data damaged_cm) KeyDHCP6) = Some []"
  by code_simp+

theorem dhcp_corrupt_pool_reissues_witness:
  "\<exists>n4 n6 w'. RentIPRandom store_client id (NewDHCPManager ''default'') (Inr []) damaged_world = (Inr (n4, n6), w')
    \<and> net_IP n4 = addIPOffset base4 0"
proof -
  let ?d = "NewDHCPManager ''default''"
  have "fst (rent_loop (isAlreadyExisted []) (pool4 ?d damaged_cm)) = Inr (addIPOffset base4 0)"
    "fst (rent_loop (isAlreadyExisted []) (pool6 ?d damaged_cm)) = Inr (addIPOffset base6 0)"
    using rent_loop_first [of "dm_cidr ?d" "isAlreadyExisted []"] rent_loop_first [of "dm_cidr6 ?d" "isAlreadyExisted []"]
      empty_pools [of damaged_cm] empty_pools6 [of damaged_cm]
    by (simp_all add: damaged_data manager_ranges isAlreadyExisted_def)
  then obtain n4 n6 c' where "dhcp_transform ?d (rent_action ?d []) damaged_cm = Inr ((n4, n6), c')"
    using rent_transform_succeeds by blast
  from finish_update_store [OF damaged_ok damaged_get this] obtain w' where
    r: "RentIPRandom store_client id ?d (Inr []) damaged_world = (Inr (n4, n6), w')"
    by (auto simp: RentIPRandom_def updateDHCPConfigMap_def damaged_get)
  from dhcp_corrupt_pool_reissues [OF _ damaged_data(1) _ r] r show ?thesis
    by (simp add: damaged_get isAlreadyExisted_def)
qed

end
