(* ===== verification/Dhcp_Clients.thy ===== *)
theory Dhcp_Clients
  imports Dhcp_System Ip_Text
begin

text \<open>
  The clients of the DHCP component: the HTTP handlers of the webhook (\<^verbatim>\<open>src/pkg/webhook/dhcp.go\<close>),
  the rental of the tunnel addresses when a workstation connects (\<^verbatim>\<open>RentInnerIP\<close> of
  \<^verbatim>\<open>src/pkg/handler/connect.go\<close>) and the address of a Docker container derived from the interfaces
  of the host (\<^verbatim>\<open>GetIPBaseNic\<close> of \<^verbatim>\<open>src/pkg/util/net.go\<close>).
\<close>

section \<open>The HTTP handlers\<close>

definition StatusOK :: nat where "StatusOK = 200"
definition StatusBadRequest :: nat where "StatusBadRequest = 400"

text \<open>The status and the body of the response.\<close>

definition rentIP ::
  "'w cm_client \<Rightarrow> ('w \<Rightarrow> 'w) \<Rightarrow> string \<Rightarrow> string + ip list \<Rightarrow> 'w \<Rightarrow> (nat \<times> string) \<times> 'w" where
  "rentIP cl mid namespace nics w =
     (case RentIPRandom cl mid (NewDHCPManager namespace) nics w of
        (Inl _, w') \<Rightarrow> ((StatusBadRequest, []), w')
      | (Inr (v4, v6), w') \<Rightarrow> ((StatusOK, ipnet_String v4 @ '','' @ ipnet_String v6), w'))"

text \<open>A header that is not a CIDR is skipped.\<close>

fun header_ips :: "string list \<Rightarrow> ip list" where
  "header_ips [] = []"
| "header_ips (s # ss) =
     (case ParseCIDR s of None \<Rightarrow> header_ips ss | Some (a, _) \<Rightarrow> a # header_ips ss)"

definition releaseIP ::
  "'w cm_client \<Rightarrow> ('w \<Rightarrow> 'w) \<Rightarrow> string \<Rightarrow> string \<Rightarrow> string \<Rightarrow> 'w \<Rightarrow> nat \<times> 'w" where
  "releaseIP cl mid namespace headerIPv4 headerIPv6 w =
     (case ReleaseIP cl mid (NewDHCPManager namespace) (header_ips [headerIPv4, headerIPv6]) w of
        (Inl _, w') \<Rightarrow> (StatusBadRequest, w')
      | (Inr _, w') \<Rightarrow> (StatusOK, w'))"

section \<open>Connecting a workstation\<close>

record connect_ips =
  co_namespace :: string
  co_dhcp :: "DHCPManager option"
  co_localTunIPv4 :: "ipnet option"
  co_localTunIPv6 :: "ipnet option"

definition InitDHCP :: "'w cm_client \<Rightarrow> connect_ips \<Rightarrow> 'w \<Rightarrow> dhcp_err option \<times> connect_ips \<times> 'w" where
  "InitDHCP cl c w =
     (let d = NewDHCPManager (co_namespace c) in
      case initDHCP cl d w of (err, w') \<Rightarrow> (err, c\<lparr>co_dhcp := Some d\<rparr>, w'))"

text \<open>The first value of a header, when it is a CIDR, replaces the address.\<close>

fun header_net :: "string list \<Rightarrow> ipnet option \<Rightarrow> ipnet option" where
  "header_net [] cur = cur"
| "header_net (s # _) cur =
     (case ParseCIDR s of
        None \<Rightarrow> cur
      | Some (a, n) \<Rightarrow> Some \<lparr>net_IP = a, net_Mask = net_Mask n\<rparr>)"

definition use_headers :: "(string list \<times> string list) option \<Rightarrow> connect_ips \<Rightarrow> connect_ips" where
  "use_headers md c =
     (case md of
        None \<Rightarrow> c
      | Some (ipv4s, ipv6s) \<Rightarrow>
          c\<lparr>co_localTunIPv4 := header_net ipv4s (co_localTunIPv4 c),
            co_localTunIPv6 := header_net ipv6s (co_localTunIPv6 c)\<rparr>)"

text \<open>
  \<open>md\<close> is the incoming metadata: the values of the IPv4 and of the IPv6 header.  The result is the
  error or the pairs appended to the outgoing metadata.
\<close>

definition RentInnerIP ::
  "'w cm_client \<Rightarrow> ('w \<Rightarrow> 'w) \<Rightarrow> string + ip list \<Rightarrow> (string list \<times> string list) option \<Rightarrow> connect_ips \<Rightarrow> 'w
   \<Rightarrow> (dhcp_err + (string \<times> string) list) \<times> connect_ips \<times> 'w" where
  "RentInnerIP cl mid nics md c0 w0 =
     (let c = use_headers md c0;
          (err, c1, w1) = (if co_dhcp c = None then InitDHCP cl c w0 else (None, c, w0))
      in case err of
           Some e \<Rightarrow> (Inl e, c1, w1)
         | None \<Rightarrow>
             if co_localTunIPv4 c1 = None \<or> co_localTunIPv6 c1 = None
             then (case RentIPBaseNICAddress cl mid (the (co_dhcp c1)) nics w1 of
                     (Inl e, w2) \<Rightarrow> (Inl e, c1\<lparr>co_localTunIPv4 := None, co_localTunIPv6 := None\<rparr>, w2)
                   | (Inr (v4, v6), w2) \<Rightarrow>
                       (Inr [(''IPv4'', ipnet_String v4), (''IPv6'', ipnet_String v6)],
                        c1\<lparr>co_localTunIPv4 := Some v4, co_localTunIPv6 := Some v6\<rparr>, w2))
             else (Inr [], c1, w1))"

section \<open>The address of a Docker container\<close>

definition nic_sum :: "string list \<Rightarrow> nat" where
  "nic_sum addrs =
     sum_list (map (\<lambda>s. case ParseCIDR s of None \<Rightarrow> 0 | Some (a, _) \<Rightarrow> sum_list (map unat a)) addrs)"

text \<open>\<^verbatim>\<open>for i := 0; i < n; i++ { next, err = dhcp.AllocateNext() }\<close>\<close>

fun next_n :: "nat \<Rightarrow> ip \<times> range_err option \<Rightarrow> ip_range \<Rightarrow> ip \<times> range_err option" where
  "next_n 0 cur r = cur"
| "next_n (Suc n) cur r =
     (case range_AllocateNext r of
        (Inl e, r') \<Rightarrow> next_n n ([], Some e) r'
      | (Inr a, r') \<Rightarrow> next_n n (a, None) r')"

definition GetIPBaseNic :: "string list \<Rightarrow> range_err + ipnet" where
  "GetIPBaseNic addrs =
     (case next_n (nic_sum addrs mod 255) ([], None) (NewAllocatorCIDRRange DockerCIDR) of
        (_, Some e) \<Rightarrow> Inl e
      | (next, None) \<Rightarrow>
          (let bits = snd (mask_Size (net_Mask DockerCIDR)) in
           Inr \<lparr>net_IP = next, net_Mask = CIDRMask bits bits\<rparr>))"

section \<open>Lemmas\<close>

lemma show_ip4_no_slash: "CHR ''/'' \<notin> set (show_ip4 [a, b, c, d])"
proof -
  have "digit_val CHR ''/'' = None" by code_simp
  from show_nat_no_char [OF this] show ?thesis by (simp add: show_ip4_def)
qed

lemma show_ip4_no_comma: "CHR '','' \<notin> set (show_ip4 [a, b, c, d])"
proof -
  have "digit_val CHR '','' = None" by code_simp
  from show_nat_no_char [OF this] show ?thesis by (simp add: show_ip4_def)
qed

lemma To4_v4_mapped: "length p = 16 \<Longrightarrow> To4 p = [a, b, c, d] \<Longrightarrow> v4InV6Prefix @ [a, b, c, d] = p"
  by (auto simp: To4_def split: if_splits) (metis append_take_drop_id)

lemma ipnet_String_16:
  assumes "To4 p = [a, b, c, d]"
  shows "ipnet_String \<lparr>net_IP = p, net_Mask = [255, 255, 0, 0]\<rparr> = show_ip4 [a, b, c, d] @ ''/16''"
proof -
  have "simpleMaskLength [255, 255, 0, 0] = Some 16" "show_nat 16 = ''16''" by code_simp+
  with assms show ?thesis
    by (simp add: ipnet_String_def networkNumberAndMask_def ip_String_def) (simp add: To4_def)
qed

text \<open>\<open>ParseCIDR\<close> reads back the text of an IPv4 address with a /16 mask.\<close>

lemma ParseCIDR_String_16:
  assumes "length p = 16" and "To4 p = [a, b, c, d]"
  shows "\<exists>n. ParseCIDR (ipnet_String \<lparr>net_IP = p, net_Mask = [255, 255, 0, 0]\<rparr>) = Some (p, n)
    \<and> net_Mask n = [255, 255, 0, 0]"
proof -
  let ?s = "show_ip4 [a, b, c, d]"
  have tw: "takeWhile (\<lambda>c. c \<noteq> CHR ''/'') (?s @ ''/16'') = ?s"
    "dropWhile (\<lambda>c. c \<noteq> CHR ''/'') (?s @ ''/16'') = ''/16''"
    using show_ip4_no_slash [of a b c d] by (simp_all add: takeWhile_append dropWhile_append)
  have d: "dtoi ''16'' = Some (16, 2)" "CIDRMask 16 32 = [255, 255, 0, 0]" by code_simp+
  show ?thesis
    by (simp add: ipnet_String_16 [OF assms(2)] ParseCIDR_def tw Let_def parseIPv4_def parse4_show_ip4 d
        To4_v4_mapped [OF assms])
qed

lemma lease4_pool_addr:
  assumes "cm_wf (NewDHCPManager ns) cm" and "a \<in> lease4 (NewDHCPManager ns) cm"
  shows "\<exists>w x y z. length a = 16 \<and> To4 a = [w, x, y, z]"
proof -
  from lease4_is_v4 [OF assms] To4_16_cases [of a] obtain w x y z where "To4 a = [w, x, y, z]" by blast
  moreover have "length a = 16" using assms(2) by (auto simp: lease4_def range_addr_def)
  ultimately show ?thesis by blast
qed

text \<open>The texts of a leased pair are read back.\<close>

lemma lease6_length: "a \<in> lease6 d cm \<Longrightarrow> length a = 16"
  by (auto simp: lease6_def range_addr_def)

lemma ipnet_String_64:
  assumes "length p = 16" and "To4 p = []"
  shows "ipnet_String \<lparr>net_IP = p, net_Mask = CIDRMask 64 128\<rparr> = show_ip6 p @ ''/64''"
proof -
  have m: "simpleMaskLength (CIDRMask 64 128) = Some 64" "length (CIDRMask 64 128) = 16" "show_nat 64 = ''64''" by code_simp+
  have "p \<noteq> []" using assms(1) by auto
  with assms m show ?thesis by (simp add: ipnet_String_def networkNumberAndMask_def ip_String_def)
qed

lemma ParseCIDR_String_64:
  assumes "length p = 16" and "To4 p = []"
  shows "\<exists>n. ParseCIDR (ipnet_String \<lparr>net_IP = p, net_Mask = CIDRMask 64 128\<rparr>) = Some (p, n)"
proof -
  have "show_nat 64 = ''64''" by code_simp
  with ParseCIDR_show_ip6 [OF assms(1), of 64] show ?thesis by (simp add: ipnet_String_64 [OF assms])
qed

lemma lease_pair_text:
  assumes "cm_wf (NewDHCPManager ns) cm" and "net_IP n4 \<in> lease4 (NewDHCPManager ns) cm" and "net_IP n6 \<in> lease6 (NewDHCPManager ns) cm"
    and "net_Mask n4 = [255, 255, 0, 0]" and "net_Mask n6 = CIDRMask 64 128"
  shows "\<exists>m. ParseCIDR (ipnet_String n4) = Some (net_IP n4, m)" and "\<exists>m. ParseCIDR (ipnet_String n6) = Some (net_IP n6, m)"
    and "CHR '','' \<notin> set (ipnet_String n4)" and "CHR '','' \<notin> set (ipnet_String n6)"
proof -
  have n: "n4 = \<lparr>net_IP = net_IP n4, net_Mask = [255, 255, 0, 0]\<rparr>" "n6 = \<lparr>net_IP = net_IP n6, net_Mask = CIDRMask 64 128\<rparr>"
    using assms(4,5) by (simp_all add: ipnet.equality)
  from lease4_pool_addr [OF assms(1,2)] obtain a b c d where a: "length (net_IP n4) = 16" "To4 (net_IP n4) = [a, b, c, d]" by blast
  note b = lease6_length [OF assms(3)] lease6_is_v6 [OF assms(1,3)]
  from ParseCIDR_String_16 [OF a] n(1) show "\<exists>m. ParseCIDR (ipnet_String n4) = Some (net_IP n4, m)" by metis
  from ParseCIDR_String_64 [OF b] n(2) show "\<exists>m. ParseCIDR (ipnet_String n6) = Some (net_IP n6, m)" by metis
  have "ipnet_String n4 = show_ip4 [a, b, c, d] @ ''/16''" by (subst n(1)) (rule ipnet_String_16 [OF a(2)])
  then show "CHR '','' \<notin> set (ipnet_String n4)" using show_ip4_no_comma by simp
  have "ipnet_String n6 = show_ip6 (net_IP n6) @ ''/64''" by (subst n(2)) (rule ipnet_String_64 [OF b])
  then show "CHR '','' \<notin> set (ipnet_String n6)" using show_ip6_chars [of "CHR '',''"] hex_val_seps(4) by auto
qed

text \<open>The state of a range after its first \<open>k\<close> allocations.\<close>

definition filled :: "ip_range \<Rightarrow> nat \<Rightarrow> ip_range" where
  "filled r k = r\<lparr>rg_alloc := (rg_alloc r)\<lparr>bm_count := int k, bm_allocated := mask k\<rparr>\<rparr>"

lemma first_zero_mask:
  assumes "k < n"
  shows "first_zero (mask k) 0 n = Some k"
proof (cases "first_zero (mask k) 0 n")
  case None
  from first_zero_None [OF None, of k] assms show ?thesis by (simp add: bit_mask_iff)
next
  case (Some j)
  from first_zero_Some [OF Some] have "\<not> j < k" "\<not> k < j" by (auto simp: bit_mask_iff)
  with Some show ?thesis by simp
qed

lemma set_bit_mask: "set_bit k (mask k) = (mask (Suc k) :: nat)"
  by (rule bit_eqI) (auto simp: bit_set_bit_iff bit_mask_iff)

lemma AllocateNext_filled:
  assumes "int k < bm_max (rg_alloc r)"
  shows "range_AllocateNext (filled r k) = (Inr (addIPOffset (rg_base r) k), filled r (Suc k))"
  using assms
  by (simp add: range_AllocateNext_def bm_AllocateNext_def AllocateBit_def filled_def first_zero_mask set_bit_mask)

lemma next_n_filled:
  "int (k + n) \<le> bm_max (rg_alloc r) \<Longrightarrow>
   next_n n cur (filled r k) = (if n = 0 then cur else (addIPOffset (rg_base r) (k + n - 1), None))"
proof (induction n arbitrary: k cur)
  case (Suc n)
  then show ?case using Suc.IH [of "Suc k"] by (simp add: AllocateNext_filled)
qed simp

lemma filled_new: "filled (NewAllocatorCIDRRange n) 0 = NewAllocatorCIDRRange n"
  by (simp add: filled_def NewAllocatorCIDRRange_def NewContiguousAllocationMap_def Let_def)

lemma docker_addr:
  assumes "0 < s" and "s < 255"
  shows "addIPOffset (bigForIP (net_IP DockerCIDR) + 1) (s - 1) = IPv4 223 255 0 (of_nat s)"
proof (rule be_nat_inj)
  have b: "bigForIP (net_IP DockerCIDR) = 281474439774208" "be_nat (v4InV6Prefix @ [223, 255, 0]) = 1099509530368"
    by code_simp+
  have "be_nat (IPv4 223 255 0 (of_nat s)) = be_nat (v4InV6Prefix @ [223, 255, 0]) * 256 + unat (of_nat s :: byte)"
    using be_nat_snoc [of "v4InV6Prefix @ [223, 255, 0]"] by (simp add: IPv4_def)
  with assms show "be_nat (addIPOffset (bigForIP (net_IP DockerCIDR) + 1) (s - 1)) = be_nat (IPv4 223 255 0 (of_nat s))"
    by (simp add: be_nat_addIPOffset b)
qed (simp add: IPv4_def v4InV6Prefix_def)

section \<open>Properties of the clients\<close>

text \<open>C28: the text with which \<^verbatim>\<open>rentIP\<close> answers names the lease it made.  It is two CIDRs with a comma between them, and sent
  back in the two headers of \<^verbatim>\<open>releaseIP\<close> they are read as exactly the two addresses, IPv6 with its run of zeros left
  out included, which were free before and are marked as taken afterwards.\<close>

theorem rentIP_text:
  assumes "lawful_client cl" and "cm_Get cl w ConfigMapPodTrafficManager = Inr cm"
    and "cm_wf (NewDHCPManager ns) cm" and "rentIP cl id ns (Inr addrs) w = ((StatusOK, body), w')"
  shows "\<exists>x y a b cm'. split_on CHR '','' body = [x, y] \<and> header_ips [x, y] = [a, b]
    \<and> releaseIP cl mid ns x y w2 = (case ReleaseIP cl mid (NewDHCPManager ns) [a, b] w2 of
        (Inl _, w3) \<Rightarrow> (StatusBadRequest, w3) | (Inr _, w3) \<Rightarrow> (StatusOK, w3))
    \<and> cm_Get cl w' ConfigMapPodTrafficManager = Inr cm'
    \<and> a \<in> lease4 (NewDHCPManager ns) cm' - lease4 (NewDHCPManager ns) cm
    \<and> b \<in> lease6 (NewDHCPManager ns) cm' - lease6 (NewDHCPManager ns) cm"
proof -
  let ?d = "NewDHCPManager ns"
  from assms(2,4) obtain n4 n6 where r: "finish_update cl ?d (rent_action ?d addrs) cm w = (Inr (n4, n6), w')"
    and body: "body = ipnet_String n4 @ '','' @ ipnet_String n6"
    by (auto simp: rentIP_def RentIPRandom_def updateDHCPConfigMap_def StatusOK_def StatusBadRequest_def
        split: prod.splits sum.splits)
  from rent_success [OF assms(1-3) r] obtain cm' where cm': "cm_Get cl w' ConfigMapPodTrafficManager = Inr cm'"
    "cm_wf ?d cm'" "net_IP n4 \<in> lease4 ?d cm' - lease4 ?d cm" "net_IP n6 \<in> lease6 ?d cm' - lease6 ?d cm"
    "net_Mask n4 = [255, 255, 0, 0]" "net_Mask n6 = CIDRMask 64 128" by auto
  note words = lease_pair_text [OF cm'(2) DiffD1 [OF cm'(3)] DiffD1 [OF cm'(4)] cm'(5,6)]
  have s: "split_on CHR '','' body = [ipnet_String n4, ipnet_String n6]"
    using split_on_append_sep [OF words(3), of "ipnet_String n6"] split_on_no_sep [OF words(4)] by (simp add: body)
  have h: "header_ips [ipnet_String n4, ipnet_String n6] = [net_IP n4, net_IP n6]" using words(1,2) by auto
  show ?thesis
    by (rule exI [of _ "ipnet_String n4"], rule exI [of _ "ipnet_String n6"], rule exI [of _ "net_IP n4"], rule exI [of _ "net_IP n6"], rule exI [of _ cm'])
      (simp add: s h releaseIP_def cm'(1) cm'(3) [simplified] cm'(4) [simplified] del: header_ips.simps)
qed

theorem rentIP_text_witness:
  "\<exists>body w' x y a b. rentIP store_client id ''default'' (Inr example_nics) example_world = ((StatusOK, body), w')
    \<and> split_on CHR '','' body = [x, y] \<and> header_ips [x, y] = [a, b]"
proof -
  obtain n4 n6 w' where e: "example_rent = (Inr (n4, n6), w')" using example_rent_step by blast
  have r: "rentIP store_client id ''default'' (Inr example_nics) example_world =
      ((StatusOK, ipnet_String n4 @ '','' @ ipnet_String n6), w')"
    by (simp add: rentIP_def example_RentIPRandom e)
  from rentIP_text [OF lawful_store example_get example_wf(1) r] r show ?thesis by blast
qed

text \<open>\<^verbatim>\<open>RentInnerIP\<close> succeeds only with both tunnel addresses set.  Addresses that the caller sent
  along, or that were set before, are used without touching the cluster once the manager exists; as soon
  as one of the two is missing, both are rented and announced in the outgoing metadata.\<close>

theorem RentInnerIP_sets_both:
  assumes "RentInnerIP cl mid nics md c w = (Inr hs, c', w')"
  shows "co_localTunIPv4 c' \<noteq> None \<and> co_localTunIPv6 c' \<noteq> None \<and> co_dhcp c' \<noteq> None
    \<and> (if co_localTunIPv4 (use_headers md c) \<noteq> None \<and> co_localTunIPv6 (use_headers md c) \<noteq> None
       then hs = [] \<and> co_localTunIPv4 c' = co_localTunIPv4 (use_headers md c)
         \<and> co_localTunIPv6 c' = co_localTunIPv6 (use_headers md c) \<and> (co_dhcp c \<noteq> None \<longrightarrow> w' = w)
       else hs = [(''IPv4'', ipnet_String (the (co_localTunIPv4 c'))), (''IPv6'', ipnet_String (the (co_localTunIPv6 c')))])"
proof -
  have "co_dhcp (use_headers md c) = co_dhcp c"
    by (auto simp: use_headers_def split: option.splits)
  with assms show ?thesis
    by (auto simp: RentInnerIP_def InitDHCP_def Let_def split: if_splits option.splits prod.splits sum.splits)
qed

theorem RentInnerIP_sets_both_witness:
  "\<exists>w'. RentInnerIP store_client id (Inl ''down'') (Some ([''223.254.0.7/16''], [''efff::7/64'']))
      \<lparr>co_namespace = ''default'', co_dhcp = None, co_localTunIPv4 = None, co_localTunIPv6 = None\<rparr> empty_store
    = (Inr [], \<lparr>co_namespace = ''default'', co_dhcp = Some (NewDHCPManager ''default''),
        co_localTunIPv4 = Some \<lparr>net_IP = IPv4 223 254 0 7, net_Mask = [255, 255, 0, 0]\<rparr>,
        co_localTunIPv6 = Some \<lparr>net_IP = [239, 255, 0, 0, 0, 0, 0, 0, 0, 0, 0, 0, 0, 0, 0, 7],
          net_Mask = [255, 255, 255, 255, 255, 255, 255, 255, 0, 0, 0, 0, 0, 0, 0, 0]\<rparr>\<rparr>, w')
    \<and> co_localTunIPv4 (use_headers (Some ([''223.254.0.7/16''], [''efff::7/64'']))
      \<lparr>co_namespace = ''default'', co_dhcp = None, co_localTunIPv4 = None, co_localTunIPv6 = None\<rparr>) \<noteq> None"
proof -
  let ?c = "\<lparr>co_namespace = ''default'', co_dhcp = None, co_localTunIPv4 = None, co_localTunIPv6 = None\<rparr>"
  let ?md = "Some ([''223.254.0.7/16''], [''efff::7/64''])"
  have p: "map_option (\<lambda>(a, n). (a, net_Mask n)) (ParseCIDR ''223.254.0.7/16'') = Some (IPv4 223 254 0 7, [255, 255, 0, 0])"
    "map_option (\<lambda>(a, n). (a, net_Mask n)) (ParseCIDR ''efff::7/64'') =
      Some ([239, 255, 0, 0, 0, 0, 0, 0, 0, 0, 0, 0, 0, 0, 0, 7], [255, 255, 255, 255, 255, 255, 255, 255, 0, 0, 0, 0, 0, 0, 0, 0])"
    by code_simp+
  have "fst (initDHCP store_client (NewDHCPManager ''default'') empty_store) = None"
    by (simp add: initDHCP_def empty_store_def st_get_def st_create_def st_put_def Let_def)
  then obtain w' where i: "initDHCP store_client (NewDHCPManager ''default'') empty_store = (None, w')"
    by (metis prod.collapse)
  have r: "RentInnerIP store_client id (Inl ''down'') ?md ?c empty_store
    = (Inr [], \<lparr>co_namespace = ''default'', co_dhcp = Some (NewDHCPManager ''default''),
        co_localTunIPv4 = Some \<lparr>net_IP = IPv4 223 254 0 7, net_Mask = [255, 255, 0, 0]\<rparr>,
        co_localTunIPv6 = Some \<lparr>net_IP = [239, 255, 0, 0, 0, 0, 0, 0, 0, 0, 0, 0, 0, 0, 0, 7],
          net_Mask = [255, 255, 255, 255, 255, 255, 255, 255, 0, 0, 0, 0, 0, 0, 0, 0]\<rparr>\<rparr>, w')"
    using p by (auto simp: RentInnerIP_def use_headers_def InitDHCP_def Let_def i)
  from RentInnerIP_sets_both [OF r] r show ?thesis by (auto split: if_splits)
qed

text \<open>The container address \<^verbatim>\<open>GetIPBaseNic\<close> computes is 223.255.0.s/32 for the sum \<open>s\<close> of the bytes of
  the host's addresses modulo 255, and no address at all when that sum is 0 modulo 255; allocation
  never fails.\<close>

theorem GetIPBaseNic_spec:
  "GetIPBaseNic addrs = Inr \<lparr>net_IP = (if nic_sum addrs mod 255 = 0 then []
     else IPv4 223 255 0 (of_nat (nic_sum addrs mod 255))), net_Mask = [255, 255, 255, 255]\<rparr>"
proof -
  let ?s = "nic_sum addrs mod 255" and ?r = "NewAllocatorCIDRRange DockerCIDR"
  have c: "RangeSize DockerCIDR = 65536" "mask_Size (net_Mask DockerCIDR) = (16, 32)"
    "CIDRMask 32 32 = [255, 255, 255, 255]"
    by code_simp+
  have "int (0 + ?s) \<le> bm_max (rg_alloc ?r)" and b: "rg_base ?r = bigForIP (net_IP DockerCIDR) + 1"
    by (simp_all add: NewAllocatorCIDRRange_def NewContiguousAllocationMap_def Let_def c)
  from next_n_filled [OF this(1), of "([], None)"]
  have "next_n ?s ([], None) ?r =
      (if ?s = 0 then ([], None) else (addIPOffset (bigForIP (net_IP DockerCIDR) + 1) (?s - 1), None))"
    by (simp only: filled_new b) simp
  then show ?thesis
    using docker_addr [of ?s] by (simp add: GetIPBaseNic_def c Let_def)
qed

end
