(* ===== verification/Webhook.thy ===== *)
theory Webhook
  imports Sidecar Dhcp_Clients
begin

text \<open>
  The admission webhook of the traffic manager: \<^verbatim>\<open>src/pkg/webhook/pods.go\<close>, \<^verbatim>\<open>convert.go\<close> and \<^verbatim>\<open>serve\<close> of
  \<^verbatim>\<open>mutateadmissionwebhook.go\<close>.  A pod with a VPN sidecar gets a pair of tunnel addresses when it is created and gives them
  back when it is deleted; the addresses travel as text in two environment variables of the sidecar.

  The JSON libraries are the record \<open>pod_codec\<close> of conversions; \<open>None\<close> stands for an error.  What the API server does with a
  patch is the parameter \<open>apply\<close> of the lemmas.
\<close>

section \<open>Requests and responses\<close>

record AdmissionRequest =
  rq_UID :: string
  rq_Kind :: "string \<times> string \<times> string"
  rq_Resource :: "string \<times> string \<times> string"
  rq_SubResource :: string
  rq_RequestKind :: "(string \<times> string \<times> string) option"
  rq_RequestResource :: "(string \<times> string \<times> string) option"
  rq_RequestSubResource :: string
  rq_Name :: string
  rq_Namespace :: string
  rq_Operation :: string
  rq_UserInfo :: string
  rq_Object :: string
  rq_OldObject :: string
  rq_DryRun :: "bool option"
  rq_Options :: string

datatype admit_err =
    WrongResource "string \<times> string \<times> string"
  | DecodeFailed
  | MarshalPod
  | CreatePatchFailed
  | MarshalPatch
  | RentFailed dhcp_err
  | WrongOperation string

record AdmissionResponse =
  rp_UID :: string
  rp_Allowed :: bool
  rp_Result :: "admit_err option"
  rp_Patch :: "string option"
  rp_PatchType :: "string option"
  rp_AuditAnnotations :: "(string \<times> string) list"
  rp_Warnings :: "string list"

definition empty_response :: AdmissionResponse where
  "empty_response = \<lparr>rp_UID = [], rp_Allowed = False, rp_Result = None, rp_Patch = None, rp_PatchType = None,
     rp_AuditAnnotations = [], rp_Warnings = []\<rparr>"

definition toV1AdmissionResponse :: "admit_err \<Rightarrow> AdmissionResponse" where
  "toV1AdmissionResponse e = empty_response\<lparr>rp_Result := Some e\<rparr>"

text \<open>The two versions of the API have the same fields; a nil request panics.\<close>

definition convertAdmissionRequestToV1 :: "AdmissionRequest option \<Rightarrow> ('e, AdmissionRequest) outcome" where
  "convertAdmissionRequestToV1 r =
     (case r of
        None \<Rightarrow> Panic
      | Some r \<Rightarrow> Ret \<lparr>rq_UID = rq_UID r, rq_Kind = rq_Kind r, rq_Resource = rq_Resource r, rq_SubResource = rq_SubResource r,
          rq_RequestKind = rq_RequestKind r, rq_RequestResource = rq_RequestResource r, rq_RequestSubResource = rq_RequestSubResource r,
          rq_Name = rq_Name r, rq_Namespace = rq_Namespace r, rq_Operation = rq_Operation r, rq_UserInfo = rq_UserInfo r,
          rq_Object = rq_Object r, rq_OldObject = rq_OldObject r, rq_DryRun = rq_DryRun r, rq_Options = rq_Options r\<rparr>)"

definition convertAdmissionResponseToV1beta1 :: "AdmissionResponse option \<Rightarrow> ('e, AdmissionResponse) outcome" where
  "convertAdmissionResponseToV1beta1 r =
     (case r of
        None \<Rightarrow> Panic
      | Some r \<Rightarrow> Ret \<lparr>rp_UID = rp_UID r, rp_Allowed = rp_Allowed r, rp_Result = rp_Result r, rp_Patch = rp_Patch r,
          rp_PatchType = rp_PatchType r, rp_AuditAnnotations = rp_AuditAnnotations r, rp_Warnings = rp_Warnings r\<rparr>)"

section \<open>Pods\<close>

definition EnvInboundPodTunIPv4 :: string where "EnvInboundPodTunIPv4 = ''TunIPv4''"
definition EnvInboundPodTunIPv6 :: string where "EnvInboundPodTunIPv6 = ''TunIPv6''"

definition podResource :: "string \<times> string \<times> string" where
  "podResource = ([], ''v1'', ''pods'')"

record ('p, 'a, 'd) pod_codec =
  pj_decode :: "string \<Rightarrow> ('p, 'a) Pod option"
  pj_marshal :: "('p, 'a) Pod \<Rightarrow> string option"
  pj_CreatePatch :: "string \<Rightarrow> string \<Rightarrow> 'd option"
  pj_marshal_patch :: "'d \<Rightarrow> string option"

text \<open>\<^verbatim>\<open>podcmd.FindContainerByName\<close>: regular, then init, then ephemeral containers.\<close>

definition FindContainerByName :: "('p, 'a) Pod \<Rightarrow> string \<Rightarrow> 'p Container option" where
  "FindContainerByName pod name =
     find (\<lambda>c. ct_Name c = name)
       (ps_Containers (pod_spec pod) @ ps_InitContainers (pod_spec pod) @ ps_EphemeralContainers (pod_spec pod))"

text \<open>\<open>config.RouterIP.Equal(x)\<close> for the address of a CIDR text; nil equals no address.\<close>

definition is_router :: "string \<Rightarrow> bool" where
  "is_router s = (case ParseCIDR s of None \<Rightarrow> False | Some (x, _) \<Rightarrow> ip_Equal RouterIP x)"

fun old_ips :: "EnvVar list \<Rightarrow> ip list" where
  "old_ips [] = []"
| "old_ips (e # es) =
     (if ev_Name e \<in> {EnvInboundPodTunIPv4, EnvInboundPodTunIPv6} \<and> ev_Value e \<noteq> []
      then (case ParseCIDR (ev_Value e) of None \<Rightarrow> old_ips es | Some (a, _) \<Rightarrow> a # old_ips es)
      else old_ips es)"

text \<open>
  The first loop over the variables of a sidecar: the router's address ends the search through the pod, any other value of the
  IPv4 variable rents a pair.  \<open>env\<close> is the whole list, the last list what is left of it.
\<close>

datatype env_flow = EnvDone bool "(ipnet \<times> ipnet) option" | EnvBreakOut bool | EnvError dhcp_err

fun rent_env ::
  "'w cm_client \<Rightarrow> ('w \<Rightarrow> 'w) \<Rightarrow> string \<Rightarrow> string + ip list \<Rightarrow> EnvVar list \<Rightarrow> bool \<Rightarrow> (ipnet \<times> ipnet) option \<Rightarrow> 'w \<Rightarrow> EnvVar list
   \<Rightarrow> env_flow \<times> 'w" where
  "rent_env cl mid ns nics env found v w [] = (EnvDone found v, w)"
| "rent_env cl mid ns nics env found v w (pair # rest) =
     (if ev_Name pair = EnvInboundPodTunIPv4 then
        (if is_router (ev_Value pair) then (EnvBreakOut found, w)
         else
           let dhcp = NewDHCPManager ns;
               w1 = (if ev_Value pair \<noteq> [] then snd (ReleaseIP cl mid dhcp (old_ips env) w) else w)
           in case RentIPRandom cl mid dhcp nics w1 of
                (Inl e, w2) \<Rightarrow> (EnvError e, w2)
              | (Inr v46, w2) \<Rightarrow> rent_env cl mid ns nics env True (Some v46) w2 rest)
      else rent_env cl mid ns nics env found v w rest)"

text \<open>The second loop writes the addresses; a variable has one of the two names.\<close>

definition set_env :: "(ipnet \<times> ipnet) option \<Rightarrow> EnvVar \<Rightarrow> EnvVar" where
  "set_env v e =
     (case v of
        None \<Rightarrow> e
      | Some (v4, v6) \<Rightarrow>
          if ev_Name e = EnvInboundPodTunIPv4 then e\<lparr>ev_Value := ipnet_String v4\<rparr>
          else if ev_Name e = EnvInboundPodTunIPv6 then e\<lparr>ev_Value := ipnet_String v6\<rparr> else e)"

fun rent_containers ::
  "'w cm_client \<Rightarrow> ('w \<Rightarrow> 'w) \<Rightarrow> string \<Rightarrow> string + ip list \<Rightarrow> 'p Container list \<Rightarrow> bool \<Rightarrow> 'w
   \<Rightarrow> (dhcp_err + 'p Container list \<times> bool) \<times> 'w" where
  "rent_containers cl mid ns nics [] found w = (Inr ([], found), w)"
| "rent_containers cl mid ns nics (c # cs) found w =
     (if ct_Name c = ContainerSidecarVPN then
        (case rent_env cl mid ns nics (ct_Env c) found None w (ct_Env c) of
           (EnvError e, w1) \<Rightarrow> (Inl e, w1)
         | (EnvBreakOut found', w1) \<Rightarrow> (Inr (c # cs, found'), w1)
         | (EnvDone found' v, w1) \<Rightarrow>
             (case rent_containers cl mid ns nics cs found' w1 of
                (Inl e, w2) \<Rightarrow> (Inl e, w2)
              | (Inr (cs', found''), w2) \<Rightarrow> (Inr (c\<lparr>ct_Env := map (set_env v) (ct_Env c)\<rparr> # cs', found''), w2)))
      else
        (case rent_containers cl mid ns nics cs found w of
           (Inl e, w2) \<Rightarrow> (Inl e, w2)
         | (Inr (cs', found''), w2) \<Rightarrow> (Inr (c # cs', found''), w2)))"

definition applyPodPatch ::
  "('p, 'a, 'd) pod_codec \<Rightarrow> AdmissionRequest \<Rightarrow> (('p, 'a) Pod \<Rightarrow> bool) \<Rightarrow> string \<Rightarrow> AdmissionResponse option" where
  "applyPodPatch pc rq shouldPatchPod text =
     (if rq_Resource rq \<noteq> podResource then None
      else
        (case pj_decode pc (rq_Object rq) of
           None \<Rightarrow> Some (toV1AdmissionResponse DecodeFailed)
         | Some pod \<Rightarrow>
             Some (if shouldPatchPod pod
               then empty_response\<lparr>rp_Allowed := True, rp_Patch := Some text, rp_PatchType := Some ''JSONPatch''\<rparr>
               else empty_response\<lparr>rp_Allowed := True\<rparr>)))"

definition admit_create ::
  "'w cm_client \<Rightarrow> ('w \<Rightarrow> 'w) \<Rightarrow> string + ip list \<Rightarrow> ('p, 'a, 'd) pod_codec \<Rightarrow> AdmissionRequest \<Rightarrow> 'w \<Rightarrow> AdmissionResponse option \<times> 'w" where
  "admit_create cl mid nics pc rq w =
     (case pj_decode pc (rq_Object rq) of
        None \<Rightarrow> (Some (toV1AdmissionResponse DecodeFailed), w)
      | Some pod \<Rightarrow>
          (case pj_marshal pc pod of
             None \<Rightarrow> (Some (toV1AdmissionResponse MarshalPod), w)
           | Some from \<Rightarrow>
               (case rent_containers cl mid (rq_Namespace rq) nics (ps_Containers (pod_spec pod)) False w of
                  (Inl e, w1) \<Rightarrow> (Some (toV1AdmissionResponse (RentFailed e)), w1)
                | (Inr (cs, found), w1) \<Rightarrow>
                    if found then
                      (case pj_marshal pc (pod\<lparr>pod_spec := (pod_spec pod)\<lparr>ps_Containers := cs\<rparr>\<rparr>) of
                         None \<Rightarrow> (Some (toV1AdmissionResponse MarshalPod), w1)
                       | Some to \<Rightarrow>
                           (case pj_CreatePatch pc from to of
                              None \<Rightarrow> (Some (toV1AdmissionResponse CreatePatchFailed), w1)
                            | Some ops \<Rightarrow>
                                (case pj_marshal_patch pc ops of
                                   None \<Rightarrow> (Some (toV1AdmissionResponse MarshalPatch), w1)
                                 | Some marshal \<Rightarrow>
                                     (applyPodPatch pc rq (\<lambda>pod. FindContainerByName pod ContainerSidecarVPN \<noteq> None) marshal, w1))))
                    else (Some (empty_response\<lparr>rp_UID := rq_UID rq, rp_Allowed := True\<rparr>), w1))))"

fun delete_ips :: "EnvVar list \<Rightarrow> ip list" where
  "delete_ips [] = []"
| "delete_ips (e # es) =
     (if is_router (ev_Value e) then []
      else if ev_Name e = EnvInboundPodTunIPv4 \<or> ev_Name e = EnvInboundPodTunIPv6
      then (case ParseCIDR (ev_Value e) of None \<Rightarrow> delete_ips es | Some (a, _) \<Rightarrow> a # delete_ips es)
      else delete_ips es)"

definition admit_delete ::
  "'w cm_client \<Rightarrow> ('w \<Rightarrow> 'w) \<Rightarrow> ('p, 'a, 'd) pod_codec \<Rightarrow> AdmissionRequest \<Rightarrow> 'w \<Rightarrow> AdmissionResponse option \<times> 'w" where
  "admit_delete cl mid pc rq w =
     (case pj_decode pc (rq_OldObject rq) of
        None \<Rightarrow> (Some (toV1AdmissionResponse DecodeFailed), w)
      | Some pod \<Rightarrow>
          (Some (empty_response\<lparr>rp_Allowed := True\<rparr>),
           case FindContainerByName pod ContainerSidecarVPN of
             None \<Rightarrow> w
           | Some c \<Rightarrow>
               (let ips = delete_ips (ct_Env c)
                in if ips \<noteq> [] then snd (ReleaseIP cl mid (NewDHCPManager (rq_Namespace rq)) ips w) else w)))"

definition admitPods ::
  "'w cm_client \<Rightarrow> ('w \<Rightarrow> 'w) \<Rightarrow> string + ip list \<Rightarrow> ('p, 'a, 'd) pod_codec \<Rightarrow> AdmissionRequest \<Rightarrow> 'w \<Rightarrow> AdmissionResponse option \<times> 'w" where
  "admitPods cl mid nics pc rq w =
     (if rq_Resource rq \<noteq> podResource then (Some (toV1AdmissionResponse (WrongResource (rq_Resource rq))), w)
      else if rq_Operation rq = ''CREATE'' then admit_create cl mid nics pc rq w
      else if rq_Operation rq = ''DELETE'' then admit_delete cl mid pc rq w
      else (Some (toV1AdmissionResponse (WrongOperation (rq_Operation rq))), w))"

section \<open>The HTTP handler\<close>

text \<open>
  What \<^verbatim>\<open>deserializer.Decode\<close> makes of a body: an error, a review of one of the two versions, or an object of another kind.
  The request of a review may be nil.
\<close>

datatype decoded = DecodeError | ReviewV1beta1 "AdmissionRequest option" | ReviewV1 "AdmissionRequest option" | OtherKind

datatype http_reply = NoReply | HttpError nat | ReplyV1beta1 AdmissionResponse | ReplyV1 AdmissionResponse

definition set_uid :: "AdmissionRequest \<Rightarrow> AdmissionResponse option \<Rightarrow> ('e, AdmissionResponse) outcome" where
  "set_uid rq r = (case r of None \<Rightarrow> Panic | Some r \<Rightarrow> Ret (r\<lparr>rp_UID := rq_UID rq\<rparr>))"

definition delegateV1beta1AdmitToV1 ::
  "(AdmissionRequest \<Rightarrow> 'w \<Rightarrow> AdmissionResponse option \<times> 'w) \<Rightarrow> AdmissionRequest option \<Rightarrow> 'w \<Rightarrow> ('e, AdmissionResponse) outcome \<times> 'w" where
  "delegateV1beta1AdmitToV1 f r w =
     (case convertAdmissionRequestToV1 r of
        Ret rq \<Rightarrow> (let (out, w') = f rq w in (convertAdmissionResponseToV1beta1 out, w'))
      | Fail e \<Rightarrow> (Fail e, w)
      | Panic \<Rightarrow> (Panic, w))"

definition serve ::
  "(string \<Rightarrow> decoded) \<Rightarrow> (http_reply \<Rightarrow> bool) \<Rightarrow> string \<Rightarrow> (AdmissionRequest \<Rightarrow> 'w \<Rightarrow> AdmissionResponse option \<times> 'w) \<Rightarrow> string \<Rightarrow> 'w
   \<Rightarrow> ('e, http_reply) outcome \<times> 'w" where
  "serve decode encodes contentType admit body w =
     (if contentType \<noteq> ''application/json'' then (Ret NoReply, w)
      else
        (let send = (\<lambda>r. if encodes r then r else HttpError 500) in
         case decode body of
           DecodeError \<Rightarrow> (Ret (HttpError 400), w)
         | OtherKind \<Rightarrow> (Ret (HttpError 400), w)
         | ReviewV1beta1 rq \<Rightarrow>
             (case delegateV1beta1AdmitToV1 admit rq w of
                (r, w') \<Rightarrow> (bind_outcome r (\<lambda>r. map_outcome (send \<circ> ReplyV1beta1) (set_uid (the rq) (Some r))), w'))
         | ReviewV1 None \<Rightarrow> (Panic, w)
         | ReviewV1 (Some rq) \<Rightarrow>
             (case admit rq w of (r, w') \<Rightarrow> (map_outcome (send \<circ> ReplyV1) (set_uid rq r), w'))))"

definition getSSLKeyPairs :: "(string \<Rightarrow> string option) \<Rightarrow> (string \<Rightarrow> string \<Rightarrow> 'k option) \<Rightarrow> (string, 'k list) outcome" where
  "getSSLKeyPairs env keyPair =
     (case env ''tls_crt'' of
        None \<Rightarrow> Fail ''tls_crt''
      | Some cert \<Rightarrow>
          (case env ''tls_key'' of
             None \<Rightarrow> Fail ''tls_key''
           | Some key \<Rightarrow> (case keyPair cert key of None \<Rightarrow> Fail ''failed to load certificate and key'' | Some p \<Rightarrow> Ret [p])))"

section \<open>The text of a lease\<close>

text \<open>No lease is the address of the router.\<close>

lemma lease_not_router:
  assumes "cm_wf (NewDHCPManager ns) cm"
  shows "a \<in> lease4 (NewDHCPManager ns) cm \<Longrightarrow> \<not> ip_Equal RouterIP a"
    and "b \<in> lease6 (NewDHCPManager ns) cm \<Longrightarrow> \<not> ip_Equal RouterIP b"
proof -
  have router: "bigForIP RouterIP = base4 - 1" "length RouterIP = 16" "To4 RouterIP \<noteq> []" by code_simp+
  show "\<not> ip_Equal RouterIP a" if a: "a \<in> lease4 (NewDHCPManager ns) cm"
  proof
    assume "ip_Equal RouterIP a"
    from ip_Equal_big [OF this] have big: "bigForIP a = base4 - 1" using router(1) by simp
    let ?p = "pool4 (NewDHCPManager ns) cm"
    note over = cm_wf_over(1) [OF assms]
    from a obtain k where k: "k \<in> range_used ?p" "a = range_addr ?p k" by (auto simp: lease4_def)
    with range_pool.used_bound [OF range_over_ok [OF over]] manager_over [OF over]
    have "k < 65534" "a = addIPOffset base4 k" by (auto simp: range_addr_def)
    then have "bigForIP a = base4 + k" by (simp add: bigForIP_addIPOffset base4_def)
    with big show False by (simp add: base4_def)
  qed
  show "\<not> ip_Equal RouterIP b" if "b \<in> lease6 (NewDHCPManager ns) cm"
    using lease6_is_v6 [OF assms that] lease6_length [OF that] router(2,3) by (auto simp: ip_Equal_def)
qed

lemma lease_text:
  assumes "cm_wf (NewDHCPManager ns) cm" and "net_IP n4 \<in> lease4 (NewDHCPManager ns) cm" and "net_IP n6 \<in> lease6 (NewDHCPManager ns) cm"
    and "net_Mask n4 = [255, 255, 0, 0]" and "net_Mask n6 = CIDRMask 64 128"
  shows "\<exists>m. ParseCIDR (ipnet_String n4) = Some (net_IP n4, m)" and "\<exists>m. ParseCIDR (ipnet_String n6) = Some (net_IP n6, m)"
    and "\<not> is_router (ipnet_String n4)" and "\<not> is_router (ipnet_String n6)"
  using lease_pair_text(1,2) [OF assms] lease_not_router(1) [OF assms(1,2)] lease_not_router(2) [OF assms(1,3)]
  by (auto simp: is_router_def)

section \<open>The variables of a sidecar\<close>

text \<open>
  A sidecar as the program puts it into a workload: one variable of each name, both empty, and no other value is the address of
  the router.
\<close>

definition fresh_env :: "EnvVar list \<Rightarrow> bool" where
  "fresh_env env \<longleftrightarrow>
     filter (\<lambda>e. ev_Name e \<in> {EnvInboundPodTunIPv4, EnvInboundPodTunIPv6}) env
       = [env_value EnvInboundPodTunIPv4 [], env_value EnvInboundPodTunIPv6 []]
   \<and> list_all (\<lambda>e. \<not> is_router (ev_Value e)) env"

lemma is_router_nil [simp]: "\<not> is_router []"
  by (simp add: is_router_def ParseCIDR_def)

lemma fresh_sidecars: "fresh_env (ct_Env (mesh_vpn_container img))"
proof -
  have "\<not> is_router cidr4_text" "\<not> is_router cidr6_text" "\<not> is_router ConfigMapPodTrafficManager" by code_simp+
  then show ?thesis
    by (simp add: fresh_env_def mesh_vpn_container_def env_value_def env_field_def EnvInboundPodTunIPv4_def EnvInboundPodTunIPv6_def)
qed

lemma rent_env_others:
  "list_all (\<lambda>e. ev_Name e \<noteq> EnvInboundPodTunIPv4) es \<Longrightarrow> rent_env cl mid ns nics env found v w es = (EnvDone found v, w)"
  by (induction es) auto

lemma rent_env_once:
  assumes "filter (\<lambda>e. ev_Name e = EnvInboundPodTunIPv4) es = [env_value EnvInboundPodTunIPv4 []]"
  shows "rent_env cl mid ns nics env found v w es =
    (case RentIPRandom cl mid (NewDHCPManager ns) nics w of
       (Inl e, w') \<Rightarrow> (EnvError e, w') | (Inr v46, w') \<Rightarrow> (EnvDone True (Some v46), w'))"
  using assms
proof (induction es)
  case (Cons e es)
  show ?case
  proof (cases "ev_Name e = EnvInboundPodTunIPv4")
    case True
    with Cons.prems have e: "e = env_value EnvInboundPodTunIPv4 []" and "filter (\<lambda>e. ev_Name e = EnvInboundPodTunIPv4) es = []" by auto
    from this(2) have "list_all (\<lambda>e. ev_Name e \<noteq> EnvInboundPodTunIPv4) es" by (auto simp: filter_empty_conv list_all_iff)
    with True show ?thesis by (simp add: e env_value_def rent_env_others split: prod.splits sum.splits)
  next
    case False
    with Cons show ?thesis by simp
  qed
qed simp

lemma fresh_env_v4:
  assumes "fresh_env env"
  shows "filter (\<lambda>e. ev_Name e = EnvInboundPodTunIPv4) env = [env_value EnvInboundPodTunIPv4 []]"
proof -
  have "filter (\<lambda>e. ev_Name e = EnvInboundPodTunIPv4) env =
      filter (\<lambda>e. ev_Name e = EnvInboundPodTunIPv4) (filter (\<lambda>e. ev_Name e \<in> {EnvInboundPodTunIPv4, EnvInboundPodTunIPv6}) env)"
    by (simp add: conj_commute) (metis (mono_tags, lifting))
  with assms show ?thesis by (simp add: fresh_env_def env_value_def EnvInboundPodTunIPv4_def EnvInboundPodTunIPv6_def)
qed

text \<open>What the webhook finds in the variables it has set: the addresses, in the order of the variables.\<close>

lemma delete_ips_set:
  assumes "list_all (\<lambda>e. \<not> is_router (ev_Value e)) env" and "\<not> is_router (ipnet_String n4)" and "\<not> is_router (ipnet_String n6)"
    and "ParseCIDR (ipnet_String n4) = Some (a, m4)" and "ParseCIDR (ipnet_String n6) = Some (b, m6)"
  shows "delete_ips (map (set_env (Some (n4, n6))) env) =
    map (\<lambda>e. if ev_Name e = EnvInboundPodTunIPv4 then a else b)
      (filter (\<lambda>e. ev_Name e \<in> {EnvInboundPodTunIPv4, EnvInboundPodTunIPv6}) env)"
  using assms(1)
proof (induction env)
  case (Cons e env)
  have "EnvInboundPodTunIPv4 \<noteq> EnvInboundPodTunIPv6" by (simp add: EnvInboundPodTunIPv4_def EnvInboundPodTunIPv6_def)
  with Cons assms(2-5) show ?case by (auto simp: set_env_def)
qed simp

lemma rent_containers_one:
  assumes "list_all (\<lambda>c. ct_Name c \<noteq> ContainerSidecarVPN) pre" and "list_all (\<lambda>c. ct_Name c \<noteq> ContainerSidecarVPN) post"
    and "ct_Name c = ContainerSidecarVPN" and "fresh_env (ct_Env c)"
  shows "rent_containers cl mid ns nics (pre @ c # post) found w =
    (case RentIPRandom cl mid (NewDHCPManager ns) nics w of
       (Inl e, w') \<Rightarrow> (Inl e, w')
     | (Inr v, w') \<Rightarrow> (Inr (pre @ c\<lparr>ct_Env := map (set_env (Some v)) (ct_Env c)\<rparr> # post, True), w'))"
proof -
  have post: "rent_containers cl mid ns nics post f x = (Inr (post, f), x)" for f x
    using assms(2) by (induction post) auto
  show ?thesis
    using assms(1)
  proof (induction pre)
    case Nil
    show ?case
      using assms(3) by (simp add: post rent_env_once [OF fresh_env_v4 [OF assms(4)]] split: prod.splits sum.splits)
  next
    case (Cons b pre)
    then show ?case by (simp split: prod.splits sum.splits)
  qed
qed

section \<open>Creating and deleting a pod\<close>

text \<open>
  What the JSON libraries and the API server are expected to do: the patch between the texts of two pods, applied to a text of the
  first, gives a text of the second.
\<close>

definition lawful_pods :: "('p, 'a, 'd) pod_codec \<Rightarrow> (string \<Rightarrow> string \<Rightarrow> string option) \<Rightarrow> bool" where
  "lawful_pods pc apply \<longleftrightarrow>
     (\<forall>raw p q from to ops t. pj_decode pc raw = Some p \<and> pj_marshal pc p = Some from \<and> pj_marshal pc q = Some to
        \<and> pj_CreatePatch pc from to = Some ops \<and> pj_marshal_patch pc ops = Some t \<longrightarrow>
        (\<exists>raw'. apply t raw = Some raw' \<and> pj_decode pc raw' = Some q))"

text \<open>A pod with one VPN sidecar, as the program makes them.\<close>

definition sidecar_pod :: "('p, 'a) Pod \<Rightarrow> 'p Container list \<Rightarrow> 'p Container \<Rightarrow> 'p Container list \<Rightarrow> bool" where
  "sidecar_pod pod pre c post \<longleftrightarrow>
     ps_Containers (pod_spec pod) = pre @ c # post \<and> ct_Name c = ContainerSidecarVPN \<and> fresh_env (ct_Env c)
   \<and> list_all (\<lambda>c. ct_Name c \<noteq> ContainerSidecarVPN) pre \<and> list_all (\<lambda>c. ct_Name c \<noteq> ContainerSidecarVPN) post"

definition with_tun_ips :: "ipnet \<times> ipnet \<Rightarrow> 'p Container list \<Rightarrow> 'p Container \<Rightarrow> 'p Container list \<Rightarrow> ('p, 'a) Pod \<Rightarrow> ('p, 'a) Pod" where
  "with_tun_ips v pre c post pod =
     pod\<lparr>pod_spec := (pod_spec pod)\<lparr>ps_Containers := pre @ c\<lparr>ct_Env := map (set_env (Some v)) (ct_Env c)\<rparr> # post\<rparr>\<rparr>"

lemma find_sidecar:
  assumes "ps_Containers (pod_spec pod) = pre @ c # post" and "ct_Name c = ContainerSidecarVPN"
    and "list_all (\<lambda>c. ct_Name c \<noteq> ContainerSidecarVPN) pre"
  shows "FindContainerByName pod ContainerSidecarVPN = Some c"
proof -
  have "find (\<lambda>c. ct_Name c = ContainerSidecarVPN) (pre @ c # rest) = Some c" for rest
    using assms(2,3) by (induction pre) auto
  with assms(1) show ?thesis by (simp add: FindContainerByName_def)
qed

lemma admit_create_sidecar:
  assumes "lawful_pods pc apply" and "rq_Resource rq = podResource" and "pj_decode pc (rq_Object rq) = Some pod"
    and "sidecar_pod pod pre c post" and "admit_create cl mid nics pc rq w = (Some rsp, w1)" and "rp_Allowed rsp"
  shows "\<exists>v t raw'. RentIPRandom cl mid (NewDHCPManager (rq_Namespace rq)) nics w = (Inr v, w1) \<and> rp_Patch rsp = Some t
    \<and> apply t (rq_Object rq) = Some raw' \<and> pj_decode pc raw' = Some (with_tun_ips v pre c post pod)"
proof -
  note p = assms(4) [unfolded sidecar_pod_def]
  have no: "\<not> rp_Allowed (toV1AdmissionResponse e)" for e by (simp add: toV1AdmissionResponse_def empty_response_def)
  have f: "FindContainerByName pod ContainerSidecarVPN = Some c" using p by (intro find_sidecar [of pod pre c post]) auto
  have rc: "rent_containers cl mid (rq_Namespace rq) nics (ps_Containers (pod_spec pod)) False w =
      (case RentIPRandom cl mid (NewDHCPManager (rq_Namespace rq)) nics w of
         (Inl e, w') \<Rightarrow> (Inl e, w')
       | (Inr v, w') \<Rightarrow> (Inr (pre @ c\<lparr>ct_Env := map (set_env (Some v)) (ct_Env c)\<rparr> # post, True), w'))"
    using p rent_containers_one [of pre post c] by simp
  from assms(5) assms(6) obtain old where old: "pj_marshal pc pod = Some old"
    by (cases "pj_marshal pc pod") (auto simp: admit_create_def assms(3) no)
  obtain r w' where r: "RentIPRandom cl mid (NewDHCPManager (rq_Namespace rq)) nics w = (r, w')" by fastforce
  from assms(5,6) obtain v where v: "r = Inr v" by (cases r) (auto simp: admit_create_def assms(3) old rc r no)
  note create = assms(5) [unfolded admit_create_def assms(3) rc r v old option.case prod.case sum.case if_True, folded with_tun_ips_def]
  from create assms(6) obtain to ops t where to: "pj_marshal pc (with_tun_ips v pre c post pod) = Some to"
    "pj_CreatePatch pc old to = Some ops" "pj_marshal_patch pc ops = Some t"
    by (auto simp: no split: option.splits)
  from assms(1) assms(3) old to obtain raw' where "apply t (rq_Object rq) = Some raw'" "pj_decode pc raw' = Some (with_tun_ips v pre c post pod)"
    unfolding lawful_pods_def by blast
  moreover from create to have "w1 = w'" "rp_Patch rsp = Some t"
    by (auto simp: applyPodPatch_def assms(2,3) f empty_response_def)
  ultimately show ?thesis using r v by blast
qed

lemma admit_delete_sidecar:
  assumes "sidecar_pod pod pre c post" and "pj_decode pc (rq_OldObject rd) = Some (with_tun_ips (n4, n6) pre c post pod)"
    and "\<not> is_router (ipnet_String n4)" and "\<not> is_router (ipnet_String n6)"
    and "ParseCIDR (ipnet_String n4) = Some (a, m4)" and "ParseCIDR (ipnet_String n6) = Some (b, m6)"
  shows "admit_delete cl mid pc rd w =
    (Some (empty_response\<lparr>rp_Allowed := True\<rparr>), snd (ReleaseIP cl mid (NewDHCPManager (rq_Namespace rd)) [a, b] w))"
proof -
  note p = assms(1) [unfolded sidecar_pod_def fresh_env_def]
  let ?c = "c\<lparr>ct_Env := map (set_env (Some (n4, n6))) (ct_Env c)\<rparr>"
  have f: "FindContainerByName (with_tun_ips (n4, n6) pre c post pod) ContainerSidecarVPN = Some ?c"
    using p by (intro find_sidecar [of _ pre ?c post]) (auto simp: with_tun_ips_def)
  have "delete_ips (ct_Env ?c) = [a, b]"
    using p delete_ips_set [OF _ assms(3-6), of "ct_Env c"]
    by (simp add: env_value_def EnvInboundPodTunIPv4_def EnvInboundPodTunIPv6_def)
  then show ?thesis by (simp add: admit_delete_def assms(2) f)
qed

section \<open>Properties of the webhook\<close>

text \<open>C7: the tunnel addresses of a pod live as long as the pod.  When the webhook admits the creation of a pod with a VPN sidecar
  the patched pod carries a pair of addresses that was free and is leased now; when the pod is deleted, whatever happened in between,
  the webhook reads exactly these two addresses back from the pod and releases them, and nothing else is released.  An address
  beyond the network of its pool stays leased, and the deletion is admitted even if the release fails.\<close>

theorem pod_lease_lifecycle:
  assumes "lawful_client cl" and "lawful_pods pc apply" and "rq_Resource rq = podResource" and "rq_Operation rq = ''CREATE''"
    and "pj_decode pc (rq_Object rq) = Some pod" and "sidecar_pod pod pre c post"
    and "cm_Get cl w ConfigMapPodTrafficManager = Inr cm" and "cm_wf (NewDHCPManager (rq_Namespace rq)) cm"
    and "admitPods cl id (Inr addrs) pc rq w = (Some rsp, w1)" and "rp_Allowed rsp"
  shows "\<exists>n4 n6 t raw' cm1. rp_Patch rsp = Some t \<and> apply t (rq_Object rq) = Some raw'
    \<and> pj_decode pc raw' = Some (with_tun_ips (n4, n6) pre c post pod)
    \<and> cm_Get cl w1 ConfigMapPodTrafficManager = Inr cm1 \<and> cm_wf (NewDHCPManager (rq_Namespace rq)) cm1
    \<and> net_IP n4 \<in> lease4 (NewDHCPManager (rq_Namespace rq)) cm1 - lease4 (NewDHCPManager (rq_Namespace rq)) cm
    \<and> net_IP n6 \<in> lease6 (NewDHCPManager (rq_Namespace rq)) cm1 - lease6 (NewDHCPManager (rq_Namespace rq)) cm
    \<and> (\<forall>rd w2 cm2. rq_Resource rd = podResource \<and> rq_Operation rd = ''DELETE'' \<and> rq_OldObject rd = raw' \<and> rq_Namespace rd = rq_Namespace rq
         \<and> cm_Get cl w2 ConfigMapPodTrafficManager = Inr cm2 \<and> cm_wf (NewDHCPManager (rq_Namespace rq)) cm2
         \<and> net_IP n4 \<in> lease4 (NewDHCPManager (rq_Namespace rq)) cm2 \<and> net_IP n6 \<in> lease6 (NewDHCPManager (rq_Namespace rq)) cm2 \<longrightarrow>
         (\<exists>err w3. admitPods cl id (Inr addrs) pc rd w2 = (Some (empty_response\<lparr>rp_Allowed := True\<rparr>), w3)
           \<and> ReleaseIP cl id (NewDHCPManager (rq_Namespace rq)) [net_IP n4, net_IP n6] w2 = (err, w3)
           \<and> (err = Inr () \<longrightarrow> (\<exists>cm3. cm_Get cl w3 ConfigMapPodTrafficManager = Inr cm3
               \<and> lease4 (NewDHCPManager (rq_Namespace rq)) cm3 = lease4 (NewDHCPManager (rq_Namespace rq)) cm2 - (if net_Contains CIDR (net_IP n4) then {net_IP n4} else {})
               \<and> lease6 (NewDHCPManager (rq_Namespace rq)) cm3 = lease6 (NewDHCPManager (rq_Namespace rq)) cm2 -
                   (if net_Contains (dm_cidr6 (NewDHCPManager (rq_Namespace rq))) (net_IP n6) then {net_IP n6} else {})))))"
proof -
  let ?d = "NewDHCPManager (rq_Namespace rq)"
  have "admit_create cl id (Inr addrs) pc rq w = (Some rsp, w1)" using assms(3,4,9) by (simp add: admitPods_def)
  from admit_create_sidecar [OF assms(2,3,5,6) this assms(10)] obtain n4 n6 t raw' where
    rent: "RentIPRandom cl id ?d (Inr addrs) w = (Inr (n4, n6), w1)" and patch: "rp_Patch rsp = Some t" "apply t (rq_Object rq) = Some raw'"
    "pj_decode pc raw' = Some (with_tun_ips (n4, n6) pre c post pod)" by auto
  have "finish_update cl ?d (rent_action ?d addrs) cm w = (Inr (n4, n6), w1)"
    using rent assms(7) by (simp add: RentIPRandom_def updateDHCPConfigMap_def)
  from rent_success [OF assms(1,7,8) this] obtain cm1 where cm1: "cm_Get cl w1 ConfigMapPodTrafficManager = Inr cm1" "cm_wf ?d cm1"
    "net_IP n4 \<in> lease4 ?d cm1 - lease4 ?d cm" "net_IP n6 \<in> lease6 ?d cm1 - lease6 ?d cm"
    "net_Mask n4 = [255, 255, 0, 0]" "net_Mask n6 = CIDRMask 64 128" by auto
  note words = lease_text [OF cm1(2) DiffD1 [OF cm1(3)] DiffD1 [OF cm1(4)] cm1(5,6)]
  obtain m4 m6 where m: "ParseCIDR (ipnet_String n4) = Some (net_IP n4, m4)" "ParseCIDR (ipnet_String n6) = Some (net_IP n6, m6)"
    using words(1,2) by blast
  have del: "\<exists>err w3. admitPods cl id (Inr addrs) pc rd w2 = (Some (empty_response\<lparr>rp_Allowed := True\<rparr>), w3)
      \<and> ReleaseIP cl id ?d [net_IP n4, net_IP n6] w2 = (err, w3)
      \<and> (err = Inr () \<longrightarrow> (\<exists>cm3. cm_Get cl w3 ConfigMapPodTrafficManager = Inr cm3
          \<and> lease4 ?d cm3 = lease4 ?d cm2 - (if net_Contains CIDR (net_IP n4) then {net_IP n4} else {})
          \<and> lease6 ?d cm3 = lease6 ?d cm2 - (if net_Contains (dm_cidr6 ?d) (net_IP n6) then {net_IP n6} else {})))"
    if rd: "rq_Resource rd = podResource" "rq_Operation rd = ''DELETE''" "rq_OldObject rd = raw'" "rq_Namespace rd = rq_Namespace rq"
      and cm2: "cm_Get cl w2 ConfigMapPodTrafficManager = Inr cm2" "cm_wf ?d cm2" "net_IP n4 \<in> lease4 ?d cm2" "net_IP n6 \<in> lease6 ?d cm2"
    for rd w2 cm2
  proof -
    obtain err w3 where rel: "ReleaseIP cl id ?d [net_IP n4, net_IP n6] w2 = (err, w3)" by fastforce
    have "admitPods cl id (Inr addrs) pc rd w2 = (Some (empty_response\<lparr>rp_Allowed := True\<rparr>), w3)"
      using admit_delete_sidecar [OF assms(6) _ words(3,4) m, of pc rd cl id w2] patch(3) rd rel by (simp add: admitPods_def)
    with rel release_success [OF assms(1) cm2] show ?thesis by blast
  qed
  show ?thesis
    by (intro exI [of _ n4] exI [of _ n6] exI [of _ t] exI [of _ raw'] exI [of _ cm1] conjI patch cm1 allI impI)
      (elim conjE, rule del)
qed

definition example_pod :: "(unit, unit) Pod" where
  "example_pod =
     \<lparr>pod_meta = \<lparr>om_Name = ''web-0'', om_Namespace = ''default'', om_SelfLink = [], om_Generation = 0, om_ResourceVersion = [], om_UID = [],
        om_DeletionTimestamp = None, om_ManagedFields = [], om_OwnerReferences = [], om_Note = NoteEmpty\<rparr>,
      pod_spec = \<lparr>ps_Containers = [mesh_vpn_container ''kubevpn''], ps_PriorityClassName = [], ps_InitContainers = [], ps_EphemeralContainers = []\<rparr>\<rparr>"

definition example_pods :: "ipnet \<times> ipnet \<Rightarrow> (unit, unit, string) pod_codec" where
  "example_pods v =
     (let new = with_tun_ips v [] (mesh_vpn_container ''kubevpn'') [] example_pod in
      \<lparr>pj_decode = (\<lambda>s. if s = ''old'' then Some example_pod else if s = ''new'' then Some new else None),
       pj_marshal = (\<lambda>p. if p = example_pod then Some ''old'' else if p = new then Some ''new'' else None),
       pj_CreatePatch = (\<lambda>from to. Some to), pj_marshal_patch = (\<lambda>ops. Some ops)\<rparr>)"

definition example_request :: "string \<Rightarrow> string \<Rightarrow> AdmissionRequest" where
  "example_request op obj =
     \<lparr>rq_UID = ''u'', rq_Kind = ([], ''v1'', ''Pod''), rq_Resource = podResource, rq_SubResource = [], rq_RequestKind = None,
      rq_RequestResource = None, rq_RequestSubResource = [], rq_Name = ''web-0'', rq_Namespace = ''default'', rq_Operation = op,
      rq_UserInfo = [], rq_Object = obj, rq_OldObject = obj, rq_DryRun = None, rq_Options = []\<rparr>"

lemma lawful_example_pods: "lawful_pods (example_pods v) (\<lambda>t raw. Some t)"
  by (auto simp: lawful_pods_def example_pods_def Let_def split: if_splits)

lemma example_sidecar_pod: "sidecar_pod example_pod [] (mesh_vpn_container ''kubevpn'') []"
  using fresh_sidecars [of "''kubevpn''"] by (simp add: sidecar_pod_def example_pod_def)

lemma example_create:
  assumes "RentIPRandom store_client id (NewDHCPManager ''default'') (Inr example_nics) example_world = (Inr v, w1)"
  shows "\<exists>rsp. admitPods store_client id (Inr example_nics) (example_pods v) (example_request ''CREATE'' ''old'') example_world = (Some rsp, w1) \<and> rp_Allowed rsp"
proof -
  let ?c = "mesh_vpn_container ''kubevpn'' :: unit Container"
  note p = example_sidecar_pod [unfolded sidecar_pod_def]
  have rc: "rent_containers store_client id ''default'' (Inr example_nics) (ps_Containers (pod_spec example_pod)) False example_world =
      (Inr ([?c\<lparr>ct_Env := map (set_env (Some v)) (ct_Env ?c)\<rparr>], True), w1)"
    unfolding p [THEN conjunct1] by (subst rent_containers_one) (use p in \<open>simp_all add: assms\<close>)
  have new: "example_pod\<lparr>pod_spec := (pod_spec example_pod)\<lparr>ps_Containers := [?c\<lparr>ct_Env := map (set_env (Some v)) (ct_Env ?c)\<rparr>]\<rparr>\<rparr>
      = with_tun_ips v [] ?c [] example_pod"
    by (simp add: with_tun_ips_def)
  show ?thesis
    by (simp add: admitPods_def admit_create_def example_request_def example_pods_def Let_def rc new applyPodPatch_def empty_response_def)
qed

theorem pod_lease_lifecycle_witness:
  "\<exists>v rsp w1 n4 n6 raw cm1 w3.
      admitPods store_client id (Inr example_nics) (example_pods v) (example_request ''CREATE'' ''old'') example_world = (Some rsp, w1)
    \<and> cm_Get store_client w1 ConfigMapPodTrafficManager = Inr cm1 \<and> net_IP n4 \<in> lease4 (NewDHCPManager ''default'') cm1
    \<and> pj_decode (example_pods v) raw = Some (with_tun_ips (n4, n6) [] (mesh_vpn_container ''kubevpn'') [] example_pod)
    \<and> admitPods store_client id (Inr example_nics) (example_pods v) (example_request ''DELETE'' raw) w1 = (Some (empty_response\<lparr>rp_Allowed := True\<rparr>), w3)"
proof -
  let ?d = "NewDHCPManager ''default''" and ?rq = "example_request ''CREATE'' ''old''"
  obtain v w1 where r: "RentIPRandom store_client id ?d (Inr example_nics) example_world = (Inr v, w1)"
    using example_rent_step example_RentIPRandom by metis
  from example_create [OF r] obtain rsp where
    a: "admitPods store_client id (Inr example_nics) (example_pods v) ?rq example_world = (Some rsp, w1)" "rp_Allowed rsp" by blast
  have rq: "rq_Resource ?rq = podResource" "rq_Operation ?rq = ''CREATE''" "rq_Namespace ?rq = ''default''"
    "pj_decode (example_pods v) (rq_Object ?rq) = Some example_pod"
    by (simp_all add: example_request_def example_pods_def Let_def)
  have wf: "cm_wf (NewDHCPManager (rq_Namespace ?rq)) example_cm" by (simp add: rq(3) example_wf(1))
  from pod_lease_lifecycle [OF lawful_store lawful_example_pods rq(1,2,4) example_sidecar_pod example_get wf a, unfolded rq(3)]
  show ?thesis
  proof (elim exE conjE, goal_cases)
    case (1 n4 n6 t raw cm1)
    let ?rd = "example_request ''DELETE'' raw"
    have "rq_Resource ?rd = podResource" "rq_Operation ?rd = ''DELETE''" "rq_OldObject ?rd = raw" "rq_Namespace ?rd = ''default''"
      by (simp_all add: example_request_def)
    with 1(8) [rule_format, of ?rd w1 cm1] 1(4-7) obtain w3 where
      "admitPods store_client id (Inr example_nics) (example_pods v) ?rd w1 = (Some (empty_response\<lparr>rp_Allowed := True\<rparr>), w3)" by blast
    with a(1) 1(3-6) show ?case by blast
  qed
qed

text \<open>The handler panics exactly on a review without a request: every request gets a response.\<close>

lemma admitPods_responds: "\<exists>r w'. admitPods cl mid nics pc rq w = (Some r, w')"
  by (auto simp: admitPods_def admit_create_def admit_delete_def applyPodPatch_def split: option.splits prod.splits sum.splits if_splits)

lemma serve_panics:
  "fst (serve dec enc ct (admitPods cl mid nics pc) body w) = (Panic :: ('e, _) outcome) \<longleftrightarrow>
   ct = ''application/json'' \<and> dec body \<in> {ReviewV1 None, ReviewV1beta1 None}"
proof -
  have "admitPods cl mid nics pc rq w \<noteq> (None, w')" for rq w'
    using admitPods_responds [of cl mid nics pc rq w] by auto
  then show ?thesis
    by (auto simp: serve_def delegateV1beta1AdmitToV1_def convertAdmissionRequestToV1_def convertAdmissionResponseToV1beta1_def
        set_uid_def Let_def split: decoded.splits option.splits prod.splits)
qed

end
