(* ===== verification/Installer.thy ===== *)
theory Installer
  imports Cleaner Core_Route
begin

text \<open>
  Installing the traffic manager (\<^verbatim>\<open>createOutboundPod\<close> of \<^verbatim>\<open>src/pkg/handler/remote.go\<close>): the objects that are created in the
  cluster, the order of the calls, the roll-back when one of them fails, and the wait for a ready pod.  The API server is a
  parameter, the record \<open>inst_client\<close>; what it stores is read by a function \<open>get\<close> in the laws \<open>lawful_objects\<close> only.
\<close>

section \<open>The objects\<close>

record PolicyRule =
  ru_Verbs :: "string list"
  ru_APIGroups :: "string list"
  ru_Resources :: "string list"
  ru_ResourceNames :: "string list"

record ServicePort =
  sp_Name :: string
  sp_Protocol :: string
  sp_Port :: int
  sp_TargetPort :: int

record VolumeMount =
  vm_Name :: string
  vm_ReadOnly :: bool
  vm_MountPath :: string

text \<open>A volume made of the keys of a config map, each with the path of its file.\<close>

record Volume =
  vo_Name :: string
  vo_ConfigMap :: string
  vo_Items :: "(string \<times> string) list"
  vo_Optional :: bool

record mgr_container = "unit Container" +
  ct_VolumeMounts :: "VolumeMount list"

record Deployment =
  dp_Replicas :: int
  dp_Selector :: "(string \<times> string) list"
  dp_Labels :: "(string \<times> string) list"
  dp_ServiceAccountName :: string
  dp_Volumes :: "Volume list"
  dp_Containers :: "mgr_container list"
  dp_RestartPolicy :: string
  dp_PriorityClassName :: string

record MutatingWebhook =
  mw_Name :: string
  mw_ServiceNamespace :: string
  mw_ServiceName :: string
  mw_Path :: string
  mw_Port :: int
  mw_CABundle :: string
  mw_Operations :: "string list"
  mw_APIGroups :: "string list"
  mw_APIVersions :: "string list"
  mw_Resources :: "string list"
  mw_Scope :: string
  mw_FailurePolicy :: string
  mw_NamespaceSelector :: "(string \<times> string) list"
  mw_SideEffects :: string
  mw_AdmissionReviewVersions :: "string list"
  mw_ReinvocationPolicy :: string

datatype k8s_object =
    OServiceAccount bool
  | ORole "PolicyRule list"
  | ORoleBinding "(string \<times> string \<times> string) list" "string \<times> string \<times> string"
  | OService "ServicePort list" "(string \<times> string) list" string
  | OSecret "(string \<times> string) list" string
  | ODeployment Deployment
  | OWebhook MutatingWebhook

definition TLSCertKey :: string where "TLSCertKey = ''tls_crt''"
definition TLSPrivateKeyKey :: string where "TLSPrivateKeyKey = ''tls_key''"
definition ContainerSidecarControlPlane :: string where "ContainerSidecarControlPlane = ''control-plane''"
definition VolumeEnvoyConfig :: string where "VolumeEnvoyConfig = ''envoy-config''"

abbreviation mgr :: string where "mgr \<equiv> ConfigMapPodTrafficManager"

definition mgr_account :: k8s_object where "mgr_account = OServiceAccount True"

definition mgr_role :: k8s_object where
  "mgr_role = ORole [\<lparr>ru_Verbs = [''get'', ''list'', ''watch'', ''create'', ''update'', ''patch'', ''delete''],
     ru_APIGroups = [''''], ru_Resources = [''configmaps'', ''secrets''], ru_ResourceNames = [mgr]\<rparr>]"

definition mgr_binding :: "string \<Rightarrow> k8s_object" where
  "mgr_binding ns = ORoleBinding [(''ServiceAccount'', mgr, ns)] (''rbac.authorization.k8s.io'', ''Role'', mgr)"

definition udp8422 :: string where "udp8422 = ''8422-for-udp''"
definition tcp10800 :: string where "tcp10800 = ''10800-for-tcp''"
definition tcp9002 :: string where "tcp9002 = ''9002-for-envoy''"
definition tcp80 :: string where "tcp80 = ''80-for-webhook''"

definition svc_port :: "string \<Rightarrow> string \<Rightarrow> int \<Rightarrow> ServicePort" where
  "svc_port n proto p = \<lparr>sp_Name = n, sp_Protocol = proto, sp_Port = p, sp_TargetPort = p\<rparr>"

definition mgr_ports :: "ServicePort list" where
  "mgr_ports = [svc_port udp8422 ''UDP'' 8422, svc_port tcp10800 ''TCP'' 10800, svc_port tcp9002 ''TCP'' 9002, svc_port tcp80 ''TCP'' 80]"

definition mgr_service :: k8s_object where
  "mgr_service = OService mgr_ports [(''app'', mgr)] ''ClusterIP''"

definition mgr_secret :: "string \<Rightarrow> string \<Rightarrow> k8s_object" where
  "mgr_secret crt key = OSecret [(TLSCertKey, crt), (TLSPrivateKeyKey, key)] ''Opaque''"

definition container_port :: "string \<Rightarrow> int \<Rightarrow> string \<Rightarrow> ContainerPort" where
  "container_port n p proto = \<lparr>cp_Name = n, cp_HostPort = 0, cp_ContainerPort = p, cp_Protocol = proto, cp_HostIP = []\<rparr>"

definition mgr_script :: string where
  "mgr_script = script
     ([''sysctl -w net.ipv4.ip_forward=1'',
       ''sysctl -w net.ipv6.conf.all.disable_ipv6=0'',
       ''sysctl -w net.ipv6.conf.all.forwarding=1''] @ net_prologue @
      [''iptables -t nat -A POSTROUTING -s ${CIDR4} -o eth0 -j MASQUERADE'',
       ''ip6tables -t nat -A POSTROUTING -s ${CIDR6} -o eth0 -j MASQUERADE'',
       ''kubevpn serve -L '' @ quoted ''tcp://:10800'' @ '' -L '' @ quoted ''tun://:8422?net=${TunIPv4}'' @ '' -L '' @ quoted ''gtcp://:10801''
         @ '' -L '' @ quoted ''gudp://:10802'' @ '' --debug=true''])"

definition innerIpv4CIDR :: ipnet where "innerIpv4CIDR = \<lparr>net_IP = RouterIP, net_Mask = net_Mask CIDR\<rparr>"
definition innerIpv6CIDR :: ipnet where "innerIpv6CIDR = \<lparr>net_IP = RouterIP6, net_Mask = net_Mask CIDR6\<rparr>"

definition mgr_requests :: "(string \<times> string) list" where "mgr_requests = [(''cpu'', ''100m''), (''memory'', ''128Mi'')]"
definition mgr_limits :: "(string \<times> string) list" where "mgr_limits = [(''cpu'', ''200m''), (''memory'', ''256Mi'')]"
definition vpn_requests :: "(string \<times> string) list" where "vpn_requests = [(''cpu'', ''500m''), (''memory'', ''512Mi'')]"
definition vpn_limits :: "(string \<times> string) list" where "vpn_limits = [(''cpu'', ''2000m''), (''memory'', ''2048Mi'')]"

definition mgr_vpn :: "string \<Rightarrow> mgr_container" where
  "mgr_vpn img =
     \<lparr>ct_Name = ContainerSidecarVPN, ct_Image = img, ct_Command = [''/bin/sh'', ''-c''], ct_Args = [mgr_script],
      ct_Ports = [container_port udp8422 8422 ''UDP'', container_port tcp10800 10800 ''TCP''], ct_EnvFrom = [mgr],
      ct_Env = [env_value ''CIDR4'' cidr4_text, env_value ''CIDR6'' cidr6_text,
        env_value ''TunIPv4'' (ipnet_String innerIpv4CIDR), env_value ''TunIPv6'' (ipnet_String innerIpv6CIDR)],
      ct_Requests = vpn_requests, ct_Limits = vpn_limits, ct_PullPolicy = ''IfNotPresent'',
      ct_Capabilities = [''NET_ADMIN''], ct_RunAsUser = Some 0, ct_Privileged = Some True,
      ct_Readiness = None, ct_Liveness = None, ct_Startup = None, ct_VolumeMounts = []\<rparr>"

definition mgr_control_plane :: "string \<Rightarrow> mgr_container" where
  "mgr_control_plane img =
     \<lparr>ct_Name = ContainerSidecarControlPlane, ct_Image = img, ct_Command = [''kubevpn''],
      ct_Args = [''control-plane'', ''--watchDirectoryFilename'', ''/etc/envoy/envoy-config.yaml''],
      ct_Ports = [container_port tcp9002 9002 ''TCP''], ct_EnvFrom = [], ct_Env = [],
      ct_Requests = mgr_requests, ct_Limits = mgr_limits, ct_PullPolicy = ''IfNotPresent'',
      ct_Capabilities = [], ct_RunAsUser = None, ct_Privileged = None,
      ct_Readiness = None, ct_Liveness = None, ct_Startup = None,
      ct_VolumeMounts = [\<lparr>vm_Name = VolumeEnvoyConfig, vm_ReadOnly = True, vm_MountPath = ''/etc/envoy''\<rparr>]\<rparr>"

definition mgr_webhook_server :: "string \<Rightarrow> mgr_container" where
  "mgr_webhook_server img =
     \<lparr>ct_Name = ''webhook'', ct_Image = img, ct_Command = [''kubevpn''], ct_Args = [''webhook''],
      ct_Ports = [container_port tcp80 80 ''TCP''], ct_EnvFrom = [mgr], ct_Env = [],
      ct_Requests = mgr_requests, ct_Limits = mgr_limits, ct_PullPolicy = ''IfNotPresent'',
      ct_Capabilities = [], ct_RunAsUser = None, ct_Privileged = None,
      ct_Readiness = None, ct_Liveness = None, ct_Startup = None, ct_VolumeMounts = []\<rparr>"

definition mgr_deployment :: "string \<Rightarrow> Deployment" where
  "mgr_deployment img =
     \<lparr>dp_Replicas = 1, dp_Selector = [(''app'', mgr)], dp_Labels = [(''app'', mgr)], dp_ServiceAccountName = mgr,
      dp_Volumes = [\<lparr>vo_Name = VolumeEnvoyConfig, vo_ConfigMap = mgr, vo_Items = [(KeyEnvoy, ''envoy-config.yaml'')], vo_Optional = False\<rparr>],
      dp_Containers = [mgr_vpn img, mgr_control_plane img, mgr_webhook_server img],
      dp_RestartPolicy = ''Always'', dp_PriorityClassName = ''system-cluster-critical''\<rparr>"

definition mgr_webhook :: "string \<Rightarrow> string \<Rightarrow> MutatingWebhook" where
  "mgr_webhook ns crt =
     \<lparr>mw_Name = mgr @ ''.naison.io'', mw_ServiceNamespace = ns, mw_ServiceName = mgr, mw_Path = ''/pods'', mw_Port = 80, mw_CABundle = crt,
      mw_Operations = [''CREATE'', ''DELETE''], mw_APIGroups = [''''], mw_APIVersions = [''v1''], mw_Resources = [''pods''],
      mw_Scope = ''Namespaced'', mw_FailurePolicy = ''Ignore'', mw_NamespaceSelector = [(''ns'', ns)], mw_SideEffects = ''None'',
      mw_AdmissionReviewVersions = [''v1'', ''v1beta1''], mw_ReinvocationPolicy = ''Never''\<rparr>"

definition webhook_name :: "string \<Rightarrow> string" where "webhook_name ns = mgr @ ''.'' @ ns"

section \<open>The calls\<close>

datatype obj_err = ObjExists | ObjForbidden | ObjErr string

text \<open>The status of a pod: whether it is being deleted, its ready condition and the readiness of its containers.\<close>

record pod_status =
  st_Deleting :: bool
  st_Ready :: bool
  st_ContainersReady :: "bool list"

record 'w inst_client =
  ic_GetService :: "'w \<Rightarrow> string \<Rightarrow> bool"
  ic_AttachablePod :: "'w \<Rightarrow> string \<Rightarrow> bool"
  ic_GetNamespace :: "'w \<Rightarrow> string \<Rightarrow> string + (string, string) gomap"
  ic_UpdateNamespace :: "'w \<Rightarrow> string \<Rightarrow> (string \<rightharpoonup> string) \<Rightarrow> string option \<times> 'w"
  ic_Create :: "'w \<Rightarrow> kind \<Rightarrow> string \<Rightarrow> k8s_object \<Rightarrow> obj_err option \<times> 'w"
  ic_Delete :: "kind \<Rightarrow> string \<Rightarrow> 'w \<Rightarrow> 'w"
  ic_Cert :: "string \<Rightarrow> string + string \<times> string"
  ic_Watch :: "'w \<Rightarrow> string option"
  ic_Pods :: "'w \<Rightarrow> nat \<Rightarrow> string + pod_status list"

datatype install_err = InstNamespace string | InstLabel string | InstCreate kind obj_err | InstCert string | InstWatch string
  | InstTimeout | InstCount count_err

definition deleteResource :: "'w inst_client \<Rightarrow> string \<Rightarrow> 'w \<Rightarrow> 'w" where
  "deleteResource ic ns =
     ic_Delete ic KDeployment mgr \<circ> ic_Delete ic KService mgr \<circ> ic_Delete ic KServiceAccount mgr \<circ> ic_Delete ic KRole mgr
     \<circ> ic_Delete ic KRoleBinding mgr \<circ> ic_Delete ic KMutatingWebhookConfiguration (webhook_name ns)"

definition label_namespace :: "'w inst_client \<Rightarrow> string \<Rightarrow> 'w \<Rightarrow> install_err option \<times> 'w" where
  "label_namespace ic ns w =
     (case ic_GetNamespace ic w ns of
        Inl e \<Rightarrow> (Some (InstNamespace e), w)
      | Inr labels \<Rightarrow>
          (case ic_UpdateNamespace ic w ns ((case labels of None \<Rightarrow> Map.empty | Some l \<Rightarrow> l)(''ns'' \<mapsto> ns)) of
             (Some e, w') \<Rightarrow> (Some (InstLabel e), w')
           | (None, w') \<Rightarrow> (None, w')))"

text \<open>Create objects one after the other; the first error ends it.\<close>

fun create_all :: "'w inst_client \<Rightarrow> (kind \<times> k8s_object) list \<Rightarrow> 'w \<Rightarrow> install_err option \<times> 'w" where
  "create_all ic [] w = (None, w)"
| "create_all ic ((k, ob) # obs) w =
     (case ic_Create ic w k mgr ob of
        (Some e, w') \<Rightarrow> (Some (InstCreate k e), w')
      | (None, w') \<Rightarrow> create_all ic obs w')"

definition pod_is_ready :: "pod_status \<Rightarrow> bool" where
  "pod_is_ready p \<longleftrightarrow> \<not> st_Deleting p \<and> st_Ready p \<and> list_all (\<lambda>b. b) (st_ContainersReady p)"

text \<open>The rounds of \<^verbatim>\<open>wait.UntilWithContext\<close> until the deadline; round \<open>k\<close> sees the \<open>k\<close>th answer to the listing.\<close>

fun wait_ready :: "(nat \<Rightarrow> string + pod_status list) \<Rightarrow> nat \<Rightarrow> nat \<Rightarrow> bool" where
  "wait_ready pods k 0 = False"
| "wait_ready pods k (Suc rounds) =
     (case pods k of
        Inl _ \<Rightarrow> wait_ready pods (Suc k) rounds
      | Inr ps \<Rightarrow> if list_ex pod_is_ready ps then True else wait_ready pods (Suc k) rounds)"

definition create_webhook :: "'w inst_client \<Rightarrow> string \<Rightarrow> string \<Rightarrow> 'w \<Rightarrow> install_err option \<times> 'w" where
  "create_webhook ic ns crt w =
     (case ic_Create ic w KMutatingWebhookConfiguration (webhook_name ns) (OWebhook (mgr_webhook ns crt)) of
        (Some (ObjErr e), w') \<Rightarrow> (Some (InstCreate KMutatingWebhookConfiguration (ObjErr e)), w')
      | (_, w') \<Rightarrow> (None, w'))"

definition create_secret :: "'w inst_client \<Rightarrow> string \<Rightarrow> string \<Rightarrow> 'w \<Rightarrow> install_err option \<times> 'w" where
  "create_secret ic crt key w =
     (case ic_Create ic w KSecret mgr (mgr_secret crt key) of
        (Some ObjExists, w') \<Rightarrow> (None, w')
      | (Some e, w') \<Rightarrow> (Some (InstCreate KSecret e), w')
      | (None, w') \<Rightarrow> (None, w'))"

definition count_in :: "'w cm_client \<Rightarrow> 'w \<Rightarrow> install_err option \<times> 'w" where
  "count_in cl w =
     (case updateRefCount cl id mgr 1 w of ((_, None), w') \<Rightarrow> (None, w') | ((_, Some e), w') \<Rightarrow> (Some (InstCount e), w'))"

text \<open>Two steps, the second only if the first has no error.\<close>

definition and_then :: "('w \<Rightarrow> 'e option \<times> 'w) \<Rightarrow> ('w \<Rightarrow> 'e option \<times> 'w) \<Rightarrow> 'w \<Rightarrow> 'e option \<times> 'w" where
  "and_then f g w = (case f w of (Some e, w') \<Rightarrow> (Some e, w') | (None, w') \<Rightarrow> g w')"

text \<open>The part from the secret on, with the certificate; \<open>rounds\<close> is the number of rounds before the deadline.\<close>

definition start_manager :: "'w cm_client \<Rightarrow> 'w inst_client \<Rightarrow> string \<Rightarrow> nat \<Rightarrow> string \<Rightarrow> string \<Rightarrow> string \<Rightarrow> 'w \<Rightarrow> install_err option \<times> 'w" where
  "start_manager cl ic img rounds ns crt key =
     and_then (create_secret ic crt key)
     (and_then (\<lambda>w. (case ic_Watch ic w of Some e \<Rightarrow> Some (InstWatch e) | None \<Rightarrow> None, w))
     (and_then (create_all ic [(KDeployment, ODeployment (mgr_deployment img))])
     (and_then (\<lambda>w. (if wait_ready (ic_Pods ic w) 0 rounds then None else Some InstTimeout, w))
     (and_then (create_webhook ic ns crt)
        (count_in cl)))))"

definition install :: "'w cm_client \<Rightarrow> 'w inst_client \<Rightarrow> string \<Rightarrow> nat \<Rightarrow> string \<Rightarrow> 'w \<Rightarrow> install_err option \<times> 'w" where
  "install cl ic img rounds ns =
     and_then (label_namespace ic ns)
     (and_then (create_all ic [(KServiceAccount, mgr_account), (KRole, mgr_role), (KRoleBinding, mgr_binding ns), (KService, mgr_service)])
     (\<lambda>w. case ic_Cert ic (GetTlsDomain ns) of
            Inl e \<Rightarrow> (Some (InstCert e), w)
          | Inr (crt, key) \<Rightarrow> start_manager cl ic img rounds ns crt key w))"

text \<open>A running traffic manager is used again; otherwise what is left of an old one is deleted, all is created, and deleted again
  when a step fails.\<close>

definition createOutboundPod :: "'w cm_client \<Rightarrow> 'w inst_client \<Rightarrow> string \<Rightarrow> nat \<Rightarrow> string \<Rightarrow> 'w \<Rightarrow> install_err option \<times> 'w" where
  "createOutboundPod cl ic img rounds ns w =
     (if ic_GetService ic w mgr \<and> ic_AttachablePod ic w mgr then count_in cl w
      else (case install cl ic img rounds ns (deleteResource ic ns w) of
              (Some e, w') \<Rightarrow> (Some e, deleteResource ic ns w')
            | (None, w') \<Rightarrow> (None, w')))"

section \<open>What the API promises\<close>

text \<open>
  An object is created only if there is none of its kind and name, a failed creation and the label of the namespace change no
  object, a deleted object is gone, and config maps and objects are separate.
\<close>

definition lawful_objects :: "'w cm_client \<Rightarrow> 'w inst_client \<Rightarrow> ('w \<Rightarrow> kind \<times> string \<rightharpoonup> k8s_object) \<Rightarrow> bool" where
  "lawful_objects cl ic get \<longleftrightarrow>
     (\<forall>w k n ob w'. ic_Create ic w k n ob = (None, w') \<longrightarrow> get w (k, n) = None \<and> get w' = (get w)((k, n) \<mapsto> ob) \<and> cm_Get cl w' = cm_Get cl w)
   \<and> (\<forall>w k n ob e w'. ic_Create ic w k n ob = (Some e, w') \<longrightarrow>
        get w' = get w \<and> (e = ObjExists \<longrightarrow> get w (k, n) \<noteq> None) \<and> cm_Get cl w' = cm_Get cl w)
   \<and> (\<forall>k n w. get (ic_Delete ic k n w) = (get w)((k, n) := None) \<and> cm_Get cl (ic_Delete ic k n w) = cm_Get cl w)
   \<and> (\<forall>w n l e w'. ic_UpdateNamespace ic w n l = (e, w') \<longrightarrow> get w' = get w \<and> cm_Get cl w' = cm_Get cl w)
   \<and> (\<forall>w n p. get (snd (cm_Patch cl w n p)) = get w)"

lemma lawful_created:
  "lawful_objects cl ic get \<Longrightarrow> ic_Create ic w k n ob = (None, w') \<Longrightarrow> get w (k, n) = None \<and> get w' = (get w)((k, n) \<mapsto> ob) \<and> cm_Get cl w' = cm_Get cl w"
  by (simp add: lawful_objects_def)

lemma lawful_not_created:
  "lawful_objects cl ic get \<Longrightarrow> ic_Create ic w k n ob = (Some e, w') \<Longrightarrow>
   get w' = get w \<and> (e = ObjExists \<longrightarrow> get w (k, n) \<noteq> None) \<and> cm_Get cl w' = cm_Get cl w"
  by (simp add: lawful_objects_def)

lemma lawful_Delete:
  "lawful_objects cl ic get \<Longrightarrow> get (ic_Delete ic k n w) = (get w)((k, n) := None)"
  "lawful_objects cl ic get \<Longrightarrow> cm_Get cl (ic_Delete ic k n w) = cm_Get cl w"
  by (simp_all add: lawful_objects_def)

lemma lawful_label:
  "lawful_objects cl ic get \<Longrightarrow> label_namespace ic ns w = (e, w') \<Longrightarrow> get w' = get w \<and> cm_Get cl w' = cm_Get cl w"
  unfolding lawful_objects_def label_namespace_def by (auto split: sum.splits prod.splits option.splits)

lemma lawful_count:
  assumes "lawful_objects cl ic get" and "count_in cl w = (e, w')"
  shows "get w' = get w"
proof -
  have "get (snd (count_round cl id mgr 1 w)) = get w"
    using assms(1) unfolding lawful_objects_def count_round_def
    by (auto split: sum.splits prod.splits) (metis snd_conv)+
  then show ?thesis using assms(2) unfolding count_in_def updateRefCount_def count_once
    by (auto split: sum.splits prod.splits option.splits)
qed

section \<open>Sequences of steps\<close>

lemma and_then_None: "and_then f g w = (None, w') \<longleftrightarrow> (\<exists>w1. f w = (None, w1) \<and> g w1 = (None, w'))"
  by (auto simp: and_then_def split: prod.splits option.splits)

text \<open>A reflexive and transitive relation that every step keeps is kept by a sequence.\<close>

definition keeps :: "('w \<Rightarrow> 'w \<Rightarrow> bool) \<Rightarrow> ('w \<Rightarrow> 'e option \<times> 'w) \<Rightarrow> bool" where
  "keeps R f \<longleftrightarrow> (\<forall>w. R w (snd (f w)))"

lemma keeps_and_then: "transp R \<Longrightarrow> keeps R f \<Longrightarrow> keeps R g \<Longrightarrow> keeps R (and_then f g)"
  unfolding keeps_def and_then_def by (auto split: prod.splits option.splits) (metis snd_conv transpE)+

section \<open>Rolling back\<close>

definition owned :: "string \<Rightarrow> (kind \<times> string) set" where
  "owned ns = {(KServiceAccount, mgr), (KRole, mgr), (KRoleBinding, mgr), (KService, mgr), (KDeployment, mgr),
     (KMutatingWebhookConfiguration, webhook_name ns)}"

lemma deleteResource_get:
  "lawful_objects cl ic get \<Longrightarrow> get (deleteResource ic ns w) x = (if x \<in> owned ns then None else get w x)"
  by (simp add: deleteResource_def lawful_Delete(1) owned_def)

lemma deleteResource_cm: "lawful_objects cl ic get \<Longrightarrow> cm_Get cl (deleteResource ic ns w) = cm_Get cl w"
  by (simp add: deleteResource_def lawful_Delete(2))

text \<open>The objects that installing may change, and how the secret may change.\<close>

definition within :: "'w inst_client \<Rightarrow> string \<Rightarrow> ('w \<Rightarrow> kind \<times> string \<rightharpoonup> k8s_object) \<Rightarrow> 'w \<Rightarrow> 'w \<Rightarrow> bool" where
  "within ic ns get w w' \<longleftrightarrow>
     (\<forall>x. x \<notin> owned ns \<longrightarrow> x \<noteq> (KSecret, mgr) \<longrightarrow> get w' x = get w x)
   \<and> (get w' (KSecret, mgr) = get w (KSecret, mgr)
      \<or> get w (KSecret, mgr) = None \<and> (\<exists>crt key. ic_Cert ic (GetTlsDomain ns) = Inr (crt, key) \<and> get w' (KSecret, mgr) = Some (mgr_secret crt key)))"

lemma within_transp: "transp (within ic ns get)"
  unfolding transp_def within_def by (intro allI impI conjI) (metis, elim conjE disjE, auto)

lemma within_same: "get w' = get w \<Longrightarrow> within ic ns get w w'"
  by (simp add: within_def)

lemma within_created:
  assumes "lawful_objects cl ic get" and "ic_Create ic w k n ob = (e, w')" and "(k, n) \<in> owned ns"
  shows "within ic ns get w w'"
proof (cases e)
  case None
  with lawful_created [OF assms(1)] assms(2) have "get w' = (get w)((k, n) \<mapsto> ob)" by blast
  moreover have "(k, n) \<noteq> (KSecret, mgr)" using assms(3) by (auto simp: owned_def)
  ultimately show ?thesis using assms(3) by (auto simp: within_def)
next
  case (Some e')
  with lawful_not_created [OF assms(1)] assms(2) show ?thesis by (auto intro: within_same)
qed

lemma keeps_create_all:
  "lawful_objects cl ic get \<Longrightarrow> \<forall>x \<in> set obs. (fst x, mgr) \<in> owned ns \<Longrightarrow> keeps (within ic ns get) (create_all ic obs)"
proof (induction obs)
  case Nil
  then show ?case by (simp add: keeps_def within_same)
next
  case (Cons x obs)
  obtain k ob where x: "x = (k, ob)" by (cases x)
  have e: "create_all ic (x # obs) = and_then (\<lambda>w. case ic_Create ic w k mgr ob of (Some e, w') \<Rightarrow> (Some (InstCreate k e), w') | (None, w') \<Rightarrow> (None, w'))
      (create_all ic obs)"
    by (auto simp: x and_then_def fun_eq_iff split: prod.splits option.splits)
  have "keeps (within ic ns get) (\<lambda>w. case ic_Create ic w k mgr ob of (Some e, w') \<Rightarrow> (Some (InstCreate k e), w') | (None, w') \<Rightarrow> (None, w'))"
    using Cons.prems by (auto simp: keeps_def x split: prod.splits option.splits intro: within_created)
  with Cons show ?case unfolding e by (intro keeps_and_then within_transp) auto
qed

lemma keeps_secret:
  assumes "lawful_objects cl ic get" and "ic_Cert ic (GetTlsDomain ns) = Inr (crt, key)"
  shows "keeps (within ic ns get) (create_secret ic crt key)"
  unfolding keeps_def
proof
  fix w
  obtain e w' where c: "ic_Create ic w KSecret mgr (mgr_secret crt key) = (e, w')" by (cases "ic_Create ic w KSecret mgr (mgr_secret crt key)")
  have s: "snd (create_secret ic crt key w) = w'" by (simp add: create_secret_def c split: option.splits obj_err.splits)
  show "within ic ns get w (snd (create_secret ic crt key w))"
  proof (cases e)
    case None
    with lawful_created [OF assms(1)] c have "get w (KSecret, mgr) = None" "get w' = (get w)((KSecret, mgr) \<mapsto> mgr_secret crt key)" by blast+
    with assms(2) show ?thesis by (auto simp: s within_def)
  next
    case (Some e')
    with lawful_not_created [OF assms(1)] c show ?thesis by (simp add: s within_same)
  qed
qed

lemma keeps_webhook:
  "lawful_objects cl ic get \<Longrightarrow> keeps (within ic ns get) (create_webhook ic ns crt)"
  unfolding keeps_def
proof
  fix w
  assume l: "lawful_objects cl ic get"
  let ?c = "ic_Create ic w KMutatingWebhookConfiguration (webhook_name ns) (OWebhook (mgr_webhook ns crt))"
  have "snd (create_webhook ic ns crt w) = snd ?c" by (simp add: create_webhook_def split: prod.splits option.splits obj_err.splits)
  with within_created [OF l, of w KMutatingWebhookConfiguration "webhook_name ns" "OWebhook (mgr_webhook ns crt)" "fst ?c" "snd ?c" ns]
  show "within ic ns get w (snd (create_webhook ic ns crt w))" by (simp add: owned_def)
qed

lemma keeps_count: "lawful_objects cl ic get \<Longrightarrow> keeps (within ic ns get) (count_in cl)"
  unfolding keeps_def by (metis lawful_count prod.collapse within_same)

lemma keeps_label: "lawful_objects cl ic get \<Longrightarrow> keeps (within ic ns get) (label_namespace ic ns)"
  unfolding keeps_def by (metis lawful_label prod.collapse within_same)

lemma keeps_pure: "keeps (within ic ns get) (\<lambda>w. (f w, w))"
  by (simp add: keeps_def within_same)

lemma keeps_start:
  assumes "lawful_objects cl ic get" and "ic_Cert ic (GetTlsDomain ns) = Inr (crt, key)"
  shows "keeps (within ic ns get) (start_manager cl ic img rounds ns crt key)"
  unfolding start_manager_def
  by (intro keeps_and_then within_transp keeps_secret [OF assms] keeps_pure keeps_create_all [OF assms(1)] keeps_webhook [OF assms(1)] keeps_count [OF assms(1)])
    (simp add: owned_def)

lemma keeps_install:
  assumes "lawful_objects cl ic get"
  shows "keeps (within ic ns get) (install cl ic img rounds ns)"
proof -
  have "keeps (within ic ns get) (\<lambda>w. case ic_Cert ic (GetTlsDomain ns) of Inl e \<Rightarrow> (Some (InstCert e), w)
      | Inr (crt, key) \<Rightarrow> start_manager cl ic img rounds ns crt key w)"
  proof (cases "ic_Cert ic (GetTlsDomain ns)")
    case (Inr p)
    then obtain crt key where "ic_Cert ic (GetTlsDomain ns) = Inr (crt, key)" by (cases p) auto
    from keeps_start [OF assms this] this show ?thesis by simp
  qed (simp add: keeps_pure)
  then show ?thesis unfolding install_def
    by (intro keeps_and_then within_transp keeps_label [OF assms] keeps_create_all [OF assms]) (simp_all add: owned_def)
qed

section \<open>A complete installation\<close>

definition put_objects :: "(kind \<times> k8s_object) list \<Rightarrow> (kind \<times> string \<rightharpoonup> k8s_object) \<Rightarrow> (kind \<times> string \<rightharpoonup> k8s_object)" where
  "put_objects obs f = fold (\<lambda>(k, ob) g. g((k, mgr) \<mapsto> ob)) obs f"

lemma create_all_success:
  "lawful_objects cl ic get \<Longrightarrow> create_all ic obs w = (None, w') \<Longrightarrow> get w' = put_objects obs (get w) \<and> cm_Get cl w' = cm_Get cl w"
proof (induction obs arbitrary: w)
  case (Cons x obs)
  obtain k ob where x: "x = (k, ob)" by (cases x)
  from Cons.prems obtain w1 where c: "ic_Create ic w k mgr ob = (None, w1)" "create_all ic obs w1 = (None, w')"
    by (auto simp: x split: prod.splits option.splits)
  from Cons.IH [OF Cons.prems(1) c(2)] lawful_created [OF Cons.prems(1) c(1)] show ?case by (simp add: put_objects_def x fun_upd_def)
qed (simp add: put_objects_def)

lemma create_secret_success:
  assumes "lawful_objects cl ic get" and "create_secret ic crt key w = (None, w')"
  shows "get w' = (get w)((KSecret, mgr) := (case get w (KSecret, mgr) of None \<Rightarrow> Some (mgr_secret crt key) | Some s \<Rightarrow> Some s))
    \<and> cm_Get cl w' = cm_Get cl w"
proof -
  obtain e where c: "ic_Create ic w KSecret mgr (mgr_secret crt key) = (e, w')" and e: "e = None \<or> e = Some ObjExists"
    using assms(2) by (auto simp: create_secret_def split: prod.splits option.splits obj_err.splits)
  show ?thesis
  proof (cases e)
    case None
    with lawful_created [OF assms(1)] c have "get w (KSecret, mgr) = None" "get w' = (get w)((KSecret, mgr) \<mapsto> mgr_secret crt key)"
      "cm_Get cl w' = cm_Get cl w" by blast+
    then show ?thesis by simp
  next
    case (Some e')
    with e c lawful_not_created [OF assms(1)] obtain s where "get w (KSecret, mgr) = Some s" "get w' = get w" "cm_Get cl w' = cm_Get cl w" by blast
    then show ?thesis by (simp add: fun_eq_iff)
  qed
qed

lemma create_webhook_success:
  assumes "lawful_objects cl ic get" and "create_webhook ic ns crt w = (None, w')" and "get w (KMutatingWebhookConfiguration, webhook_name ns) = None"
  shows "(get w' = get w \<or> get w' = (get w)((KMutatingWebhookConfiguration, webhook_name ns) \<mapsto> OWebhook (mgr_webhook ns crt)))
    \<and> cm_Get cl w' = cm_Get cl w"
proof -
  obtain e where c: "ic_Create ic w KMutatingWebhookConfiguration (webhook_name ns) (OWebhook (mgr_webhook ns crt)) = (e, w')"
    using assms(2) by (auto simp: create_webhook_def split: prod.splits option.splits obj_err.splits)
  show ?thesis
  proof (cases e)
    case None
    with lawful_created [OF assms(1)] c show ?thesis by blast
  next
    case (Some e')
    with lawful_not_created [OF assms(1)] c show ?thesis by blast
  qed
qed

lemma count_in_success:
  assumes "lawful_objects cl ic get" and "lawful_patch cl" and "cm_Get cl w mgr = Inr cm" and "count_in cl w = (None, w')"
  shows "get w' = get w \<and> (\<exists>c. cm_Get cl w' mgr = Inr c
    \<and> gomap_get (cm_data c) KeyRefCount = Some (show_int (new_count (data_at (cm_data cm) KeyRefCount) 1))
    \<and> (\<forall>k. k \<noteq> KeyRefCount \<longrightarrow> gomap_get (cm_data c) k = gomap_get (cm_data cm) k))"
proof -
  from assms(4) obtain m where "updateRefCount cl id mgr 1 w = ((m, None), w')"
    by (auto simp: count_in_def split: prod.splits option.splits)
  from update_count_stored [OF assms(2,3) this] lawful_count [OF assms(1,4)] assms(3) show ?thesis by auto
qed

text \<open>Every port of the service is a port of a container of the pods it selects, and the webhook calls one of them.\<close>

definition port_open :: "mgr_container list \<Rightarrow> ServicePort \<Rightarrow> bool" where
  "port_open cs p \<longleftrightarrow> list_ex (\<lambda>c. list_ex (\<lambda>q. cp_Name q = sp_Name p \<and> cp_ContainerPort q = sp_TargetPort p \<and> cp_Protocol q = sp_Protocol p) (ct_Ports c)) cs"

lemma mgr_ports_open: "list_all (port_open (dp_Containers (mgr_deployment img))) mgr_ports"
  by (simp add: mgr_ports_def port_open_def mgr_deployment_def mgr_vpn_def mgr_control_plane_def mgr_webhook_server_def container_port_def svc_port_def)

text \<open>The certificate the webhook serves, which it reads from the secret.\<close>

definition served_cert :: "k8s_object option \<Rightarrow> string option" where
  "served_cert ob = (case ob of Some (OSecret data _) \<Rightarrow> map_of data TLSCertKey | _ \<Rightarrow> None)"

lemma served_cert_new: "served_cert (Some (mgr_secret crt key)) = Some crt"
  by (simp add: served_cert_def mgr_secret_def)

definition installed :: "'w inst_client \<Rightarrow> string \<Rightarrow> string \<Rightarrow> string \<Rightarrow> string \<Rightarrow> (kind \<times> string \<rightharpoonup> k8s_object) \<Rightarrow> (kind \<times> string \<rightharpoonup> k8s_object) \<Rightarrow> bool" where
  "installed ic img ns crt key old new \<longleftrightarrow>
     new (KServiceAccount, mgr) = Some mgr_account \<and> new (KRole, mgr) = Some mgr_role \<and> new (KRoleBinding, mgr) = Some (mgr_binding ns)
   \<and> new (KService, mgr) = Some mgr_service \<and> new (KDeployment, mgr) = Some (ODeployment (mgr_deployment img))
   \<and> new (KMutatingWebhookConfiguration, webhook_name ns) \<in> {None, Some (OWebhook (mgr_webhook ns crt))}
   \<and> new (KSecret, mgr) = (case old (KSecret, mgr) of None \<Rightarrow> Some (mgr_secret crt key) | Some s \<Rightarrow> Some s)"

lemma start_success:
  assumes "lawful_objects cl ic get" and "lawful_patch cl" and "cm_Get cl w mgr = Inr cm"
    and "get w = put_objects [(KServiceAccount, mgr_account), (KRole, mgr_role), (KRoleBinding, mgr_binding ns), (KService, mgr_service)] old"
    and "old (KMutatingWebhookConfiguration, webhook_name ns) = None"
    and "start_manager cl ic img rounds ns crt key w = (None, w')"
  shows "installed ic img ns crt key old (get w') \<and> (\<exists>c. cm_Get cl w' mgr = Inr c
    \<and> gomap_get (cm_data c) KeyRefCount = Some (show_int (new_count (data_at (cm_data cm) KeyRefCount) 1))
    \<and> (\<forall>k. k \<noteq> KeyRefCount \<longrightarrow> gomap_get (cm_data c) k = gomap_get (cm_data cm) k))"
proof -
  from assms(6) obtain w1 w2 w3 where s: "create_secret ic crt key w = (None, w1)" "create_all ic [(KDeployment, ODeployment (mgr_deployment img))] w1 = (None, w2)"
    "create_webhook ic ns crt w2 = (None, w3)" "count_in cl w3 = (None, w')"
    unfolding start_manager_def and_then_None by (auto split: option.splits if_splits)
  note s1 = create_secret_success [OF assms(1) s(1)] and s2 = create_all_success [OF assms(1) s(2)]
  have "get w2 (KMutatingWebhookConfiguration, webhook_name ns) = None"
    using s1 s2 assms(4,5) by (simp add: put_objects_def)
  note s3 = create_webhook_success [OF assms(1) s(3) this]
  have "cm_Get cl w3 mgr = Inr cm" using s1 s2 s3 assms(3) by simp
  note s4 = count_in_success [OF assms(1,2) this s(4)]
  have "installed ic img ns crt key old (get w')"
    using s1 s2 s3 s4 assms(4,5) unfolding installed_def by (elim conjE disjE) (simp_all add: put_objects_def)
  with s4 show ?thesis by blast
qed

text \<open>C4: a successful installation is complete and consistent.  Every object is stored as the code describes it, all ports of the
  service are open in its pods, the client is counted in, and no other key of the config map changes.  The certificate the webhook serves is
  the one the API server is told to trust exactly if there was no secret before, or one with this certificate: the secret of an
  earlier installation is neither deleted nor replaced, although a new certificate is made.\<close>

theorem createOutboundPod_installs:
  assumes "lawful_objects cl ic get" and "lawful_patch cl" and "\<not> (ic_GetService ic w mgr \<and> ic_AttachablePod ic w mgr)"
    and "cm_Get cl w mgr = Inr cm" and "createOutboundPod cl ic img rounds ns w = (None, w')"
  shows "\<exists>crt key. ic_Cert ic (GetTlsDomain ns) = Inr (crt, key) \<and> installed ic img ns crt key (get w) (get w')
    \<and> list_all (port_open (dp_Containers (mgr_deployment img))) mgr_ports
    \<and> (\<exists>c. cm_Get cl w' mgr = Inr c
        \<and> gomap_get (cm_data c) KeyRefCount = Some (show_int (new_count (data_at (cm_data cm) KeyRefCount) 1))
        \<and> (\<forall>k. k \<noteq> KeyRefCount \<longrightarrow> gomap_get (cm_data c) k = gomap_get (cm_data cm) k))
    \<and> (served_cert (get w' (KSecret, mgr)) = Some (mw_CABundle (mgr_webhook ns crt))
       \<longleftrightarrow> get w (KSecret, mgr) = None \<or> served_cert (get w (KSecret, mgr)) = Some crt)"
proof -
  let ?w = "deleteResource ic ns w"
  from assms(3,5) have "install cl ic img rounds ns ?w = (None, w')"
    unfolding createOutboundPod_def by (auto split: prod.splits option.splits if_splits)
  then obtain w1 w2 crt key where s: "label_namespace ic ns ?w = (None, w1)"
    "create_all ic [(KServiceAccount, mgr_account), (KRole, mgr_role), (KRoleBinding, mgr_binding ns), (KService, mgr_service)] w1 = (None, w2)"
    "ic_Cert ic (GetTlsDomain ns) = Inr (crt, key)" "start_manager cl ic img rounds ns crt key w2 = (None, w')"
    unfolding install_def and_then_None by (cases "ic_Cert ic (GetTlsDomain ns)") (auto simp del: create_all.simps)
  note s1 = lawful_label [OF assms(1) s(1)] and s2 = create_all_success [OF assms(1) s(2)]
  have cm: "cm_Get cl w2 mgr = Inr cm" using s1 s2 deleteResource_cm [OF assms(1)] assms(4) by simp
  have old: "get w1 (KMutatingWebhookConfiguration, webhook_name ns) = None" "get w1 (KSecret, mgr) = get w (KSecret, mgr)"
    using s1 deleteResource_get [OF assms(1)] by (simp_all add: owned_def)
  from start_success [OF assms(1,2) cm conjunct1 [OF s2] old(1) s(4)] have i: "installed ic img ns crt key (get w1) (get w')"
    and c: "\<exists>c. cm_Get cl w' mgr = Inr c
      \<and> gomap_get (cm_data c) KeyRefCount = Some (show_int (new_count (data_at (cm_data cm) KeyRefCount) 1))
      \<and> (\<forall>k. k \<noteq> KeyRefCount \<longrightarrow> gomap_get (cm_data c) k = gomap_get (cm_data cm) k)" by blast+
  have i': "installed ic img ns crt key (get w) (get w')" using i by (simp add: installed_def old(2))
  have "served_cert (get w' (KSecret, mgr)) = Some (mw_CABundle (mgr_webhook ns crt))
       \<longleftrightarrow> get w (KSecret, mgr) = None \<or> served_cert (get w (KSecret, mgr)) = Some crt"
    using i' served_cert_new unfolding installed_def by (cases "get w (KSecret, mgr)") (simp_all add: mgr_webhook_def)
  with s(3) i' c mgr_ports_open show ?thesis by blast
qed


section \<open>An API that obeys the laws\<close>

record inst_world =
  iw_cms :: store
  iw_objs :: "kind \<times> string \<rightharpoonup> k8s_object"

definition iw_cm :: "inst_world cm_client" where
  "iw_cm =
     \<lparr>cm_Get = \<lambda>w. st_get (iw_cms w),
      cm_Create = \<lambda>w c. map_prod id (\<lambda>s. w\<lparr>iw_cms := s\<rparr>) (st_create (iw_cms w) c),
      cm_Update = \<lambda>w c. map_prod id (\<lambda>s. w\<lparr>iw_cms := s\<rparr>) (st_update (iw_cms w) c),
      cm_Patch = \<lambda>w n p. map_prod id (\<lambda>s. w\<lparr>iw_cms := s\<rparr>) (st_patch (iw_cms w) n p)\<rparr>"

definition iw_client :: "bool \<Rightarrow> inst_world inst_client" where
  "iw_client ready =
     \<lparr>ic_GetService = \<lambda>w n. iw_objs w (KService, n) \<noteq> None,
      ic_AttachablePod = \<lambda>w n. iw_objs w (KDeployment, n) \<noteq> None,
      ic_GetNamespace = \<lambda>w n. Inr None,
      ic_UpdateNamespace = \<lambda>w n l. (None, w),
      ic_Create = \<lambda>w k n ob. if iw_objs w (k, n) = None then (None, w\<lparr>iw_objs := (iw_objs w)((k, n) \<mapsto> ob)\<rparr>) else (Some ObjExists, w),
      ic_Delete = \<lambda>k n w. w\<lparr>iw_objs := (iw_objs w)((k, n) := None)\<rparr>,
      ic_Cert = \<lambda>domain. Inr (''new'', ''key''),
      ic_Watch = \<lambda>w. None,
      ic_Pods = \<lambda>w k. Inr [\<lparr>st_Deleting = False, st_Ready = ready, st_ContainersReady = [True]\<rparr>]\<rparr>"

lemma lawful_iw: "lawful_objects iw_cm (iw_client ready) iw_objs"
  unfolding lawful_objects_def iw_cm_def iw_client_def by auto

lemma lawful_patch_iw: "lawful_patch iw_cm"
  using lawful_patch_store unfolding lawful_patch_def iw_cm_def store_client_simps
  by (auto simp: map_prod_def split: prod.splits)

definition stale_secret :: k8s_object where "stale_secret = mgr_secret ''old'' ''key''"

definition stale_world :: inst_world where
  "stale_world = \<lparr>iw_cms = count_world 2 ''0'', iw_objs = [(KSecret, mgr) \<mapsto> stale_secret]\<rparr>"

lemma count_in_iw:
  "count_in iw_cm \<lparr>iw_cms = count_world v str, iw_objs = f\<rparr> = (None, \<lparr>iw_cms = count_world (Suc v) (show_int (new_count str 1)), iw_objs = f\<rparr>)"
proof -
  have u: "updateRefCount iw_cm id mgr 1 \<lparr>iw_cms = count_world v str, iw_objs = f\<rparr>
    = ((new_count str 1, None), \<lparr>iw_cms = count_world (Suc v) (show_int (new_count str 1)), iw_objs = f\<rparr>)"
    unfolding updateRefCount_def count_once count_round_def iw_cm_def
    by (simp add: count_get count_patch) (simp add: count_cm_def data_at_def atoi_count)
  show ?thesis by (simp add: count_in_def u)
qed

lemma stale_install:
  "\<exists>w'. createOutboundPod iw_cm (iw_client True) ''img'' 3 ''default'' stale_world = (None, w')"
  "\<exists>w'. createOutboundPod iw_cm (iw_client False) ''img'' 3 ''default'' stale_world = (Some InstTimeout, w')"
proof -
  have p: "pod_is_ready \<lparr>st_Deleting = False, st_Ready = r, st_ContainersReady = [True]\<rparr> = r" for r
    by (simp add: pod_is_ready_def)
  have three: "(3 :: nat) = Suc (Suc (Suc 0))" by simp
  note c = createOutboundPod_def install_def start_manager_def and_then_def label_namespace_def create_secret_def create_webhook_def
    deleteResource_def iw_client_def stale_world_def p three
  show "\<exists>w'. createOutboundPod iw_cm (iw_client True) ''img'' 3 ''default'' stale_world = (None, w')"
    by (simp add: c count_in_iw)
  show "\<exists>w'. createOutboundPod iw_cm (iw_client False) ''img'' 3 ''default'' stale_world = (Some InstTimeout, w')"
    by (simp add: c)
qed

lemma stale_not_running: "\<not> (ic_GetService (iw_client r) stale_world mgr \<and> ic_AttachablePod (iw_client r) stale_world mgr)"
  by (simp add: iw_client_def stale_world_def)

lemma stale_cm: "cm_Get iw_cm stale_world mgr = Inr (count_cm 2 ''0'')"
  by (simp add: iw_cm_def stale_world_def count_get)


theorem createOutboundPod_installs_witness:
  "\<exists>w'. createOutboundPod iw_cm (iw_client True) ''img'' 3 ''default'' stale_world = (None, w')
    \<and> iw_objs w' (KDeployment, mgr) = Some (ODeployment (mgr_deployment ''img''))
    \<and> served_cert (iw_objs w' (KSecret, mgr)) = Some ''old'' \<and> served_cert (iw_objs w' (KSecret, mgr)) \<noteq> Some ''new''"
proof -
  obtain w' where r: "createOutboundPod iw_cm (iw_client True) ''img'' 3 ''default'' stale_world = (None, w')" using stale_install(1) by blast
  have "iw_objs stale_world (KSecret, mgr) = Some stale_secret" "served_cert (Some stale_secret) = Some ''old''"
    by (simp_all add: stale_world_def stale_secret_def served_cert_new)
  with createOutboundPod_installs [OF lawful_iw lawful_patch_iw stale_not_running stale_cm r] r show ?thesis
    by (auto simp: installed_def)
qed


end
