(* ===== verification/Routes.thy ===== *)
theory Routes
  imports Ip_Text Hosts_Dns Tun_Client
begin

text \<open>
  The routes into the tunnel and the extra domains of a connection: \<^verbatim>\<open>addRouteDynamic\<close>, \<^verbatim>\<open>addExtraRoute\<close> and
  \<^verbatim>\<open>GetTunDeviceName\<close> of \<^verbatim>\<open>src/pkg/handler/connect.go\<close>, and the addresses of the cluster's DNS servers (\<^verbatim>\<open>GetDNSIPFromDnsPod\<close>,
  \<^verbatim>\<open>GetDNSServiceIPFromPod\<close> of \<^verbatim>\<open>src/pkg/util/dns.go\<close>).  What the cluster and the routing table of the host answer are
  arguments; the goroutines only add routes, so the routes of a run are the list of those that its events add, in any order.
\<close>

section \<open>Routes to pods and services\<close>

definition host_mask :: "ip \<Rightarrow> ipmask" where
  "host_mask a = (if To4 a \<noteq> [] then CIDRMask 32 32 else CIDRMask 128 128)"

text \<open>\<open>iface\<close> is the interface the host would use now, \<open>None\<close> when the lookup fails.\<close>

definition addRouteFunc :: "string \<Rightarrow> ip list \<Rightarrow> string \<Rightarrow> string option \<Rightarrow> ipnet option" where
  "addRouteFunc tunName apiServerIPs ip iface =
     (case ParseIP ip of
        None \<Rightarrow> None
      | Some a \<Rightarrow>
          if ip \<in> set (map ip_String apiServerIPs) then None
          else if iface = Some tunName then None
          else Some \<lparr>net_IP = a, net_Mask = host_mask a\<rparr>)"

record pod_event =
  pe_HostNetwork :: bool
  pe_PodIP :: string
  pe_iface :: "string option"

record svc_event =
  se_ClusterIP :: string
  se_iface :: "string option"

definition pod_route :: "string \<Rightarrow> ip list \<Rightarrow> pod_event \<Rightarrow> ipnet option" where
  "pod_route tunName apis e = (if pe_HostNetwork e then None else addRouteFunc tunName apis (pe_PodIP e) (pe_iface e))"

definition svc_route :: "string \<Rightarrow> ip list \<Rightarrow> svc_event \<Rightarrow> ipnet option" where
  "svc_route tunName apis e = addRouteFunc tunName apis (se_ClusterIP e) (se_iface e)"

text \<open>The listing of all namespaces, else that of the own namespace.\<close>

definition first_listing :: "'e + 'a list \<Rightarrow> 'e + 'a list \<Rightarrow> 'e + 'a list" where
  "first_listing every own = (case every of Inr xs \<Rightarrow> Inr xs | Inl _ \<Rightarrow> own)"

text \<open>
  The error, and the routes added for the objects listed and for the events watched.  The watch of the pods goes on when the services
  cannot be listed.
\<close>

definition addRouteDynamic ::
  "'e option \<Rightarrow> 'e + string \<Rightarrow> ip list \<Rightarrow> 'e + pod_event list \<Rightarrow> 'e + pod_event list \<Rightarrow> pod_event list
   \<Rightarrow> 'e + svc_event list \<Rightarrow> 'e + svc_event list \<Rightarrow> svc_event list \<Rightarrow> 'e option \<times> ipnet list" where
  "addRouteDynamic router tun apis allPods ownPods podEvents allSvcs ownSvcs svcEvents =
     (case router of
        Some e \<Rightarrow> (Some e, [])
      | None \<Rightarrow>
          (case tun of
             Inl e \<Rightarrow> (Some e, [])
           | Inr tunName \<Rightarrow>
               (case first_listing allPods ownPods of
                  Inl e \<Rightarrow> (Some e, [])
                | Inr pods \<Rightarrow>
                    (let rs = List.map_filter (pod_route tunName apis) (pods @ podEvents) in
                     case first_listing allSvcs ownSvcs of
                       Inl e \<Rightarrow> (Some e, rs)
                     | Inr svcs \<Rightarrow> (None, rs @ List.map_filter (svc_route tunName apis) (svcs @ svcEvents))))))"

definition GetTunDeviceName :: "ipnet option \<Rightarrow> ipnet option \<Rightarrow> net_interface list \<Rightarrow> device_err + string" where
  "GetTunDeviceName v4 v6 ifs =
     map_sum id if_name (GetTunDevice ((case v4 of None \<Rightarrow> [] | Some n \<Rightarrow> [net_IP n]) @ (case v6 of None \<Rightarrow> [] | Some n \<Rightarrow> [net_IP n])) ifs)"

section \<open>The DNS servers of the cluster\<close>

datatype 'e dns_err = DnsErr 'e | NoDnsServer

record dns_pod =
  dp_Running :: bool
  dp_Deleting :: bool
  dp_PodIP :: string

definition GetDNSIPFromDnsPod :: "'e + string list \<Rightarrow> 'e + dns_pod list \<Rightarrow> 'e dns_err + string list" where
  "GetDNSIPFromDnsPod svcs pods =
     (case svcs of
        Inl e \<Rightarrow> Inl (DnsErr e)
      | Inr clusterIPs \<Rightarrow>
          (let ips = filter (\<lambda>s. s \<noteq> []) clusterIPs
             @ (case pods of Inl _ \<Rightarrow> [] | Inr ps \<Rightarrow> map dp_PodIP (filter (\<lambda>p. dp_Running p \<and> \<not> dp_Deleting p) ps))
           in if ips = [] then Inl NoDnsServer else Inr ips))"

text \<open>The servers of the pod's \<^verbatim>\<open>resolv.conf\<close>, replaced by those of the cluster when there are any; at most two.\<close>

definition GetDNSServiceIPFromPod :: "'e + string list \<Rightarrow> 'e dns_err + string list \<Rightarrow> 'e + string list" where
  "GetDNSServiceIPFromPod resolvConf dnsIPs =
     (case resolvConf of
        Inl e \<Rightarrow> Inl e
      | Inr servers \<Rightarrow>
          (let s = (case dnsIPs of Inr (ip # ips) \<Rightarrow> ip # ips | _ \<Rightarrow> servers)
           in Inr (if 2 < length s then take 2 s else s)))"

section \<open>Routes to extra domains\<close>

definition IsLoopback :: "ip \<Rightarrow> bool" where
  "IsLoopback p = (case To4 p of b # _ \<Rightarrow> b = 127 | [] \<Rightarrow> ip_Equal p (replicate 15 0 @ [1]))"

definition add_extra_route :: "string \<Rightarrow> string \<Rightarrow> string option \<Rightarrow> ipnet option" where
  "add_extra_route tunName ip iface =
     (case ParseIP ip of
        None \<Rightarrow> None
      | Some a \<Rightarrow> if iface = Some tunName then None else Some \<lparr>net_IP = a, net_Mask = host_mask a\<rparr>)"

record extra_state =
  xs_routes :: "ipnet list"
  xs_hosts :: "Entry list"

definition add_host :: "string \<Rightarrow> (string \<Rightarrow> string option) \<Rightarrow> string \<Rightarrow> string \<Rightarrow> string \<Rightarrow> extra_state \<Rightarrow> extra_state" where
  "add_host tunName iface domain ip host st =
     st\<lparr>xs_routes := xs_routes st @ (case add_extra_route tunName ip (iface ip) of None \<Rightarrow> [] | Some r \<Rightarrow> [r]),
        xs_hosts := xs_hosts st @ [\<lparr>en_IP = host, en_Domain = domain\<rparr>]\<rparr>"

text \<open>The first loop: it stops at the first domain that \<^verbatim>\<open>dig\<close> cannot resolve, and says whether it came to the end.\<close>

fun dig_loop :: "string \<Rightarrow> (string \<Rightarrow> string option) \<Rightarrow> (string \<Rightarrow> string option) \<Rightarrow> string list \<Rightarrow> extra_state \<Rightarrow> bool \<times> extra_state" where
  "dig_loop tunName iface dig [] st = (True, st)"
| "dig_loop tunName iface dig (d # ds) st =
     (case Option.bind (dig d) (\<lambda>ip. map_option (\<lambda>a. (ip, a)) (ParseIP ip)) of
        None \<Rightarrow> (False, st)
      | Some (ip, a) \<Rightarrow> dig_loop tunName iface dig ds (add_host tunName iface d ip (ip_String a) st))"

datatype rr = RR_A string | RR_AAAA string | RR_Other

text \<open>The rounds of a query: an error or an empty answer leads to the next one, and the last error is returned; \<open>None\<close> is the error of an empty answer.\<close>

fun query_rounds :: "nat \<Rightarrow> (nat \<Rightarrow> 'e + rr list) \<Rightarrow> nat \<Rightarrow> 'e option \<Rightarrow> 'e option + rr list" where
  "query_rounds 0 ans k err = Inl err"
| "query_rounds (Suc n) ans k err =
     (case ans k of
        Inl e \<Rightarrow> query_rounds n ans (Suc k) (Some e)
      | Inr [] \<Rightarrow> query_rounds n ans (Suc k) None
      | Inr (r # rs) \<Rightarrow> Inr (r # rs))"

definition rr_ip :: "rr \<Rightarrow> string option" where
  "rr_ip r = (case r of
      RR_A s \<Rightarrow> (case ParseIP s of Some a \<Rightarrow> if IsLoopback a then None else Some s | None \<Rightarrow> None)
    | RR_AAAA s \<Rightarrow> (case ParseIP s of Some a \<Rightarrow> if IsLoopback a then None else Some s | None \<Rightarrow> None)
    | RR_Other \<Rightarrow> None)"

datatype 'e extra_err = ExtraErr 'e | ExtraNoDns | Unresolved string

fun query_loop ::
  "string \<Rightarrow> (string \<Rightarrow> string option) \<Rightarrow> (string \<Rightarrow> nat \<Rightarrow> 'e + rr list) \<Rightarrow> string list \<Rightarrow> extra_state \<Rightarrow> 'e extra_err option \<times> extra_state" where
  "query_loop tunName iface ans [] st = (None, st)"
| "query_loop tunName iface ans (d # ds) st =
     (case query_rounds 1000 (ans d) 0 None of
        Inl (Some e) \<Rightarrow> (Some (ExtraErr e), st)
      | Inl None \<Rightarrow> (Some (Unresolved d), st)
      | Inr rs \<Rightarrow>
          (let ips = List.map_filter rr_ip rs;
               st' = fold (\<lambda>s. add_host tunName iface d s s) ips st
           in if ips = [] then (Some (Unresolved d), st') else query_loop tunName iface ans ds st'))"

text \<open>
  The routes to the DNS servers come first.  When \<^verbatim>\<open>dig\<close> fails for one domain, all domains are asked again by the DNS client, also
  those that were resolved already.
\<close>

definition addExtraRoute ::
  "string list \<Rightarrow> 'e + string list \<Rightarrow> 'e option \<Rightarrow> 'e + string \<Rightarrow> 'e option \<Rightarrow> (string \<Rightarrow> string option) \<Rightarrow> (string \<Rightarrow> string option)
   \<Rightarrow> (string \<Rightarrow> nat \<Rightarrow> 'e + rr list) \<Rightarrow> 'e extra_err option \<times> extra_state" where
  "addExtraRoute domains dnsIPs router tun podErr iface dig ans =
     (let st0 = \<lparr>xs_routes = [], xs_hosts = []\<rparr> in
      if domains = [] then (None, st0)
      else (case dnsIPs of
              Inl e \<Rightarrow> (Some (ExtraErr e), st0)
            | Inr ips \<Rightarrow>
                if ips = [] then (Some ExtraNoDns, st0)
                else (case router of
                        Some e \<Rightarrow> (Some (ExtraErr e), st0)
                      | None \<Rightarrow>
                          (case tun of
                             Inl e \<Rightarrow> (Some (ExtraErr e), st0)
                           | Inr tunName \<Rightarrow>
                               (let st1 = st0\<lparr>xs_routes := List.map_filter (\<lambda>ip. add_extra_route tunName ip (iface ip)) ips\<rparr> in
                                case podErr of
                                  Some e \<Rightarrow> (Some (ExtraErr e), st1)
                                | None \<Rightarrow>
                                    (case dig_loop tunName iface dig domains st1 of
                                       (True, st2) \<Rightarrow> (None, st2)
                                     | (False, st2) \<Rightarrow> query_loop tunName iface ans domains st2))))))"

section \<open>A host route holds one address\<close>

lemma apply_mask_ones: "length q = n \<Longrightarrow> apply_mask q (replicate n 255) = q"
  by (induction q arbitrary: n) (auto simp: apply_mask_def)

lemma host_masks: "CIDRMask 32 32 = replicate 4 255" "CIDRMask 128 128 = replicate 16 255"
  by code_simp+

lemma host_route_Contains:
  assumes "length a = 16" and "length b = 4 \<or> length b = 16"
  shows "net_Contains \<lparr>net_IP = a, net_Mask = host_mask a\<rparr> b \<longleftrightarrow> ip_Equal a b"
proof -
  have eq: "ip_Equal a b \<longleftrightarrow> a = To16 b" using ip_Equal_iff_To16 [of a b] assms by (auto simp: To16_def)
  show ?thesis
  proof (cases "To4 a = []")
    case True
    then have n: "networkNumberAndMask \<lparr>net_IP = a, net_Mask = host_mask a\<rparr> = Some (a, replicate 16 255)"
      using assms(1) by (simp add: networkNumberAndMask_def host_mask_def host_masks)
    have "To4 b = [] \<Longrightarrow> length b = 16" using assms(2) by (auto simp: To4_def)
    moreover have "To4 b \<noteq> [] \<Longrightarrow> length (To4 b) = 4" by (rule To4_length)
    ultimately have "net_Contains \<lparr>net_IP = a, net_Mask = host_mask a\<rparr> b \<longleftrightarrow> To4 b = [] \<and> a = b"
      using assms(1) by (auto simp: net_Contains_def n apply_mask_ones)
    also have "\<dots> \<longleftrightarrow> a = To16 b" using True assms by (auto simp: To4_def To16_def v4InV6Prefix_def split: if_splits)
    finally show ?thesis using eq by simp
  next
    case False
    from To4_cases16 [OF assms(1) False] obtain w x y z where t: "To4 a = [w, x, y, z]" "a = v4InV6Prefix @ [w, x, y, z]" by blast
    have n: "networkNumberAndMask \<lparr>net_IP = a, net_Mask = host_mask a\<rparr> = Some ([w, x, y, z], replicate 4 255)"
      using t(1) by (simp add: networkNumberAndMask_def host_mask_def host_masks)
    have "net_Contains \<lparr>net_IP = a, net_Mask = host_mask a\<rparr> b \<longleftrightarrow> To4 b = [w, x, y, z]"
    proof (cases "To4 b = []")
      case True
      then have "length b \<noteq> 4" by (auto simp: To4_def)
      with True show ?thesis by (simp add: net_Contains_def n)
    next
      case False
      from To4_length [OF this] False show ?thesis by (auto simp: net_Contains_def n apply_mask_ones)
    qed
    also have "\<dots> \<longleftrightarrow> a = To16 b"
    proof
      assume "To4 b = [w, x, y, z]"
      then show "a = To16 b" using assms(2) unfolding t(2) by (auto simp: To4_def To16_def split: if_splits) (metis append_take_drop_id)
    next
      assume "a = To16 b"
      then show "To4 b = [w, x, y, z]" using assms(2) unfolding t(2) by (auto simp: To4_def To16_def v4InV6Prefix_def split: if_splits)
    qed
    finally show ?thesis using eq by simp
  qed
qed

section \<open>Properties\<close>

text \<open>The texts of the addresses of an event, as the API server reports them: what Go prints for an address.\<close>

definition printed :: "string \<Rightarrow> bool" where
  "printed s \<longleftrightarrow> s = [] \<or> (\<exists>a. (length a = 4 \<or> length a = 16) \<and> s = ip_String a)"

lemma printed_ip: "length a = 4 \<or> length a = 16 \<Longrightarrow> printed (ip_String a)"
  by (auto simp: printed_def)

lemma addRouteFunc_spares:
  assumes "printed s" and "addRouteFunc tunName apis s iface = Some r" and "b \<in> set apis" and "length b = 4 \<or> length b = 16"
  shows "\<not> net_Contains r b"
proof -
  from assms(2) obtain a where a: "ParseIP s = Some a" "r = \<lparr>net_IP = a, net_Mask = host_mask a\<rparr>" "s \<notin> set (map ip_String apis)"
    by (auto simp: addRouteFunc_def split: option.splits if_splits)
  have "ParseIP [] = None" by (simp add: ParseIP_def)
  with assms(1) a(1) obtain c where c: "length c = 4 \<or> length c = 16" "s = ip_String c" by (auto simp: printed_def)
  have "ParseIP s = Some (To16 c)" using ParseIP_String [OF ip_String_To16(2) [OF c(1)]] ip_String_To16(1) [OF c(1)] c(2) by simp
  with a(1) have ac: "a = To16 c" by simp
  have "ip_String c \<noteq> ip_String b" using a(3) assms(3) c(2) by auto
  then have "\<not> ip_Equal c b" using ip_String_eq_iff [OF c(1) assms(4)] by simp
  moreover have "ip_Equal c b \<longleftrightarrow> ip_Equal a b"
    using ip_Equal_iff_To16 [of c b] ip_Equal_iff_To16 [of a b] c(1) assms(4) ac ip_String_To16(2) [OF c(1)] by (auto simp: To16_def)
  ultimately show ?thesis unfolding a(2) using host_route_Contains [OF _ assms(4)] ac ip_String_To16(2) [OF c(1)] by simp
qed

definition listed :: "'e + 'a list \<Rightarrow> 'a set" where
  "listed r = (case r of Inl _ \<Rightarrow> {} | Inr xs \<Rightarrow> set xs)"

lemma first_listing_set: "first_listing every own = Inr xs \<Longrightarrow> set xs \<subseteq> listed every \<union> listed own"
  by (auto simp: first_listing_def listed_def split: sum.splits)

lemma map_filter_set: "y \<in> set (List.map_filter f xs) \<Longrightarrow> \<exists>x\<in>set xs. f x = Some y"
  by (induction xs) (auto simp: map_filter_simps split: option.splits)



text \<open>Every extra domain that was asked for has an entry in the end.\<close>

lemma add_host_hosts: "set (xs_hosts (add_host t i d ip h st)) = set (xs_hosts st) \<union> {\<lparr>en_IP = h, en_Domain = d\<rparr>}"
  by (simp add: add_host_def)

lemma fold_add_host: "set (xs_hosts (fold (\<lambda>s. add_host t i d s s) ips st)) = set (xs_hosts st) \<union> (\<lambda>s. \<lparr>en_IP = s, en_Domain = d\<rparr>) ` set ips"
  by (induction ips arbitrary: st) (auto simp: add_host_hosts)

lemma dig_loop_hosts:
  "dig_loop t i dig ds st = (b, st') \<Longrightarrow> set (xs_hosts st) \<subseteq> set (xs_hosts st') \<and> (b \<longrightarrow> set ds \<subseteq> en_Domain ` set (xs_hosts st'))"
proof (induction ds arbitrary: st)
  case (Cons d ds)
  show ?case
  proof (cases "Option.bind (dig d) (\<lambda>ip. map_option (\<lambda>a. (ip, a)) (ParseIP ip))")
    case None
    with Cons.prems show ?thesis by simp
  next
    case (Some p)
    obtain ip a where p: "p = (ip, a)" by (cases p)
    from Cons.IH [of "add_host t i d ip (ip_String a) st"] Cons.prems Some p
    show ?thesis by (auto simp: add_host_hosts image_iff) (metis Entry.select_convs(2))
  qed
qed simp

lemma query_loop_hosts:
  "query_loop t i ans ds st = (None, st') \<Longrightarrow> set (xs_hosts st) \<subseteq> set (xs_hosts st') \<and> set ds \<subseteq> en_Domain ` set (xs_hosts st')"
proof (induction ds arbitrary: st)
  case (Cons d ds)
  from Cons.prems obtain rs where q: "query_rounds 1000 (ans d) 0 None = Inr rs" and ne: "List.map_filter rr_ip rs \<noteq> []"
    by (auto simp: Let_def split: sum.splits option.splits if_splits)
  let ?st = "fold (\<lambda>s. add_host t i d s s) (List.map_filter rr_ip rs) st"
  from Cons.prems q ne have "query_loop t i ans ds ?st = (None, st')" by (simp add: Let_def)
  from Cons.IH [OF this] have sub: "set (xs_hosts ?st) \<subseteq> set (xs_hosts st')" "set ds \<subseteq> en_Domain ` set (xs_hosts st')" by auto
  from ne obtain s where "s \<in> set (List.map_filter rr_ip rs)" by (meson last_in_set)
  then have "\<lparr>en_IP = s, en_Domain = d\<rparr> \<in> set (xs_hosts ?st)" by (simp add: fold_add_host)
  with sub(1) have "\<lparr>en_IP = s, en_Domain = d\<rparr> \<in> set (xs_hosts st')" by blast
  then have "d \<in> en_Domain ` set (xs_hosts st')" by (metis Entry.select_convs(2) imageI)
  with sub fold_add_host [of t i d "List.map_filter rr_ip rs" st] show ?case by auto
qed simp

lemma addExtraRoute_resolves:
  assumes "addExtraRoute domains dnsIPs router tun podErr iface dig ans = (None, st)"
  shows "set domains \<subseteq> en_Domain ` set (xs_hosts st)"
proof (cases "domains = []")
  case False
  with assms obtain tunName b st1 st2 where "dig_loop tunName iface dig domains st1 = (b, st2)"
    "if b then st = st2 else query_loop tunName iface ans domains st2 = (None, st)"
    by (auto simp: addExtraRoute_def Let_def split: sum.splits option.splits if_splits prod.splits bool.splits)
  with dig_loop_hosts query_loop_hosts show ?thesis by (metis (full_types))
qed simp

end
