(* ===== verification/Workloads.thy ===== *)
theory Workloads
  imports Go_Strings
begin

text \<open>
  From what the user names to the controller that is changed: \<^verbatim>\<open>GetUnstructuredObject\<close>, \<^verbatim>\<open>GetUnstructuredObjectList\<close> and
  \<^verbatim>\<open>GetUnstructuredObjectBySelector\<close> of \<^verbatim>\<open>src/pkg/util/unstructure.go\<close>, \<^verbatim>\<open>GetTopOwnerReference\<close> and
  \<^verbatim>\<open>GetTopOwnerReferenceBySelector\<close> of \<^verbatim>\<open>src/pkg/util/pod.go\<close>, and \<^verbatim>\<open>PreCheckResource\<close> of \<^verbatim>\<open>src/pkg/handler/connect.go\<close>.
  The queries to the cluster are the arguments \<open>query\<close> (by names) and \<open>sel\<close> (by label); the climb from an object to its
  controller has no bound in the code, and not returning is the value \<open>None\<close>.
\<close>

section \<open>Objects and their controllers\<close>

record OwnerReference =
  ow_APIVersion :: string
  ow_Kind :: string
  ow_Name :: string

text \<open>An object with its kind (\<^verbatim>\<open>GroupKind\<close>), its resource, and the owner that is its controller.\<close>

record Info =
  in_Group :: string
  in_Kind :: string
  in_Resource :: string
  in_Name :: string
  in_Controller :: "OwnerReference option"

definition ParseGroupVersion :: "string \<Rightarrow> (string \<times> string) option" where
  "ParseGroupVersion gv =
     (if gv = [] \<or> gv = ''/'' then Some ([], [])
      else case split_on CHR ''/'' gv of
             [v] \<Rightarrow> Some ([], v)
           | [g, v] \<Rightarrow> Some (g, v)
           | _ \<Rightarrow> None)"

definition GroupKind_String :: "string \<Rightarrow> string \<Rightarrow> string" where
  "GroupKind_String g k = (if g = [] then k else k @ ''.'' @ g)"

definition full_name :: "Info \<Rightarrow> string" where
  "full_name ob = GroupKind_String (in_Group ob) (in_Kind ob) @ ''/'' @ in_Name ob"

definition resource_name :: "Info \<Rightarrow> string" where
  "resource_name ob = GroupKind_String (in_Group ob) (in_Resource ob) @ ''/'' @ in_Name ob"

type_synonym 'e finder = "string list \<Rightarrow> 'e + Info list"

datatype 'e find_err = FindErr 'e | FoundNothing | NotSupported string

definition GetUnstructuredObjectList :: "'e finder \<Rightarrow> string list \<Rightarrow> 'e find_err + Info list" where
  "GetUnstructuredObjectList query ws =
     (case query ws of Inl e \<Rightarrow> Inl (FindErr e) | Inr [] \<Rightarrow> Inl FoundNothing | Inr (ob # obs) \<Rightarrow> Inr (ob # obs))"

definition GetUnstructuredObject :: "'e finder \<Rightarrow> string \<Rightarrow> 'e find_err + Info" where
  "GetUnstructuredObject query w =
     (case query [w] of Inl e \<Rightarrow> Inl (FindErr e) | Inr [] \<Rightarrow> Inl FoundNothing | Inr (ob # obs) \<Rightarrow> Inr ob)"

definition GetUnstructuredObjectBySelector :: "(string \<Rightarrow> 'e + Info list) \<Rightarrow> string \<Rightarrow> 'e find_err + Info list" where
  "GetUnstructuredObjectBySelector sel s =
     (case sel s of Inl e \<Rightarrow> Inl (FindErr e) | Inr [] \<Rightarrow> Inl FoundNothing | Inr (ob # obs) \<Rightarrow> Inr (ob # obs))"

text \<open>The name under which the loop goes on; none when there is no controller or its version is malformed.\<close>

definition owner_workload :: "Info \<Rightarrow> string option" where
  "owner_workload ob =
     (case in_Controller ob of
        None \<Rightarrow> None
      | Some ref \<Rightarrow>
          (case ParseGroupVersion (ow_APIVersion ref) of
             None \<Rightarrow> None
           | Some (g, _) \<Rightarrow> Some (GroupKind_String g (ow_Kind ref) @ ''/'' @ ow_Name ref)))"

partial_function (option) GetTopOwnerReference :: "'e finder \<Rightarrow> string \<Rightarrow> ('e find_err + Info) option" where
  "GetTopOwnerReference query workload =
     (case GetUnstructuredObject query workload of
        Inl e \<Rightarrow> Some (Inl e)
      | Inr ob \<Rightarrow> (case owner_workload ob of None \<Rightarrow> Some (Inr ob) | Some w \<Rightarrow> GetTopOwnerReference query w))"

text \<open>The set of the controllers found, in the order in which they are inserted.\<close>

fun top_owners :: "'e finder \<Rightarrow> Info list \<Rightarrow> string list \<Rightarrow> string list option" where
  "top_owners query [] names = Some names"
| "top_owners query (ob # obs) names =
     Option.bind (GetTopOwnerReference query (resource_name ob)) (\<lambda>r.
       case r of
         Inl _ \<Rightarrow> top_owners query obs names
       | Inr ref \<Rightarrow> top_owners query obs (if in_Resource ref \<noteq> ''services'' then List.insert (full_name ref) names else names))"

definition GetTopOwnerReferenceBySelector :: "'e finder \<Rightarrow> (string \<Rightarrow> 'e + Info list) \<Rightarrow> string \<Rightarrow> ('e find_err + string list) option" where
  "GetTopOwnerReferenceBySelector query sel s =
     (case GetUnstructuredObjectBySelector sel s of
        Inl e \<Rightarrow> Some (Inl e)
      | Inr obs \<Rightarrow> map_option Inr (top_owners query obs []))"

section \<open>Checking the workloads of a connection\<close>

fun traverse :: "('a \<Rightarrow> 'b option) \<Rightarrow> 'a list \<Rightarrow> 'b list option" where
  "traverse f [] = Some []"
| "traverse f (x # xs) = Option.bind (f x) (\<lambda>y. map_option (\<lambda>ys. y # ys) (traverse f xs))"

text \<open>The name of the top controller, or \<open>dflt\<close> when it cannot be found.\<close>

definition lift_owner :: "'e finder \<Rightarrow> string \<Rightarrow> string \<Rightarrow> string option" where
  "lift_owner query dflt w = map_option (\<lambda>r. case r of Inl _ \<Rightarrow> dflt | Inr ob \<Rightarrow> full_name ob) (GetTopOwnerReference query w)"

definition pick_controller :: "(string list \<Rightarrow> string) \<Rightarrow> string \<Rightarrow> 'e find_err + string list \<Rightarrow> 'e find_err + string" where
  "pick_controller first w r =
     (case r of
        Inl _ \<Rightarrow> Inl (NotSupported w)
      | Inr [] \<Rightarrow> Inl (NotSupported w)
      | Inr (n # ns) \<Rightarrow> Inr (first (n # ns)))"

text \<open>
  The second loop for one workload: \<open>svc\<close> is what the API knows of a service, its selector and the names of the pods it selects
  (\<open>None\<close> an error of either listing), and \<open>None\<close> when the service cannot be read or has no selector.  \<open>first\<close> chooses an
  element of a set.
\<close>

definition lift_service ::
  "'e finder \<Rightarrow> (string \<Rightarrow> 'e + Info list) \<Rightarrow> (string \<Rightarrow> (string \<times> string list option) option) \<Rightarrow> (string list \<Rightarrow> string) \<Rightarrow> string
   \<Rightarrow> ('e find_err + string) option" where
  "lift_service query sel svc first w =
     (case GetUnstructuredObject query w of
        Inl e \<Rightarrow> Some (Inl e)
      | Inr ob \<Rightarrow>
          if in_Resource ob \<noteq> ''services'' then Some (Inr w)
          else (case svc (in_Name ob) of
                  None \<Rightarrow> Some (Inr w)
                | Some (_, Some (p # ps)) \<Rightarrow> map_option Inr (lift_owner query w (''pods/'' @ p))
                | Some (s, _) \<Rightarrow>
                    map_option (pick_controller first w) (GetTopOwnerReferenceBySelector query sel s)))"

text \<open>An error ends the loop with the workloads changed so far.\<close>

fun lift_services ::
  "(string \<Rightarrow> ('e find_err + string) option) \<Rightarrow> string list \<Rightarrow> ('e find_err option \<times> string list) option" where
  "lift_services lift [] = Some (None, [])"
| "lift_services lift (w # ws) =
     Option.bind (lift w) (\<lambda>r.
       case r of
         Inl e \<Rightarrow> Some (Some e, w # ws)
       | Inr w' \<Rightarrow> map_option (\<lambda>(e, ws'). (e, w' # ws')) (lift_services lift ws))"

definition PreCheckResource ::
  "'e finder \<Rightarrow> (string \<Rightarrow> 'e + Info list) \<Rightarrow> (string \<Rightarrow> (string \<times> string list option) option) \<Rightarrow> (string list \<Rightarrow> string) \<Rightarrow> string list
   \<Rightarrow> ('e find_err option \<times> string list) option" where
  "PreCheckResource query sel svc first workloads =
     (if workloads = [] then Some (None, workloads)
      else (case GetUnstructuredObjectList query workloads of
              Inl e \<Rightarrow> Some (Some e, workloads)
            | Inr obs \<Rightarrow>
                Option.bind (traverse (\<lambda>w. lift_owner query w w) (map full_name obs))
                  (lift_services (lift_service query sel svc first))))"

section \<open>The climb ends exactly when the chain of controllers does\<close>

definition climb :: "'e finder \<Rightarrow> string \<Rightarrow> string option" where
  "climb query w = (case GetUnstructuredObject query w of Inl _ \<Rightarrow> None | Inr ob \<Rightarrow> owner_workload ob)"

fun ancestor :: "'e finder \<Rightarrow> nat \<Rightarrow> string \<Rightarrow> string option" where
  "ancestor query 0 w = Some w"
| "ancestor query (Suc n) w = Option.bind (climb query w) (ancestor query n)"

lemma top_step:
  "GetTopOwnerReference query w =
     (case climb query w of None \<Rightarrow> Some (GetUnstructuredObject query w) | Some w' \<Rightarrow> GetTopOwnerReference query w')"
  unfolding climb_def by (subst GetTopOwnerReference.simps) (simp split: sum.splits option.splits)

lemma top_ends: "ancestor query n w = None \<Longrightarrow> \<exists>k v. k < n \<and> ancestor query k w = Some v \<and> climb query v = None
    \<and> GetTopOwnerReference query w = Some (GetUnstructuredObject query v)"
proof (induction n arbitrary: w)
  case (Suc n)
  show ?case
  proof (cases "climb query w")
    case None
    with top_step [of query w] show ?thesis by (intro exI [of _ 0] exI [of _ w]) simp
  next
    case (Some w')
    with Suc.prems have "ancestor query n w' = None" by simp
    from Suc.IH [OF this] obtain k v where "k < n" "ancestor query k w' = Some v" "climb query v = None"
      "GetTopOwnerReference query w' = Some (GetUnstructuredObject query v)" by blast
    with Some top_step [of query w] show ?thesis by (intro exI [of _ "Suc k"] exI [of _ v]) simp
  qed
qed simp

lemma top_returns:
  assumes "GetTopOwnerReference query w = Some r"
  shows "\<exists>n. ancestor query n w = None"
proof (rule GetTopOwnerReference.raw_induct [OF _ assms])
  fix rec :: "'a finder \<Rightarrow> string \<Rightarrow> ('a find_err + Info) option" and f w r
  assume IH: "\<And>f w r. rec f w = Some r \<Longrightarrow> \<exists>n. ancestor f n w = None"
    and body: "(case GetUnstructuredObject f w of Inl e \<Rightarrow> Some (Inl e)
      | Inr ob \<Rightarrow> (case owner_workload ob of None \<Rightarrow> Some (Inr ob) | Some w \<Rightarrow> rec f w)) = Some r"
  show "\<exists>n. ancestor f n w = None"
  proof (cases "climb f w")
    case None
    then show ?thesis by (intro exI [of _ "Suc 0"]) simp
  next
    case (Some w')
    with body have "rec f w' = Some r" by (auto simp: climb_def split: sum.splits option.splits)
    from IH [OF this] obtain n where "ancestor f n w' = None" by blast
    with Some show ?thesis by (intro exI [of _ "Suc n"]) simp
  qed
qed

lemma ancestor_add: "ancestor query (m + n) w = Option.bind (ancestor query m w) (ancestor query n)"
proof (induction m arbitrary: w)
  case (Suc m)
  then show ?case by (cases "climb query w") simp_all
qed simp

lemma ancestor_loop: "ancestor query (Suc k) v = Some v \<Longrightarrow> ancestor query (j * Suc k) v = Some v"
proof (induction j)
  case (Suc j)
  have "ancestor query (Suc k + j * Suc k) v = Some v"
    unfolding ancestor_add using Suc by (simp del: ancestor.simps mult_Suc_right)
  then show ?case by (simp only: mult_Suc)
qed simp

lemma ancestor_cycle:
  assumes "ancestor query n w = Some v" and "ancestor query (Suc k) v = Some v"
  shows "ancestor query m w \<noteq> None"
proof
  assume "ancestor query m w = None"
  then have "ancestor query (m + (n + m * k)) w = None" by (simp add: ancestor_add)
  moreover have "m + (n + m * k) = n + m * Suc k" by simp
  ultimately have "ancestor query (m * Suc k) v = None" using assms(1) by (simp add: ancestor_add)
  with ancestor_loop [OF assms(2), of m] show False by simp
qed

text \<open>C37: \<^verbatim>\<open>GetTopOwnerReference\<close> returns exactly when the chain of controllers is finite, and then with the object at
  its end, which has no controller that can be looked up, or with the error of looking it up.  A chain that comes back to
  an object of its own makes it run forever.\<close>

theorem GetTopOwnerReference_returns:
  "(case GetTopOwnerReference query w of
      None \<Rightarrow> \<forall>n. ancestor query n w \<noteq> None
    | Some r \<Rightarrow> \<exists>n v. ancestor query n w = Some v \<and> climb query v = None \<and> r = GetUnstructuredObject query v)
   \<and> (\<forall>n v k. ancestor query n w = Some v \<and> ancestor query (Suc k) v = Some v \<longrightarrow> GetTopOwnerReference query w = None)"
proof
  show "case GetTopOwnerReference query w of None \<Rightarrow> \<forall>n. ancestor query n w \<noteq> None
    | Some r \<Rightarrow> \<exists>n v. ancestor query n w = Some v \<and> climb query v = None \<and> r = GetUnstructuredObject query v"
  proof (cases "GetTopOwnerReference query w")
    case None
    have "ancestor query n w \<noteq> None" for n
    proof
      assume "ancestor query n w = None"
      from top_ends [OF this] None show False by simp
    qed
    with None show ?thesis by simp
  next
    case (Some r)
    from top_returns [OF Some] obtain n where "ancestor query n w = None" by blast
    from top_ends [OF this] Some show ?thesis by auto
  qed
  show "\<forall>n v k. ancestor query n w = Some v \<and> ancestor query (Suc k) v = Some v \<longrightarrow> GetTopOwnerReference query w = None"
  proof (intro allI impI, elim conjE)
    fix n v k
    assume c: "ancestor query n w = Some v" "ancestor query (Suc k) v = Some v"
    show "GetTopOwnerReference query w = None"
    proof (cases "GetTopOwnerReference query w")
      case (Some r)
      from top_returns [OF this] ancestor_cycle [OF c] show ?thesis by blast
    qed
  qed
qed

text \<open>A pod of a replica set of a deployment, and (if \<open>cyc\<close>) an object that names itself as its controller.\<close>

definition controlled :: "string \<Rightarrow> string \<Rightarrow> string \<Rightarrow> string \<Rightarrow> (string \<times> string \<times> string) option \<Rightarrow> Info" where
  "controlled g k r n c = \<lparr>in_Group = g, in_Kind = k, in_Resource = r, in_Name = n,
     in_Controller = map_option (\<lambda>(v, k, n). \<lparr>ow_APIVersion = v, ow_Kind = k, ow_Name = n\<rparr>) c\<rparr>"

definition example_pod :: Info where "example_pod = controlled [] ''Pod'' ''pods'' ''p'' (Some (''apps/v1'', ''ReplicaSet'', ''r''))"
definition example_rs :: Info where "example_rs = controlled ''apps'' ''ReplicaSet'' ''replicasets'' ''r'' (Some (''apps/v1'', ''Deployment'', ''d''))"
definition example_deploy :: Info where "example_deploy = controlled ''apps'' ''Deployment'' ''deployments'' ''d'' None"
definition example_cycle :: Info where "example_cycle = controlled [] ''A'' ''as'' ''x'' (Some (''v1'', ''A'', ''x''))"

definition example_query :: "bool \<Rightarrow> string finder" where
  "example_query cyc ws =
     (if ws = [''Pod/p''] then Inr [example_pod]
      else if ws = [''ReplicaSet.apps/r''] then Inr [example_rs]
      else if ws = [''Deployment.apps/d''] then Inr [example_deploy]
      else if cyc \<and> ws = [''A/x''] then Inr [example_cycle]
      else Inl ''not found'')"

lemma example_names:
  "full_name example_pod = ''Pod/p''" "full_name example_rs = ''ReplicaSet.apps/r''" "full_name example_deploy = ''Deployment.apps/d''"
  "owner_workload example_pod = Some ''ReplicaSet.apps/r''" "owner_workload example_rs = Some ''Deployment.apps/d''" "owner_workload example_deploy = None"
  "owner_workload example_cycle = Some ''A/x''"
  by code_simp+

lemma example_found:
  "GetUnstructuredObject (example_query cyc) w =
     (if w = ''Pod/p'' then Inr example_pod else if w = ''ReplicaSet.apps/r'' then Inr example_rs
      else if w = ''Deployment.apps/d'' then Inr example_deploy else if cyc \<and> w = ''A/x'' then Inr example_cycle else Inl (FindErr ''not found''))"
  by (simp add: GetUnstructuredObject_def example_query_def)

lemma example_climb:
  "climb (example_query cyc) w = (if w = ''Pod/p'' then Some ''ReplicaSet.apps/r'' else if w = ''ReplicaSet.apps/r'' then Some ''Deployment.apps/d''
     else if w = ''Deployment.apps/d'' then None else if cyc \<and> w = ''A/x'' then Some ''A/x'' else None)"
  by (simp add: climb_def example_found example_names)

theorem GetTopOwnerReference_returns_witness:
  "GetTopOwnerReference (example_query True) ''A/x'' = None
   \<and> GetTopOwnerReference (example_query True) ''Pod/p'' = Some (Inr example_deploy)"
proof
  have "ancestor (example_query True) 0 ''A/x'' = Some ''A/x'' \<and> ancestor (example_query True) (Suc 0) ''A/x'' = Some ''A/x''"
    by (simp add: example_climb)
  with GetTopOwnerReference_returns [of "example_query True" "''A/x''"] show "GetTopOwnerReference (example_query True) ''A/x'' = None" by blast
qed (simp add: top_step [of _ "''Pod/p''"] top_step [of _ "''ReplicaSet.apps/r''"] top_step [of _ "''Deployment.apps/d''"] example_climb example_found)

section \<open>The workloads that are left are controllers\<close>

text \<open>
  What the cluster promises: objects are found under their own kind and name, and so are the controllers they name, and chains of
  controllers are finite.
\<close>

definition lawful_query :: "'e finder \<Rightarrow> bool" where
  "lawful_query query \<longleftrightarrow>
     (\<forall>ws obs ob. query ws = Inr obs \<longrightarrow> ob \<in> set obs \<longrightarrow> GetUnstructuredObject query (full_name ob) = Inr ob)
   \<and> (\<forall>w ob w'. GetUnstructuredObject query w = Inr ob \<longrightarrow> owner_workload ob = Some w' \<longrightarrow> (\<exists>ob'. GetUnstructuredObject query w' = Inr ob'))
   \<and> (\<forall>w. \<exists>n. ancestor query n w = None)"

definition is_top :: "'e finder \<Rightarrow> string \<Rightarrow> bool" where
  "is_top query x \<longleftrightarrow> (\<exists>ob. GetUnstructuredObject query x = Inr ob \<and> owner_workload ob = None)"

lemma found_again:
  assumes "lawful_query query" and "GetUnstructuredObject query w = Inr ob"
  shows "GetUnstructuredObject query (full_name ob) = Inr ob"
proof -
  from assms(2) obtain obs where "query [w] = Inr (ob # obs)" by (auto simp: GetUnstructuredObject_def split: sum.splits list.splits)
  with assms(1) show ?thesis unfolding lawful_query_def by (meson list.set_intros(1))
qed

lemma top_found:
  assumes "lawful_query query" and "GetTopOwnerReference query w = Some (Inr ob)"
  shows "is_top query (full_name ob)"
proof -
  from assms(1) obtain n where "ancestor query n w = None" unfolding lawful_query_def by blast
  from top_ends [OF this] assms(2) obtain v where "climb query v = None" "GetUnstructuredObject query v = Inr ob" by auto
  with found_again [OF assms(1)] show ?thesis by (auto simp: is_top_def climb_def)
qed

lemma ancestor_found:
  "lawful_query query \<Longrightarrow> GetUnstructuredObject query w = Inr ob \<Longrightarrow> ancestor query k w = Some v \<Longrightarrow> \<exists>ob'. GetUnstructuredObject query v = Inr ob'"
proof (induction k arbitrary: w ob)
  case (Suc k)
  then obtain w' where w': "owner_workload ob = Some w'" "ancestor query k w' = Some v"
    by (auto simp: climb_def bind_eq_Some_conv)
  with Suc.prems(1,2) obtain ob' where "GetUnstructuredObject query w' = Inr ob'" unfolding lawful_query_def by blast
  from Suc.IH [OF Suc.prems(1) this w'(2)] show ?case .
qed auto

lemma lift_owner_top:
  assumes "lawful_query query" and "GetUnstructuredObject query w = Inr ob" and "lift_owner query w w = Some x"
  shows "is_top query x"
proof -
  from assms(1) obtain n where "ancestor query n w = None" unfolding lawful_query_def by blast
  from top_ends [OF this] obtain k v where v: "ancestor query k w = Some v" "GetTopOwnerReference query w = Some (GetUnstructuredObject query v)" by blast
  from ancestor_found [OF assms(1,2) v(1)] obtain ob' where "GetUnstructuredObject query v = Inr ob'" by blast
  with v(2) top_found [OF assms(1), of w ob'] assms(3) show ?thesis by (simp add: lift_owner_def)
qed

lemma top_owners_top:
  "lawful_query query \<Longrightarrow> top_owners query obs names = Some ns \<Longrightarrow> \<forall>x\<in>set names. is_top query x \<Longrightarrow> \<forall>x\<in>set ns. is_top query x"
proof (induction obs arbitrary: names)
  case (Cons ob obs)
  from Cons.prems(2) obtain r where r: "GetTopOwnerReference query (resource_name ob) = Some r" by (auto simp: bind_eq_Some_conv)
  show ?case
  proof (cases r)
    case (Inl e)
    with r Cons show ?thesis by simp
  next
    case (Inr ref)
    let ?names = "if in_Resource ref \<noteq> ''services'' then List.insert (full_name ref) names else names"
    from r Inr Cons.prems(2) have "top_owners query obs ?names = Some ns" by simp
    moreover have "\<forall>x\<in>set ?names. is_top query x" using Cons.prems(3) top_found [OF Cons.prems(1)] r Inr by auto
    ultimately show ?thesis using Cons.IH Cons.prems(1) by blast
  qed
qed simp

lemma pick_controller_Inr: "pick_controller first w r = Inr x \<longleftrightarrow> (\<exists>n ns. r = Inr (n # ns) \<and> x = first (n # ns))"
  by (auto simp: pick_controller_def split: sum.splits list.splits)

lemma lift_service_top:
  assumes "lawful_query query" and "\<forall>ns. ns \<noteq> [] \<longrightarrow> first ns \<in> set ns" and "is_top query w"
    and "lift_service query sel svc first w = Some (Inr x)"
  shows "is_top query x"
proof -
  from assms(3) obtain ob where ob: "GetUnstructuredObject query w = Inr ob" by (auto simp: is_top_def)
  consider "x = w"
    | p where "lift_owner query w (''pods/'' @ p) = Some x"
    | s n ns where "GetTopOwnerReferenceBySelector query sel s = Some (Inr (n # ns))" "x = first (n # ns)"
    using assms(4) ob unfolding lift_service_def by (auto simp: pick_controller_Inr split: if_splits option.splits list.splits prod.splits)
  then show ?thesis
  proof cases
    case 1
    with assms(3) show ?thesis by simp
  next
    case (2 p)
    then obtain r where "GetTopOwnerReference query (''pods/'' @ p) = Some r" "x = (case r of Inl _ \<Rightarrow> w | Inr ob \<Rightarrow> full_name ob)"
      by (auto simp: lift_owner_def)
    with assms(3) top_found [OF assms(1)] show ?thesis by (cases r) simp_all
  next
    case (3 s n ns)
    then obtain obs where "top_owners query obs [] = Some (n # ns)"
      by (auto simp: GetTopOwnerReferenceBySelector_def split: sum.splits)
    from top_owners_top [OF assms(1) this] assms(2) 3(2) show ?thesis by (metis empty_iff empty_set list.distinct(1))
  qed
qed

lemma lift_services_top:
  "\<forall>w x. is_top query w \<longrightarrow> lift w = Some (Inr x) \<longrightarrow> is_top query x \<Longrightarrow> \<forall>w\<in>set ws. is_top query w \<Longrightarrow> lift_services lift ws = Some (None, xs)
   \<Longrightarrow> \<forall>x\<in>set xs. is_top query x"
proof (induction ws arbitrary: xs)
  case (Cons w ws)
  from Cons.prems(3) obtain r where r: "lift w = Some r" by (auto simp: bind_eq_Some_conv)
  show ?case
  proof (cases r)
    case (Inl e)
    with r Cons.prems(3) show ?thesis by simp
  next
    case (Inr x)
    with r Cons.prems(3) obtain ys where "lift_services lift ws = Some (None, ys)" "xs = x # ys" by auto
    with Cons r Inr show ?thesis by auto
  qed
qed simp

lemma traverse_set: "traverse f xs = Some ys \<Longrightarrow> \<forall>y\<in>set ys. \<exists>x\<in>set xs. f x = Some y"
  by (induction xs arbitrary: ys) (fastforce simp: bind_eq_Some_conv)+

text \<open>C18: after \<^verbatim>\<open>PreCheckResource\<close> every workload is the name of an object of its own that no controller manages: pods and
  replica sets have become the controllers above them, and services the controllers behind them.\<close>

theorem PreCheckResource_top:
  assumes "lawful_query query" and "\<forall>ns. ns \<noteq> [] \<longrightarrow> first ns \<in> set ns"
    and "PreCheckResource query sel svc first workloads = Some (None, ws)" and "x \<in> set ws"
  shows "\<exists>ob. GetUnstructuredObject query x = Inr ob \<and> owner_workload ob = None"
proof -
  from assms(3,4) obtain obs ys where o: "GetUnstructuredObjectList query workloads = Inr obs"
    "traverse (\<lambda>w. lift_owner query w w) (map full_name obs) = Some ys" "lift_services (lift_service query sel svc first) ys = Some (None, ws)"
    by (auto simp: PreCheckResource_def bind_eq_Some_conv split: if_splits sum.splits)
  have "GetUnstructuredObject query (full_name ob) = Inr ob" if "ob \<in> set obs" for ob
    using o(1) that assms(1) unfolding lawful_query_def GetUnstructuredObjectList_def by (auto split: sum.splits list.splits)
  with traverse_set [OF o(2)] lift_owner_top [OF assms(1)] have "\<forall>y\<in>set ys. is_top query y" by fastforce
  with lift_services_top [OF _ _ o(3)] lift_service_top [OF assms(1,2)] assms(4) show ?thesis unfolding is_top_def [symmetric] by blast
qed

lemma example_lawful: "lawful_query (example_query False)"
proof -
  have three: "ancestor (example_query False) (Suc (Suc (Suc 0))) w = None" for w
    by (simp add: example_climb)
  have "\<exists>n. ancestor (example_query False) n w = None" for w using three by blast
  moreover have "GetUnstructuredObject (example_query False) (full_name ob) = Inr ob"
    if "example_query False ws = Inr obs" "ob \<in> set obs" for ws obs ob
    using that by (auto simp: example_query_def example_names GetUnstructuredObject_def split: if_splits)
  moreover have "\<exists>ob'. GetUnstructuredObject (example_query False) w' = Inr ob'"
    if "GetUnstructuredObject (example_query False) w = Inr ob" "owner_workload ob = Some w'" for w ob w'
    using that by (auto simp: example_found example_names split: if_splits)
  ultimately show ?thesis unfolding lawful_query_def by blast
qed

theorem PreCheckResource_top_witness:
  "\<exists>ob. PreCheckResource (example_query False) (\<lambda>_. Inl ''no'') (\<lambda>_. None) hd [''Pod/p''] = Some (None, [''Deployment.apps/d''])
    \<and> GetUnstructuredObject (example_query False) ''Deployment.apps/d'' = Inr ob \<and> owner_workload ob = None"
proof -
  let ?q = "example_query False"
  have t: "GetTopOwnerReference ?q ''Pod/p'' = Some (Inr example_deploy)"
    by (simp add: top_step [of _ "''Pod/p''"] top_step [of _ "''ReplicaSet.apps/r''"] top_step [of _ "''Deployment.apps/d''"] example_climb example_found)
  have r: "in_Resource example_deploy \<noteq> ''services''" by (simp add: example_deploy_def controlled_def)
  have "GetUnstructuredObjectList ?q [''Pod/p''] = Inr [example_pod]" by (simp add: GetUnstructuredObjectList_def example_query_def)
  with t r have p: "PreCheckResource ?q (\<lambda>_. Inl ''no'') (\<lambda>_. None) hd [''Pod/p''] = Some (None, [''Deployment.apps/d''])"
    by (simp add: PreCheckResource_def lift_owner_def lift_service_def example_found example_names)
  from PreCheckResource_top [OF example_lawful _ p] p show ?thesis by auto
qed

end
