(* ===== verification/Connection.thy ===== *)
theory Connection
  imports Installer Cluster_Cidr Dhcp_Clients Routes Workloads
begin

text \<open>
  A connection to a cluster (\<^verbatim>\<open>ConnectOptions\<close> of \<^verbatim>\<open>src/pkg/handler/connect.go\<close>): its state, the pods of the traffic manager, the
  update of their image, the port forward, the sequence of \<^verbatim>\<open>DoConnect\<close>, and what the daemon asks of a connection.  A \<open>clientset\<close>
  is the access to one cluster; what the host does (listening, the tunnel device, DNS settings) are the fields of \<open>host_env\<close>.
\<close>

section \<open>The state of a connection\<close>

record ('w, 'p, 'a) clientset =
  cs_cm :: "'w cm_client"
  cs_uid :: "'w \<Rightarrow> string + string"
  cs_inst :: "'w inst_client"
  cs_wl :: "('w, 'p, 'a) wl_client"
  cs_unavailable :: "'w \<Rightarrow> nat option"

text \<open>\<open>op_id\<close> tells one allocated structure from another; \<open>op_ips\<close> holds the namespace, the DHCP manager and the tunnel addresses.\<close>

record ('w, 'p, 'a) ConnectOptions =
  op_id :: nat
  op_ips :: connect_ips
  op_Headers :: header_map
  op_Workloads :: "string list"
  op_ExtraCIDR :: "string list"
  op_ExtraDomain :: "string list"
  op_UseLocalDNS :: bool
  op_Engine :: string
  op_OriginKubeconfigPath :: string
  op_clientset :: "('w, 'p, 'a) clientset option"
  op_cidrs :: "ipnet option list"
  op_apiServerIPs :: "ip list"
  op_extraHost :: "Entry list"
  op_rollback :: "('w \<Rightarrow> 'w) list"

definition AddRolloutFunc :: "('w \<Rightarrow> 'w) \<Rightarrow> ('w, 'p, 'a) ConnectOptions \<Rightarrow> ('w, 'p, 'a) ConnectOptions" where
  "AddRolloutFunc f c = c\<lparr>op_rollback := op_rollback c @ [f]\<rparr>"

text \<open>Slices that come from a decoded message are nil when they are empty, so \<^verbatim>\<open>reflect.DeepEqual\<close> compares the elements.\<close>

definition options_Equal :: "('w, 'p, 'a) ConnectOptions \<Rightarrow> ('w, 'p, 'a) ConnectOptions \<Rightarrow> bool" where
  "options_Equal c a \<longleftrightarrow>
     op_UseLocalDNS c = op_UseLocalDNS a \<and> op_Engine c = op_Engine a \<and> op_ExtraDomain c = op_ExtraDomain a \<and> op_ExtraCIDR c = op_ExtraCIDR a"

definition IsSameCluster ::
  "('w, 'p, 'a) clientset \<Rightarrow> string \<Rightarrow> ('w, 'p, 'a) clientset \<Rightarrow> string \<Rightarrow> 'w \<Rightarrow> string + bool" where
  "IsSameCluster client namespace clientB namespaceB w =
     (if namespace \<noteq> namespaceB then Inr False
      else (case cs_uid client w of
              Inl e \<Rightarrow> Inl e
            | Inr a \<Rightarrow> (case cs_uid clientB w of Inl e \<Rightarrow> Inl e | Inr b \<Rightarrow> Inr (a = b))))"

text \<open>The part of the state that \<^verbatim>\<open>Cleanup\<close> reads; without a clientset there is nothing to do but the roll-back functions.\<close>

definition connection_of :: "('w, 'p, 'a) ConnectOptions \<Rightarrow> 'w connection" where
  "connection_of c =
     \<lparr>cn_tunIPv4 = co_localTunIPv4 (op_ips c), cn_tunIPv6 = co_localTunIPv6 (op_ips c), cn_dhcp = co_dhcp (op_ips c),
      cn_namespace = co_namespace (op_ips c), cn_rollback = op_rollback c\<rparr>"

definition options_Cleanup ::
  "yaml_codec \<Rightarrow> ('p, 't, 'a) json_codec \<Rightarrow> ('w, 'p, 'a) ConnectOptions \<Rightarrow> 'w \<Rightarrow> (inject_err, unit) outcome \<times> 'w" where
  "options_Cleanup ym js c w =
     (case op_clientset c of
        None \<Rightarrow> (Ret (), fold (\<lambda>f. f) (op_rollback c) w)
      | Some cs \<Rightarrow> Cleanup (cs_cm cs) ym js (cs_wl cs) (ic_Delete (cs_inst cs)) (cs_unavailable cs) (connection_of c) w)"

section \<open>The pods of the traffic manager\<close>

record running_pod =
  rp_Name :: string
  rp_Status :: pod_status

definition AllContainerIsRunning :: "pod_status \<Rightarrow> bool" where
  "AllContainerIsRunning p \<longleftrightarrow> st_Ready p \<and> list_all (\<lambda>b. b) (st_ContainersReady p)"

datatype 'e pods_err = PodsErr 'e | NoRunningPod

definition GetRunningPodList :: "'e + running_pod list \<Rightarrow> 'e pods_err + running_pod list" where
  "GetRunningPodList listing =
     (case listing of
        Inl e \<Rightarrow> Inl (PodsErr e)
      | Inr items \<Rightarrow>
          (let left = fst (delete_loop (\<lambda>p. st_Deleting (rp_Status p) \<or> \<not> AllContainerIsRunning (rp_Status p)) 0 items 0)
           in if left = [] then Inl NoRunningPod else Inr left))"

lemma GetRunningPodList_filter:
  "GetRunningPodList (Inr items) =
     (case filter (\<lambda>p. pod_is_ready (rp_Status p)) items of [] \<Rightarrow> Inl NoRunningPod | p # ps \<Rightarrow> Inr (p # ps))"
proof -
  have "fst (delete_loop (\<lambda>p. st_Deleting (rp_Status p) \<or> \<not> AllContainerIsRunning (rp_Status p)) 0 items 0)
      = filter (\<lambda>p. pod_is_ready (rp_Status p)) items"
    unfolding delete_loop_filter by (simp add: pod_is_ready_def AllContainerIsRunning_def conj_ac)
  then show ?thesis by (simp add: GetRunningPodList_def Let_def split: list.splits)
qed

section \<open>The image of the traffic manager\<close>

text \<open>
  The parser of image names gives the registry and the tag, if there is one; the parser of versions gives a value that \<open>ge\<close>
  compares.  An image is newer only if both have a tag that is a version and are from the same registry.
\<close>

record ('d, 'v) image_lib =
  il_parse :: "string \<Rightarrow> string + 'd \<times> string option"
  il_version :: "string \<Rightarrow> 'v option"
  il_ge :: "'v \<Rightarrow> 'v \<Rightarrow> bool"

definition newer_image :: "('d, 'v) image_lib \<Rightarrow> string \<Rightarrow> string \<Rightarrow> string + bool" where
  "newer_image il new old =
     (case il_parse il new of
        Inl e \<Rightarrow> Inl e
      | Inr (_, None) \<Rightarrow> Inr False
      | Inr (d, Some tag) \<Rightarrow>
          (case il_parse il old of
             Inl e \<Rightarrow> Inl e
           | Inr (_, None) \<Rightarrow> Inr False
           | Inr (d', Some tag') \<Rightarrow>
               if d \<noteq> d' then Inr False
               else (case il_version il tag' of
                       None \<Rightarrow> Inr False
                     | Some v' \<Rightarrow> (case il_version il tag of None \<Rightarrow> Inr False | Some v \<Rightarrow> Inr (\<not> il_ge il v' v)))))"

record 'w deploy_client =
  dc_Get :: "'w \<Rightarrow> string + Deployment"
  dc_Infos :: "'w \<Rightarrow> string + Deployment list"
  dc_Patch :: "'w \<Rightarrow> Deployment \<Rightarrow> string option \<times> 'w"
  dc_Rollout :: "'w \<Rightarrow> string option"

definition set_images :: "string \<Rightarrow> Deployment \<Rightarrow> Deployment" where
  "set_images img d = d\<lparr>dp_Containers := map (\<lambda>c. c\<lparr>ct_Image := img\<rparr>) (dp_Containers d)\<rparr>"

fun patch_images :: "'w deploy_client \<Rightarrow> string \<Rightarrow> Deployment list \<Rightarrow> 'w \<Rightarrow> string option \<times> 'w" where
  "patch_images dc img [] w = (None, w)"
| "patch_images dc img (d # ds) w =
     (case dc_Patch dc w (set_images img d) of
        (Some e, w') \<Rightarrow> (Some e, w')
      | (None, w') \<Rightarrow> (case dc_Rollout dc w' of Some e \<Rightarrow> (Some e, w') | None \<Rightarrow> patch_images dc img ds w'))"

text \<open>The image compared is that of the first container, which a deployment must have.\<close>

definition setImage :: "('d, 'v) image_lib \<Rightarrow> 'w deploy_client \<Rightarrow> string \<Rightarrow> 'w \<Rightarrow> (string, unit) outcome \<times> 'w" where
  "setImage il dc img w =
     (case dc_Get dc w of
        Inl e \<Rightarrow> (Fail e, w)
      | Inr d \<Rightarrow>
          (case il_parse il img of
             Inl e \<Rightarrow> (Fail e, w)
           | Inr (_, None) \<Rightarrow> (Ret (), w)
           | Inr (_, Some _) \<Rightarrow>
               (case dp_Containers d of
                  [] \<Rightarrow> (Panic, w)
                | c # _ \<Rightarrow>
                    (case newer_image il img (ct_Image c) of
                       Inl e \<Rightarrow> (Fail e, w)
                     | Inr False \<Rightarrow> (Ret (), w)
                     | Inr True \<Rightarrow>
                         (case dc_Infos dc w of
                            Inl e \<Rightarrow> (Fail e, w)
                          | Inr infos \<Rightarrow>
                              (case patch_images dc img infos w of (None, w') \<Rightarrow> (Ret (), w') | (Some e, w') \<Rightarrow> (Fail e, w')))))))"

definition UpdateImage :: "('d, 'v) image_lib \<Rightarrow> 'w deploy_client \<Rightarrow> string \<Rightarrow> 'w \<Rightarrow> (string, unit) outcome \<times> 'w" where
  "UpdateImage il dc img w =
     (case dc_Get dc w of
        Inl e \<Rightarrow> (Fail e, w)
      | Inr d \<Rightarrow>
          (case il_parse il img of
             Inl e \<Rightarrow> (Fail e, w)
           | Inr (_, None) \<Rightarrow> (Ret (), w)
           | Inr (_, Some _) \<Rightarrow>
               (case dp_Containers d of
                  [] \<Rightarrow> (Panic, w)
                | c # _ \<Rightarrow>
                    (case newer_image il img (ct_Image c) of
                       Inl e \<Rightarrow> (Fail e, w)
                     | Inr False \<Rightarrow> (Ret (), w)
                     | Inr True \<Rightarrow> (case patch_images dc img [d] w of (None, w') \<Rightarrow> (Ret (), w') | (Some e, w') \<Rightarrow> (Fail e, w'))))))"

section \<open>The port forward\<close>

text \<open>
  What happens while \<^verbatim>\<open>portForward\<close> waits: a round of the goroutine finds no pod, a forward becomes ready, or the forward of a round
  ends with or without an error.  The first of the last two decides; when neither comes the time is up.
\<close>

datatype 'e forward_event = NoPod | ForwardReady | ForwardEnds "'e option"

datatype 'e forward_err = ForwardFailed 'e | ForwardTimeout

fun portForward :: "'e forward_event list \<Rightarrow> 'e forward_err option" where
  "portForward [] = Some ForwardTimeout"
| "portForward (NoPod # es) = portForward es"
| "portForward (ForwardReady # es) = None"
| "portForward (ForwardEnds e # es) = map_option ForwardFailed e"

text \<open>The watch of the pod: whether the forward is cancelled.\<close>

datatype pod_watch_event = Added | Modified | Bookmark | Deleted | WatchError | UnknownEvent | CtxDone

fun checkPodStatus :: "pod_watch_event list \<Rightarrow> bool" where
  "checkPodStatus [] = False"
| "checkPodStatus (Deleted # es) = True"
| "checkPodStatus (e # es) = (if e \<in> {Added, Modified, Bookmark} then checkPodStatus es else False)"

section \<open>Connecting\<close>

datatype connect_err = CDhcp dhcp_err | CCidr | CInstall install_err | CStep string | CForward "string forward_err" | CExtra "string extra_err"

text \<open>
  The host: the answers to the requests of the steps in order.  \<open>he_port\<close> are the three free ports, \<open>he_forward\<close> what happens to the
  forward of them, \<open>he_serve\<close> the start of the tunnel device and its server, and \<open>he_dns\<close> the DNS settings.
\<close>

record ('w, 'd, 'v) host_env =
  he_unsorted :: "string list \<Rightarrow> string list"
  he_lookupIP :: "string \<Rightarrow> ip list"
  he_apiHost :: string
  he_elegant :: "(unit, ipnet option list) outcome"
  he_ugly :: "ipnet option list"
  he_images :: "('d, 'v) image_lib"
  he_deploy :: "'w deploy_client"
  he_rounds :: nat
  he_port :: "nat \<Rightarrow> string + nat"
  he_forward :: "string list \<Rightarrow> string forward_event list"
  he_serve :: "connect_ips \<Rightarrow> ipnet option list \<Rightarrow> string list \<Rightarrow> string \<Rightarrow> string \<Rightarrow> bool \<Rightarrow> string option"
  he_router :: "string option"
  he_ifs :: "net_interface list"
  he_pods :: "(string + pod_event list) \<times> (string + pod_event list) \<times> pod_event list"
  he_svcs :: "(string + svc_event list) \<times> (string + svc_event list) \<times> svc_event list"
  he_firewall :: "'w \<Rightarrow> 'w"
  he_dnsIPs :: "string + string list"
  he_podErr :: "string option"
  he_iface :: "string \<Rightarrow> string option"
  he_dig :: "string \<Rightarrow> string option"
  he_answers :: "string \<Rightarrow> nat \<Rightarrow> string + rr list"
  he_dns :: "Entry list \<Rightarrow> bool \<Rightarrow> string option"

definition tun_name :: "('w, 'd, 'v) host_env \<Rightarrow> connect_ips \<Rightarrow> string + string" where
  "tun_name he ips = map_sum (\<lambda>_. ''tun'') id (GetTunDeviceName (co_localTunIPv4 ips) (co_localTunIPv6 ips) (he_ifs he))"

text \<open>The three free ports, and the texts of the forward.\<close>

definition free_ports :: "('w, 'd, 'v) host_env \<Rightarrow> string + nat \<times> nat \<times> nat" where
  "free_ports he =
     (case he_port he 0 of
        Inl e \<Rightarrow> Inl e
      | Inr raw \<Rightarrow>
          (case he_port he 1 of
             Inl e \<Rightarrow> Inl e
           | Inr gtcp \<Rightarrow> (case he_port he 2 of Inl e \<Rightarrow> Inl e | Inr gudp \<Rightarrow> Inr (raw, gtcp, gudp))))"

definition forward_pairs :: "nat \<times> nat \<times> nat \<Rightarrow> string list" where
  "forward_pairs ports =
     (case ports of (raw, gtcp, gudp) \<Rightarrow> [show_nat raw @ '':10800'', show_nat gtcp @ '':10801'', show_nat gudp @ '':10802''])"

text \<open>The routes, the extra domains and the DNS settings, once the tunnel device is up.\<close>

definition connect_routes ::
  "('w, 'd, 'v) host_env \<Rightarrow> bool \<Rightarrow> ('w, 'p, 'a) ConnectOptions \<Rightarrow> connect_err option \<times> ('w, 'p, 'a) ConnectOptions" where
  "connect_routes he isLite c =
     (case addRouteDynamic (he_router he) (tun_name he (op_ips c)) (op_apiServerIPs c)
          (fst (he_pods he)) (fst (snd (he_pods he))) (snd (snd (he_pods he)))
          (fst (he_svcs he)) (fst (snd (he_svcs he))) (snd (snd (he_svcs he))) of
        (Some e, _) \<Rightarrow> (Some (CStep e), c)
      | (None, _) \<Rightarrow>
          (let c1 = AddRolloutFunc (he_firewall he) c;
               (err, st) = addExtraRoute (op_ExtraDomain c1) (he_dnsIPs he) (he_router he) (tun_name he (op_ips c1)) (he_podErr he)
                   (he_iface he) (he_dig he) (he_answers he);
               c2 = c1\<lparr>op_extraHost := op_extraHost c1 @ xs_hosts st\<rparr>
           in case err of
                Some e \<Rightarrow> (Some (CExtra e), c2)
              | None \<Rightarrow> (map_option CStep (he_dns he (op_extraHost c2) isLite), c2)))"

text \<open>The steps of \<^verbatim>\<open>DoConnect\<close> on the host, after the traffic manager is up.\<close>

definition connect_host ::
  "('w, 'd, 'v) host_env \<Rightarrow> bool \<Rightarrow> ('w, 'p, 'a) ConnectOptions \<Rightarrow> connect_err option \<times> ('w, 'p, 'a) ConnectOptions" where
  "connect_host he isLite c =
     (case free_ports he of
        Inl e \<Rightarrow> (Some (CStep e), c)
      | Inr ports \<Rightarrow>
          (case portForward (he_forward he (forward_pairs ports)) of
             Some e \<Rightarrow> (Some (CForward e), c)
           | None \<Rightarrow>
               (case he_serve he (op_ips c) (op_cidrs c) (op_ExtraCIDR c) (op_Engine c) (''tcp://127.0.0.1:'' @ show_nat (fst ports)) isLite of
                  Some e \<Rightarrow> (Some (CStep e), c)
                | None \<Rightarrow> connect_routes he isLite c)))"

text \<open>The traffic manager with its image, and then the host.\<close>

definition connect_manager ::
  "('w, 'd, 'v) host_env \<Rightarrow> ('w, 'p, 'a) clientset \<Rightarrow> string \<Rightarrow> bool \<Rightarrow> ('w, 'p, 'a) ConnectOptions \<Rightarrow> 'w
   \<Rightarrow> (connect_err, unit) outcome \<times> ('w, 'p, 'a) ConnectOptions \<times> 'w" where
  "connect_manager he cs img isLite c w =
     (case createOutboundPod (cs_cm cs) (cs_inst cs) img (he_rounds he) (co_namespace (op_ips c)) w of
        (Some e, w1) \<Rightarrow> (Fail (CInstall e), c, w1)
      | (None, w1) \<Rightarrow>
          (case setImage (he_images he) (he_deploy he) img w1 of
             (Panic, w2) \<Rightarrow> (Panic, c, w2)
           | (Fail e, w2) \<Rightarrow> (Fail (CStep e), c, w2)
           | (Ret _, w2) \<Rightarrow>
               (case connect_host he isLite c of
                  (Some e, c') \<Rightarrow> (Fail e, c', w2)
                | (None, c') \<Rightarrow> (Ret (), c', w2))))"

definition DoConnect ::
  "('w, 'd, 'v) host_env \<Rightarrow> ('w, 'p, 'a) clientset \<Rightarrow> string \<Rightarrow> bool \<Rightarrow> ('w, 'p, 'a) ConnectOptions \<Rightarrow> 'w
   \<Rightarrow> (connect_err, unit) outcome \<times> ('w, 'p, 'a) ConnectOptions \<times> 'w" where
  "DoConnect he cs img isLite c w =
     (case InitDHCP (cs_cm cs) (op_ips c) w of
        (Some e, ips, w1) \<Rightarrow> (Fail (CDhcp e), c\<lparr>op_ips := ips\<rparr>, w1)
      | (None, ips, w1) \<Rightarrow>
          (let c1 = c\<lparr>op_ips := ips\<rparr> in
           case getCIDR (cs_cm cs) (he_unsorted he) (he_lookupIP he) (he_apiHost he) (he_elegant he) (he_ugly he) (op_cidrs c1) w1 of
             (Panic, w2) \<Rightarrow> (Panic, c1, w2)
           | (Fail _, w2) \<Rightarrow> (Fail CCidr, c1, w2)
           | (Ret cidrs, w2) \<Rightarrow>
               connect_manager he cs img isLite
                 (c1\<lparr>op_cidrs := cidrs,
                     op_apiServerIPs := (case api_server_ips (he_lookupIP he) (he_apiHost he) of None \<Rightarrow> op_apiServerIPs c1 | Some as \<Rightarrow> as)\<rparr>) w2))"

section \<open>What the steps keep\<close>

text \<open>A server without a port in its address has no addresses here, and no route is kept away from it.\<close>

lemma api_server_without_port: "api_server_ips lookupIP ''https://10.0.0.1'' = None"
  by code_simp

definition same_options :: "('w, 'p, 'a) ConnectOptions \<Rightarrow> ('w, 'p, 'a) ConnectOptions \<Rightarrow> bool" where
  "same_options c c' \<longleftrightarrow> op_id c' = op_id c \<and> op_ips c' = op_ips c \<and> op_clientset c' = op_clientset c \<and> op_UseLocalDNS c' = op_UseLocalDNS c
   \<and> op_Engine c' = op_Engine c \<and> op_ExtraDomain c' = op_ExtraDomain c \<and> op_ExtraCIDR c' = op_ExtraCIDR c
   \<and> op_OriginKubeconfigPath c' = op_OriginKubeconfigPath c"

lemma connect_routes_keeps: "same_options c (snd (connect_routes he isLite c))"
  by (simp add: connect_routes_def AddRolloutFunc_def Let_def same_options_def split: prod.splits option.splits)

lemma connect_host_keeps: "same_options c (snd (connect_host he isLite c))"
proof -
  have "same_options c c" by (simp add: same_options_def)
  then show ?thesis by (simp add: connect_host_def connect_routes_keeps split: sum.splits option.splits)
qed

lemma InitDHCP_keeps:
  "InitDHCP cl ips w = (e, ips', w') \<Longrightarrow> co_namespace ips' = co_namespace ips \<and> co_localTunIPv4 ips' = co_localTunIPv4 ips
   \<and> co_localTunIPv6 ips' = co_localTunIPv6 ips"
  by (auto simp: InitDHCP_def Let_def split: prod.splits)

lemma connect_manager_keeps:
  assumes "connect_manager he cs img isLite c w = (r, c', w')"
  shows "same_options c c'"
proof -
  have refl: "same_options c c" by (simp add: same_options_def)
  obtain e w1 where o: "createOutboundPod (cs_cm cs) (cs_inst cs) img (he_rounds he) (co_namespace (op_ips c)) w = (e, w1)" by fastforce
  obtain i w2 where i: "setImage (he_images he) (he_deploy he) img w1 = (i, w2)" by fastforce
  obtain h c2 where h: "connect_host he isLite c = (h, c2)" by fastforce
  have "same_options c c2" using connect_host_keeps [of c he isLite] h by simp
  with assms refl show ?thesis unfolding connect_manager_def o
    by (cases e) (simp_all add: i h split: outcome.splits option.splits)
qed

lemma DoConnect_keeps:
  assumes "DoConnect he cs img isLite c w = (r, c', w')"
  shows "op_id c' = op_id c \<and> op_clientset c' = op_clientset c \<and> co_namespace (op_ips c') = co_namespace (op_ips c)
    \<and> co_localTunIPv4 (op_ips c') = co_localTunIPv4 (op_ips c) \<and> co_localTunIPv6 (op_ips c') = co_localTunIPv6 (op_ips c)
    \<and> options_Equal c' = options_Equal c \<and> op_OriginKubeconfigPath c' = op_OriginKubeconfigPath c"
proof -
  obtain e ips w1 where i: "InitDHCP (cs_cm cs) (op_ips c) w = (e, ips, w1)" by (cases "InitDHCP (cs_cm cs) (op_ips c) w")
  let ?c = "c\<lparr>op_ips := ips\<rparr>"
  obtain g w2 where g: "getCIDR (cs_cm cs) (he_unsorted he) (he_lookupIP he) (he_apiHost he) (he_elegant he) (he_ugly he) (op_cidrs ?c) w1 = (g, w2)"
    by fastforce
  have "\<exists>cidrs apis. same_options (c\<lparr>op_ips := ips, op_cidrs := cidrs, op_apiServerIPs := apis\<rparr>) c'"
  proof (cases "\<exists>cidrs. e = None \<and> g = Ret cidrs")
    case True
    then obtain cidrs where "e = None" "g = Ret cidrs" by blast
    with assms g obtain apis where "connect_manager he cs img isLite (?c\<lparr>op_cidrs := cidrs, op_apiServerIPs := apis\<rparr>) w2 = (r, c', w')"
      unfolding DoConnect_def i by (simp add: Let_def)
    from connect_manager_keeps [OF this] show ?thesis by auto
  next
    case False
    with assms g have "c' = ?c" unfolding DoConnect_def i by (cases e; cases g) (simp_all add: Let_def)
    then show ?thesis by (simp add: same_options_def)
  qed
  with InitDHCP_keeps [OF i] show ?thesis by (auto simp: same_options_def options_Equal_def fun_eq_iff)
qed

section \<open>The count of a connection that fails\<close>

definition stored_key :: "'w cm_client \<Rightarrow> string \<Rightarrow> 'w \<Rightarrow> string option" where
  "stored_key cl k w = (case cm_Get cl w ConfigMapPodTrafficManager of Inl _ \<Rightarrow> None | Inr cm \<Rightarrow> gomap_get (cm_data cm) k)"

lemma stored_Update:
  assumes "lawful_client cl" and "cm_Get cl w ConfigMapPodTrafficManager = Inr cm" and "cm_name c = ConfigMapPodTrafficManager"
    and "gomap_get (cm_data c) k = gomap_get (cm_data cm) k" and "cm_Update cl w c = (r, w')"
  shows "stored_key cl k w' = stored_key cl k w"
proof (cases r)
  case (Inl e)
  with lawful_Update_fails [OF assms(1)] assms(5) show ?thesis by blast
next
  case (Inr c')
  obtain old where "cm_Get cl w' (cm_name c) = Inr c'" "\<And>k. gomap_get (cm_data c') k = gomap_get (cm_data c) k"
    using lawful_Update_succeeds [OF assms(1) assms(5) [unfolded Inr]] by metis
  with assms(2-4) show ?thesis by (simp add: stored_key_def)
qed

lemma stored_update:
  assumes "lawful_client cl" and "k \<noteq> KeyDHCP" and "k \<noteq> KeyDHCP6" and "updateDHCPConfigMap cl id d f w = (r, w')"
  shows "stored_key cl k w' = stored_key cl k w"
proof (cases "cm_Get cl w ConfigMapPodTrafficManager")
  case (Inl e)
  with assms(4) show ?thesis by (simp add: updateDHCPConfigMap_def)
next
  case (Inr cm)
  show ?thesis
  proof (cases "dhcp_transform d f cm")
    case (Inl e)
    with Inr assms(4) show ?thesis by (simp add: updateDHCPConfigMap_def finish_update_def)
  next
    case (Inr p)
    obtain x c' where p: "p = (x, c')" by (cases p)
    obtain u w1 where u: "cm_Update cl w c' = (u, w1)" by (cases "cm_Update cl w c'")
    with Inr p assms(4) \<open>cm_Get cl w ConfigMapPodTrafficManager = Inr cm\<close> have w1: "w1 = w'"
      by (auto simp: updateDHCPConfigMap_def finish_update_def split: sum.splits)
    from Inr p have t: "dhcp_transform d f cm = Inr (x, c')" by simp
    have "cm_name c' = ConfigMapPodTrafficManager" "gomap_get (cm_data c') k = gomap_get (cm_data cm) k"
      using lawful_Get_name [OF assms(1) \<open>cm_Get cl w ConfigMapPodTrafficManager = Inr cm\<close>] assms(2,3)
      by (rule_tac [!] dhcp_transform_Inr [OF t]) auto
    from stored_Update [OF assms(1) \<open>cm_Get cl w ConfigMapPodTrafficManager = Inr cm\<close> this u] w1 show ?thesis by simp
  qed
qed

lemma stored_ReleaseIP:
  "lawful_client cl \<Longrightarrow> k \<noteq> KeyDHCP \<Longrightarrow> k \<noteq> KeyDHCP6 \<Longrightarrow> stored_key cl k (snd (ReleaseIP cl id d ips w)) = stored_key cl k w"
  using stored_update [of cl k d "release_action ips" w] by (simp add: ReleaseIP_def) (metis prod.collapse)

lemma stored_Set:
  assumes "lawful_client cl" and "k \<noteq> key"
  shows "stored_key cl k (snd (dhcp_Set cl id key val w)) = stored_key cl k w"
proof (cases "cm_Get cl w ConfigMapPodTrafficManager")
  case (Inl e)
  then show ?thesis by (simp add: dhcp_Set_def)
next
  case (Inr cm)
  let ?c = "cm\<lparr>cm_data := Some ((case cm_data cm of None \<Rightarrow> (\<lambda>_. None) | Some m \<Rightarrow> m)(key \<mapsto> val))\<rparr>"
  obtain u w1 where u: "cm_Update cl w ?c = (u, w1)" by (cases "cm_Update cl w ?c")
  have "gomap_get (cm_data ?c) k = gomap_get (cm_data cm) k" using assms(2) by (cases "cm_data cm") auto
  with stored_Update [OF assms(1) Inr _ _ u, of k] lawful_Get_name [OF assms(1) Inr] have "stored_key cl k w1 = stored_key cl k w" by simp
  with Inr u show ?thesis by (simp add: dhcp_Set_def finish_set_def Let_def split: sum.splits)
qed

lemma stored_getCIDR:
  assumes "lawful_client cl" and "k \<noteq> KeyClusterIPv4POOLS" and "getCIDR cl u l h el ug cs w = (r, w')"
  shows "stored_key cl k w' = stored_key cl k w"
  using assms(3) stored_Set [OF assms(1,2)] unfolding getCIDR_def Let_def
  by (auto split: if_splits sum.splits outcome.splits)

text \<open>An installation that fails before the client is counted leaves the config maps as they were.\<close>

definition keeps_err :: "('e \<Rightarrow> bool) \<Rightarrow> ('w \<Rightarrow> 'w \<Rightarrow> bool) \<Rightarrow> ('w \<Rightarrow> 'e option \<times> 'w) \<Rightarrow> bool" where
  "keeps_err P R f \<longleftrightarrow> (\<forall>w e w'. f w = (Some e, w') \<longrightarrow> P e \<longrightarrow> R w w')"

lemma keeps_err_and_then:
  assumes "transp R" and "keeps R f" and "keeps_err P R g"
  shows "keeps_err P R (and_then f g)"
  unfolding keeps_err_def
proof (intro allI impI)
  fix w e w'
  assume a: "and_then f g w = (Some e, w')" "P e"
  obtain x w1 where f: "f w = (x, w1)" by fastforce
  have 1: "R w w1" using assms(2) f unfolding keeps_def by (metis snd_conv)
  show "R w w'"
  proof (cases x)
    case None
    with a f have "g w1 = (Some e, w')" by (simp add: and_then_def)
    with assms(3) a(2) have "R w1 w'" unfolding keeps_err_def by blast
    with 1 assms(1) show ?thesis by (metis transpE)
  next
    case (Some y)
    with a f 1 show ?thesis by (simp add: and_then_def)
  qed
qed

definition same_cm :: "'w cm_client \<Rightarrow> 'w \<Rightarrow> 'w \<Rightarrow> bool" where
  "same_cm cl w w' \<longleftrightarrow> cm_Get cl w' = cm_Get cl w"

lemma same_cm_transp: "transp (same_cm cl)"
  by (auto simp: transp_def same_cm_def)

lemma created_same_cm: "lawful_objects cl ic get \<Longrightarrow> ic_Create ic w k n ob = (e, w') \<Longrightarrow> same_cm cl w w'"
  using lawful_created [of cl ic get w k n ob w'] lawful_not_created [of cl ic get w k n ob _ w'] unfolding same_cm_def by (cases e) auto

lemma keeps_cm_all: "lawful_objects cl ic get \<Longrightarrow> keeps (same_cm cl) (create_all ic obs)"
proof (induction obs)
  case (Cons x obs)
  obtain k ob where x: "x = (k, ob)" by (cases x)
  show ?case unfolding keeps_def
  proof
    fix w
    obtain e w1 where c: "ic_Create ic w k mgr ob = (e, w1)" by fastforce
    have "same_cm cl w w1" by (rule created_same_cm [OF Cons.prems c])
    moreover have "same_cm cl w1 (snd (create_all ic obs w1))" using Cons unfolding keeps_def by blast
    ultimately show "same_cm cl w (snd (create_all ic (x # obs) w))"
      using same_cm_transp [of cl] by (cases e) (auto simp: x c elim: transpE)
  qed
qed (simp add: keeps_def same_cm_def)

lemma keeps_cm_steps:
  assumes "lawful_objects cl ic get"
  shows "keeps (same_cm cl) (label_namespace ic ns)" "keeps (same_cm cl) (create_secret ic crt key)"
    "keeps (same_cm cl) (create_webhook ic ns crt)" "keeps (same_cm cl) (\<lambda>w. (f w, w))"
proof -
  show "keeps (same_cm cl) (label_namespace ic ns)"
    unfolding keeps_def same_cm_def using lawful_label [OF assms] by (metis prod.collapse)
  have "snd (create_secret ic crt key w) = snd (ic_Create ic w KSecret mgr (mgr_secret crt key))" for w
    by (simp add: create_secret_def split: prod.splits option.splits obj_err.splits)
  then show "keeps (same_cm cl) (create_secret ic crt key)"
    unfolding keeps_def using created_same_cm [OF assms] by (metis prod.collapse)
  have "snd (create_webhook ic ns crt w) = snd (ic_Create ic w KMutatingWebhookConfiguration (webhook_name ns) (OWebhook (mgr_webhook ns crt)))" for w
    by (simp add: create_webhook_def split: prod.splits option.splits obj_err.splits)
  then show "keeps (same_cm cl) (create_webhook ic ns crt)"
    unfolding keeps_def using created_same_cm [OF assms] by (metis prod.collapse)
  show "keeps (same_cm cl) (\<lambda>w. (f w, w))" by (simp add: keeps_def same_cm_def)
qed

definition before_count :: "install_err \<Rightarrow> bool" where
  "before_count e \<longleftrightarrow> (case e of InstCount _ \<Rightarrow> False | _ \<Rightarrow> True)"

lemma count_in_err: "keeps_err before_count R (count_in cl)"
  by (auto simp: keeps_err_def count_in_def before_count_def split: prod.splits option.splits)

lemma start_before_count:
  assumes "lawful_objects cl ic get"
  shows "keeps_err before_count (same_cm cl) (start_manager cl ic img rounds ns crt key)"
  unfolding start_manager_def
  by (intro keeps_err_and_then same_cm_transp keeps_cm_steps [OF assms] keeps_cm_all [OF assms] count_in_err)

lemma install_before_count:
  assumes "lawful_objects cl ic get" and "install cl ic img rounds ns w = (Some e, w')" and "before_count e"
  shows "cm_Get cl w' = cm_Get cl w"
proof -
  have "keeps_err before_count (same_cm cl) (\<lambda>w. case ic_Cert ic (GetTlsDomain ns) of Inl e \<Rightarrow> (Some (InstCert e), w)
      | Inr (crt, key) \<Rightarrow> start_manager cl ic img rounds ns crt key w)"
  proof (cases "ic_Cert ic (GetTlsDomain ns)")
    case (Inl x)
    then show ?thesis by (simp add: keeps_err_def same_cm_def)
  next
    case (Inr p)
    with start_before_count [OF assms(1)] show ?thesis by (cases p) simp
  qed
  then have "keeps_err before_count (same_cm cl) (install cl ic img rounds ns)"
    unfolding install_def by (intro keeps_err_and_then same_cm_transp keeps_cm_steps [OF assms(1)] keeps_cm_all [OF assms(1)])
  with assms(2,3) show ?thesis unfolding keeps_err_def same_cm_def by blast
qed

lemma createOutboundPod_before_count:
  assumes "lawful_objects cl ic get" and "createOutboundPod cl ic img rounds ns w = (Some e, w')" and "before_count e"
  shows "cm_Get cl w' = cm_Get cl w"
proof (cases "ic_GetService ic w mgr \<and> ic_AttachablePod ic w mgr")
  case True
  with assms(2,3) count_in_err [of "\<lambda>_ _. False" cl] show ?thesis unfolding createOutboundPod_def keeps_err_def by auto
next
  case False
  with assms(2) obtain w1 where "install cl ic img rounds ns (deleteResource ic ns w) = (Some e, w1)" "w' = deleteResource ic ns w1"
    unfolding createOutboundPod_def by (auto split: prod.splits option.splits if_splits)
  with install_before_count [OF assms(1) _ assms(3)] show ?thesis by (simp add: deleteResource_cm [OF assms(1)])
qed

lemma stored_init:
  assumes "lawful_client cl" and "stored_key cl k w = Some v" and "InitDHCP cl ips w = (None, ips', w')"
  shows "w' = w"
proof -
  from assms(2) obtain cm where "cm_Get cl w ConfigMapPodTrafficManager = Inr cm" by (auto simp: stored_key_def split: sum.splits)
  with assms(3) show ?thesis by (auto simp: InitDHCP_def initDHCP_def Let_def split: option.splits prod.splits sum.splits)
qed

text \<open>The count just before a clean-up takes the client off it.\<close>

definition after_release :: "'w cm_client \<Rightarrow> 'w connection \<Rightarrow> 'w \<Rightarrow> 'w" where
  "after_release cl c w = (case cn_dhcp c of Some d \<Rightarrow> snd (ReleaseIP cl id d (tun_ips c) w) | None \<Rightarrow> w)"

lemma connect_host_err: "fst (connect_host he isLite c) \<noteq> Some (CInstall e)"
  by (simp add: connect_host_def connect_routes_def Let_def split: sum.splits option.splits prod.splits)

lemma connect_manager_install:
  assumes "connect_manager he cs img isLite c w = (Fail (CInstall e), c', w')"
  shows "\<exists>ns. createOutboundPod (cs_cm cs) (cs_inst cs) img (he_rounds he) ns w = (Some e, w')"
proof -
  obtain x w1 where o: "createOutboundPod (cs_cm cs) (cs_inst cs) img (he_rounds he) (co_namespace (op_ips c)) w = (x, w1)" by fastforce
  obtain i w2 where i: "setImage (he_images he) (he_deploy he) img w1 = (i, w2)" by fastforce
  obtain h c2 where h: "connect_host he isLite c = (h, c2)" by fastforce
  have "h \<noteq> Some (CInstall e)" using connect_host_err [of he isLite c e] h by simp
  with assms have "x = Some e \<and> w1 = w'" unfolding connect_manager_def o
    by (cases x) (auto simp: i h split: outcome.splits option.splits)
  with o show ?thesis by blast
qed

lemma new_count_down:
  assumes "0 < n" and "n < 2 ^ 63"
  shows "new_count (show_int n) (- 1) = n - 1"
proof -
  have "atoi (show_int n) = (n, None)" using assms by (intro atoi_show_int) simp_all
  moreover have "add64 n (- 1) = n - 1" using assms add64_exact [of n "- 1"] by simp
  ultimately show ?thesis using assms(1) by (simp add: new_count_def)
qed

lemma stored_count:
  assumes "lawful_patch cl" and "stored_key cl KeyRefCount w = Some v" and "updateRefCount cl id ConfigMapPodTrafficManager i w = ((m, None), w')"
  shows "m = new_count v i \<and> stored_key cl KeyRefCount w' = Some (show_int (new_count v i))"
proof -
  from assms(2) obtain cm where cm: "cm_Get cl w ConfigMapPodTrafficManager = Inr cm" "data_at (cm_data cm) KeyRefCount = v"
    by (auto simp: stored_key_def data_at_def split: sum.splits)
  from update_count_stored [OF assms(1) cm(1) assms(3)] cm(2) show ?thesis by (auto simp: stored_key_def)
qed


section \<open>An example of a failing connection\<close>

lemma lawful_iw_cm: "lawful_client iw_cm"
proof -
  have get: "cm_Get iw_cm w = st_get (iw_cms w)" for w by (simp add: iw_cm_def)
  have upd: "cm_Update iw_cm w cm = (r, w') \<longleftrightarrow> (\<exists>s. st_update (iw_cms w) cm = (r, s) \<and> w' = w\<lparr>iw_cms := s\<rparr>)" for w cm r w'
    by (auto simp: iw_cm_def map_prod_def split: prod.splits)
  show ?thesis
    unfolding lawful_client_def
  proof (intro conjI allI impI)
    fix w n cm
    assume "cm_Get iw_cm w n = Inr cm"
    then show "cm_name cm = n" using st_get_name by (simp add: get)
  next
    fix w cm e w'
    assume "cm_Update iw_cm w cm = (Inl e, w')"
    then show "w' = w" using lawful_Update_fails [OF lawful_store] by (auto simp: upd)
  next
    fix w cm cm' w'
    assume "cm_Update iw_cm w cm = (Inr cm', w')"
    then obtain s where s: "st_update (iw_cms w) cm = (Inr cm', s)" "iw_cms w' = s" by (auto simp: upd)
    have "cm_Update store_client (iw_cms w) cm = (Inr cm', s)" using s(1) by simp
    from lawful_Update_succeeds [OF lawful_store this] show "\<exists>old. cm_Get iw_cm w (cm_name cm) = Inr old \<and> cm_version old = cm_version cm
        \<and> cm_Get iw_cm w' (cm_name cm) = Inr cm' \<and> cm_version old < cm_version cm'
        \<and> (\<forall>k. gomap_get (cm_data cm') k = gomap_get (cm_data cm) k)"
      unfolding get s(2) store_client_simps by metis
  qed
qed

lemma iw_counts:
  assumes "st_get (iw_cms w) mgr = Inr cm"
  shows "\<exists>m w'. updateRefCount iw_cm id mgr i w = ((m, None), w')"
proof -
  let ?n = "new_count (data_at (cm_data cm) KeyRefCount) i"
  let ?f = "case cm_data cm of None \<Rightarrow> (\<lambda>_. None) | Some f \<Rightarrow> f"
  let ?cm = "cm\<lparr>cm_data := Some (?f ++ map_of [(KeyRefCount, show_int ?n)])\<rparr>"
  obtain cm' s' where put: "st_put (iw_cms w) ?cm = (Inr cm', s')" by (simp add: st_put_def Let_def)
  then have c: "cm_data cm' = cm_data ?cm" by (auto simp: st_put_def Let_def)
  have p: "st_patch (iw_cms w) mgr (MergeData [(KeyRefCount, show_int ?n)]) = (Inr cm', s')"
    using put by (simp add: st_patch_def assms Let_def)
  have g: "st_get s' mgr = Inr cm'" using st_get_put [OF put] st_get_name [OF assms] by simp
  have "data_at (cm_data cm') KeyRefCount = show_int ?n" by (simp add: c data_at_def)
  then show ?thesis
    unfolding updateRefCount_def count_once count_round_def iw_cm_def
    by (simp add: assms p g atoi_count)
qed

definition failing_cm :: configmap where
  "failing_cm = \<lparr>cm_name = mgr, cm_namespace = ''default'', cm_version = 1,
     cm_data = Some [KeyRefCount \<mapsto> ''1'', KeyEnvoy \<mapsto> '''', KeyClusterIPv4POOLS \<mapsto> ''10.0.0.0/8'']\<rparr>"

definition failing_world :: inst_world where
  "failing_world = \<lparr>iw_cms = \<lparr>st_rev = 2, st_cms = [mgr \<mapsto> failing_cm]\<rparr>, iw_objs = Map.empty\<rparr>"

definition no_workloads :: "('w, 'p, 'a) wl_client" where
  "no_workloads = \<lparr>wl_Get = \<lambda>w n. Inl ''none'', wl_Patch = \<lambda>w ob ops. (None, w), wl_Delete = \<lambda>w n. (None, w), wl_Create = \<lambda>w p. (None, w),
     wl_Running = \<lambda>w n. True, wl_Rollout = \<lambda>w n. None\<rparr>"

definition failing_cs :: "(inst_world, unit, unit) clientset" where
  "failing_cs = \<lparr>cs_cm = iw_cm, cs_uid = (\<lambda>_. Inr ''uid''), cs_inst = iw_client False, cs_wl = no_workloads, cs_unavailable = (\<lambda>_. Some 0)\<rparr>"

definition example_host :: "(inst_world, unit, nat) host_env" where
  "example_host =
     \<lparr>he_unsorted = id, he_lookupIP = (\<lambda>_. []), he_apiHost = ''https://10.0.0.1'', he_elegant = Ret [], he_ugly = [],
      he_images = \<lparr>il_parse = \<lambda>_. Inr ((), None), il_version = \<lambda>_. None, il_ge = (\<le>)\<rparr>,
      he_deploy = \<lparr>dc_Get = \<lambda>w. Inl ''none'', dc_Infos = \<lambda>w. Inr [], dc_Patch = \<lambda>w d. (None, w), dc_Rollout = \<lambda>w. None\<rparr>,
      he_rounds = 2, he_port = Inr, he_forward = (\<lambda>_. [ForwardReady]), he_serve = (\<lambda>_ _ _ _ _ _. None), he_router = None, he_ifs = [],
      he_pods = (Inr [], Inr [], []), he_svcs = (Inr [], Inr [], []), he_firewall = id, he_dnsIPs = Inr [], he_podErr = None,
      he_iface = (\<lambda>_. None), he_dig = (\<lambda>_. None), he_answers = (\<lambda>_ _. Inr []), he_dns = (\<lambda>_ _. None)\<rparr>"

definition fresh_options :: "nat \<Rightarrow> string \<Rightarrow> ('w, 'p, 'a) clientset option \<Rightarrow> ('w, 'p, 'a) ConnectOptions" where
  "fresh_options i ns cs =
     \<lparr>op_id = i, op_ips = \<lparr>co_namespace = ns, co_dhcp = None, co_localTunIPv4 = None, co_localTunIPv6 = None\<rparr>, op_Headers = None,
      op_Workloads = [], op_ExtraCIDR = [], op_ExtraDomain = [], op_UseLocalDNS = False, op_Engine = ''mix'', op_OriginKubeconfigPath = [],
      op_clientset = cs, op_cidrs = [], op_apiServerIPs = [], op_extraHost = [], op_rollback = []\<rparr>"

lemma failing_get: "cm_Get iw_cm failing_world mgr = Inr failing_cm"
  by (simp add: iw_cm_def failing_world_def st_get_def failing_cm_def)

lemma failing_connect:
  "\<exists>c' w'. DoConnect example_host failing_cs ''img'' False (fresh_options 0 ''default'' (Some failing_cs)) failing_world
      = (Fail (CInstall InstTimeout), c', w') \<and> iw_cms w' = iw_cms failing_world \<and> tun_ips (connection_of c') = []"
proof -
  have keys: "KeyClusterIPv4POOLS \<noteq> KeyRefCount" "KeyClusterIPv4POOLS \<noteq> KeyEnvoy" "KeyEnvoy \<noteq> KeyClusterIPv4POOLS"
    by (simp_all add: key_defs KeyClusterIPv4POOLS_def)
  have net: "cached_cidrs ''10.0.0.0/8'' [] \<noteq> []" by code_simp
  have init: "initDHCP iw_cm d failing_world = (None, failing_world)" for d
    using keys by (simp add: initDHCP_def failing_get) (simp add: failing_cm_def)
  have pools: "dhcp_Get iw_cm KeyClusterIPv4POOLS failing_world = Inr ''10.0.0.0/8''"
    by (simp add: dhcp_Get_def failing_get) (simp add: failing_cm_def)
  have cidr: "getCIDR iw_cm u l ''https://10.0.0.1'' el ug [] failing_world = (Ret (cached_cidrs ''10.0.0.0/8'' []), failing_world)" for u l el ug
    using net by (simp add: getCIDR_def pools drop_api_cidrs_def api_server_without_port)
  have p: "\<not> pod_is_ready \<lparr>st_Deleting = False, st_Ready = False, st_ContainersReady = [True]\<rparr>"
    by (simp add: pod_is_ready_def)
  have two: "(2 :: nat) = Suc (Suc 0)" by simp
  have "\<exists>w'. createOutboundPod iw_cm (iw_client False) ''img'' 2 ''default'' failing_world = (Some InstTimeout, w') \<and> iw_cms w' = iw_cms failing_world"
    by (simp add: createOutboundPod_def install_def start_manager_def and_then_def label_namespace_def create_secret_def create_webhook_def
        deleteResource_def iw_client_def failing_world_def p two)
  then show ?thesis
    by (auto simp: DoConnect_def connect_manager_def InitDHCP_def init Let_def fresh_options_def failing_cs_def example_host_def cidr
        api_server_without_port connection_of_def tun_ips_def)
qed


end
