(* ===== verification/Daemon.thy ===== *)
theory Daemon
  imports Connection
begin

text \<open>
  The daemon (\<^verbatim>\<open>src/pkg/daemon/action/\<close>).  Two of them run on a host: the user daemon, which the command line talks to, and the sudo
  daemon, which owns the tunnel devices; each keeps the state \<open>Server\<close>, and a handler of the user daemon calls the handler of the same
  name of the sudo daemon.  The handlers are functions on the state of both daemons, the cluster and the hosts file.  Requests are handled
  one at a time.  SSH tunnels, the transfer of images and the files they need are fields of \<open>daemon_env\<close>, of which each daemon has one; \<open>de_gone\<close> says that
  the caller of a handler has gone and a message to it could not be sent.
\<close>

section \<open>Requests and state\<close>

record SshJump =
  sj_Addr :: string
  sj_User :: string
  sj_Password :: string
  sj_Keyfile :: string
  sj_ConfigAlias :: string
  sj_RemoteKubeconfig :: string

record SshConfig =
  sc_Addr :: string
  sc_User :: string
  sc_Password :: string
  sc_Keyfile :: string
  sc_ConfigAlias :: string
  sc_RemoteKubeconfig :: string

definition ParseSshFromRPC :: "SshJump option \<Rightarrow> SshConfig" where
  "ParseSshFromRPC sshJump =
     (case sshJump of
        None \<Rightarrow> \<lparr>sc_Addr = [], sc_User = [], sc_Password = [], sc_Keyfile = [], sc_ConfigAlias = [], sc_RemoteKubeconfig = []\<rparr>
      | Some j \<Rightarrow> \<lparr>sc_Addr = sj_Addr j, sc_User = sj_User j, sc_Password = sj_Password j, sc_Keyfile = sj_Keyfile j,
                   sc_ConfigAlias = sj_ConfigAlias j, sc_RemoteKubeconfig = sj_RemoteKubeconfig j\<rparr>)"

definition ToRPC :: "SshConfig \<Rightarrow> SshJump" where
  "ToRPC s = \<lparr>sj_Addr = sc_Addr s, sj_User = sc_User s, sj_Password = sc_Password s, sj_Keyfile = sc_Keyfile s,
     sj_ConfigAlias = sc_ConfigAlias s, sj_RemoteKubeconfig = sc_RemoteKubeconfig s\<rparr>"

lemma ParseSsh_ToRPC: "ParseSshFromRPC (Some (ToRPC s)) = s"
  by (simp add: ParseSshFromRPC_def ToRPC_def)

record ConnectRequest =
  cr_KubeconfigBytes :: string
  cr_Namespace :: string
  cr_Headers :: header_map
  cr_Workloads :: "string list"
  cr_ExtraCIDR :: "string list"
  cr_ExtraDomain :: "string list"
  cr_UseLocalDNS :: bool
  cr_Engine :: string
  cr_SshJump :: "SshJump option"
  cr_TransferImage :: bool
  cr_Image :: string
  cr_Foreground :: bool
  cr_OriginKubeconfigPath :: string

record DisconnectRequest =
  dq_All :: bool
  dq_ID :: "32 word option"

text \<open>\<open>sv_t\<close> says that the time of the connection is set; a clone is its \<^verbatim>\<open>Cleanup\<close> method, called with workloads.\<close>

record ('w, 'p, 'a) Server =
  sv_t :: bool
  sv_connect :: "('w, 'p, 'a) ConnectOptions option"
  sv_clone :: "(string list \<Rightarrow> 'w \<Rightarrow> string option \<times> 'w) option"
  sv_secondary :: "('w, 'p, 'a) ConnectOptions list"

definition new_server :: "('w, 'p, 'a) Server" where
  "new_server = \<lparr>sv_t = False, sv_connect = None, sv_clone = None, sv_secondary = []\<rparr>"

record ('w, 'p, 'a) daemons =
  ds_user :: "('w, 'p, 'a) Server"
  ds_sudo :: "('w, 'p, 'a) Server"
  ds_world :: 'w
  ds_hosts :: "string option"
  ds_next :: nat

text \<open>What a kubeconfig gives: the errors of the configuration and of the REST client, the clientset, and the namespace with its error.\<close>

record ('w, 'p, 'a) factory =
  fa_config :: "string option"
  fa_rest :: "string option"
  fa_clientset :: "string + ('w, 'p, 'a) clientset"
  fa_namespace :: "string \<times> string option"

record ('w, 'p, 't, 'a, 'd, 'v) daemon_env =
  de_sudo :: bool
  de_user :: bool
  de_gone :: bool
  de_temp :: "string \<Rightarrow> string + string"
  de_ssh :: "SshConfig \<Rightarrow> string \<Rightarrow> string + string"
  de_sshCancel :: "'w \<Rightarrow> 'w"
  de_transfer :: "SshConfig \<Rightarrow> string \<Rightarrow> string option"
  de_factory :: "string \<Rightarrow> string \<Rightarrow> ('w, 'p, 'a) factory"
  de_query :: "'w \<Rightarrow> string finder"
  de_sel :: "'w \<Rightarrow> string \<Rightarrow> string + Info list"
  de_svc :: "'w \<Rightarrow> string \<Rightarrow> (string \<times> string list option) option"
  de_first :: "string list \<Rightarrow> string"
  de_nics :: "string + ip list"
  de_host :: "('w, 'd, 'v) host_env"
  de_yaml :: yaml_codec
  de_json :: "('p, 't, 'a) json_codec"
  de_envoy :: string
  de_image :: string

datatype daemon_err = AlreadyExists | NoSudoDaemon | NoDaemon | ClientGone | NotConnected | DStep string | DCheck "string find_err"
  | DDhcp dhcp_err | DConnect connect_err | DInject inject_err

text \<open>
  How a handler ends: it returns without or with an error, a daemon panics, the handler never returns, or it waits for its caller to
  leave.
\<close>

datatype reply = Done | Failed daemon_err | Crash | Hang | Waiting

section \<open>Connecting\<close>

definition new_options :: "nat \<Rightarrow> ConnectRequest \<Rightarrow> ('w, 'p, 'a) ConnectOptions" where
  "new_options i req =
     \<lparr>op_id = i, op_ips = \<lparr>co_namespace = cr_Namespace req, co_dhcp = None, co_localTunIPv4 = None, co_localTunIPv6 = None\<rparr>,
      op_Headers = cr_Headers req, op_Workloads = cr_Workloads req, op_ExtraCIDR = cr_ExtraCIDR req, op_ExtraDomain = cr_ExtraDomain req,
      op_UseLocalDNS = cr_UseLocalDNS req, op_Engine = cr_Engine req, op_OriginKubeconfigPath = cr_OriginKubeconfigPath req,
      op_clientset = None, op_cidrs = [], op_apiServerIPs = [], op_extraHost = [], op_rollback = []\<rparr>"

text \<open>Without an SSH server the path is that of the flag, which is the file; the rest opens the tunnel.\<close>

definition SshJump_path :: "(SshConfig \<Rightarrow> string \<Rightarrow> string + string) \<Rightarrow> SshConfig \<Rightarrow> string \<Rightarrow> string + string" where
  "SshJump_path ssh conf file = (if sc_Addr conf = [] \<and> sc_ConfigAlias conf = [] then Inr file else ssh conf file)"

definition InitClient :: "('w, 'p, 'a) factory \<Rightarrow> ('w, 'p, 'a) ConnectOptions \<Rightarrow> string option \<times> ('w, 'p, 'a) ConnectOptions" where
  "InitClient f c =
     (case fa_config f of
        Some e \<Rightarrow> (Some e, c)
      | None \<Rightarrow>
          (case fa_rest f of
             Some e \<Rightarrow> (Some e, c)
           | None \<Rightarrow>
               (case fa_clientset f of
                  Inl e \<Rightarrow> (Some e, c\<lparr>op_clientset := None\<rparr>)
                | Inr cs \<Rightarrow>
                    (snd (fa_namespace f),
                     c\<lparr>op_clientset := Some cs, op_ips := (op_ips c)\<lparr>co_namespace := fst (fa_namespace f)\<rparr>\<rparr>))))"

text \<open>The part that all handlers share: the kubeconfig, the clients and the workloads.  \<open>rollback\<close> are the functions added on the way.\<close>

definition prepare ::
  "('w, 'p, 't, 'a, 'd, 'v) daemon_env \<Rightarrow> ('w \<Rightarrow> 'w) list \<Rightarrow> ConnectRequest \<Rightarrow> ('w, 'p, 'a) ConnectOptions \<Rightarrow> 'w
   \<Rightarrow> reply \<times> ('w, 'p, 'a) ConnectOptions" where
  "prepare env rollback req c w =
     (case de_temp env (cr_KubeconfigBytes req) of
        Inl e \<Rightarrow> (Failed (DStep e), c)
      | Inr file \<Rightarrow>
          (let c1 = fold AddRolloutFunc rollback c in
           case SshJump_path (de_ssh env) (ParseSshFromRPC (cr_SshJump req)) file of
             Inl e \<Rightarrow> (Failed (DStep e), c1)
           | Inr path \<Rightarrow>
               (case InitClient (de_factory env path (cr_Namespace req)) c1 of
                  (Some e, c2) \<Rightarrow> (Failed (DStep e), c2)
                | (None, c2) \<Rightarrow>
                    (case PreCheckResource (de_query env w) (de_sel env w) (de_svc env w) (de_first env) (op_Workloads c2) of
                       None \<Rightarrow> (Hang, c2)
                     | Some (Some e, ws) \<Rightarrow> (Failed (DCheck e), c2\<lparr>op_Workloads := ws\<rparr>)
                     | Some (None, ws) \<Rightarrow> (Done, c2\<lparr>op_Workloads := ws\<rparr>)))))"

definition transfer :: "('w, 'p, 't, 'a, 'd, 'v) daemon_env \<Rightarrow> ConnectRequest \<Rightarrow> string option" where
  "transfer env req = (if cr_TransferImage req then de_transfer env (ParseSshFromRPC (cr_SshJump req)) (cr_Image req) else None)"

text \<open>Renting the addresses: the headers for the call to the other daemon, and the options with the addresses.\<close>

definition rent ::
  "('w, 'p, 't, 'a, 'd, 'v) daemon_env \<Rightarrow> (string list \<times> string list) option \<Rightarrow> ('w, 'p, 'a) ConnectOptions \<Rightarrow> 'w
   \<Rightarrow> reply \<times> (string \<times> string) list \<times> ('w, 'p, 'a) ConnectOptions \<times> 'w" where
  "rent env md c w =
     (case op_clientset c of
        None \<Rightarrow> (Crash, [], c, w)
      | Some cs \<Rightarrow>
          (case RentInnerIP (cs_cm cs) id (de_nics env) md (op_ips c) w of
             (Inl e, ips, w') \<Rightarrow> (Failed (DDhcp e), [], c\<lparr>op_ips := ips\<rparr>, w')
           | (Inr out, ips, w') \<Rightarrow> (Done, out, c\<lparr>op_ips := ips\<rparr>, w')))"

text \<open>The headers as the other daemon receives them; a call always carries metadata.\<close>

definition received :: "(string \<times> string) list \<Rightarrow> (string list \<times> string list) option" where
  "received out = Some (map snd (filter (\<lambda>h. fst h = ''IPv4'') out), map snd (filter (\<lambda>h. fst h = ''IPv6'') out))"

text \<open>The connection itself, with the clean-up when it fails.\<close>

definition establish ::
  "('w, 'p, 't, 'a, 'd, 'v) daemon_env \<Rightarrow> ConnectRequest \<Rightarrow> bool \<Rightarrow> ('w, 'p, 'a) ConnectOptions \<Rightarrow> 'w \<Rightarrow> reply \<times> ('w, 'p, 'a) ConnectOptions \<times> 'w" where
  "establish env req isLite c w =
     (case op_clientset c of
        None \<Rightarrow> (Crash, c, w)
      | Some cs \<Rightarrow>
          (case DoConnect (de_host env) cs (cr_Image req) isLite c w of
             (Ret _, c', w') \<Rightarrow> (Done, c', w')
           | (Panic, c', w') \<Rightarrow> (Crash, c', w')
           | (Fail e, c', w') \<Rightarrow>
               (case options_Cleanup (de_yaml env) (de_json env) c' w' of
                  (Panic, w'') \<Rightarrow> (Crash, c', w'')
                | (_, w'') \<Rightarrow> (Failed (DConnect e), c', w''))))"

text \<open>
  \<^verbatim>\<open>Connect\<close> in the sudo daemon.  The state is set before anything can fail, and reset only when \<^verbatim>\<open>DoConnect\<close> fails.
\<close>

definition connect_sudo ::
  "('w, 'p, 't, 'a, 'd, 'v) daemon_env \<Rightarrow> (string list \<times> string list) option \<Rightarrow> ConnectRequest \<Rightarrow> ('w, 'p, 'a) daemons \<Rightarrow> reply \<times> ('w, 'p, 'a) daemons" where
  "connect_sudo env md req s =
     (if sv_t (ds_sudo s) then (Failed AlreadyExists, s)
      else
        (let c0 = new_options (ds_next s) req;
             put = (\<lambda>c w. s\<lparr>ds_sudo := (ds_sudo s)\<lparr>sv_t := True, sv_connect := Some c\<rparr>, ds_world := w, ds_next := Suc (ds_next s)\<rparr>)
         in case transfer env req of
              Some e \<Rightarrow> (Failed (DStep e), put c0 (ds_world s))
            | None \<Rightarrow>
                (case prepare env [de_sshCancel env] req c0 (ds_world s) of
                   (Done, c1) \<Rightarrow>
                     (case rent env md c1 (ds_world s) of
                        (Done, _, c2, w2) \<Rightarrow>
                          (case establish env req False c2 w2 of
                             (Failed e, _, w3) \<Rightarrow>
                               (Failed e, s\<lparr>ds_sudo := (ds_sudo s)\<lparr>sv_t := False, sv_connect := None\<rparr>, ds_world := w3, ds_next := Suc (ds_next s)\<rparr>)
                           | (r, c3, w3) \<Rightarrow> (r, put c3 w3))
                      | (r, _, c2, w2) \<Rightarrow> (r, put c2 w2))
                 | (r, c1) \<Rightarrow> (r, put c1 (ds_world s)))))"

text \<open>The test for a connection to the same cluster with the same options.\<close>

definition already :: "('w, 'p, 'a) ConnectOptions \<Rightarrow> ('w, 'p, 'a) ConnectOptions \<Rightarrow> 'w \<Rightarrow> bool" where
  "already old new w \<longleftrightarrow>
     (case (op_clientset old, op_clientset new) of
        (Some a, Some b) \<Rightarrow> IsSameCluster a (co_namespace (op_ips old)) b (co_namespace (op_ips new)) w = Inr True \<and> options_Equal old new
      | _ \<Rightarrow> False)"

text \<open>
  \<^verbatim>\<open>redirectToSudoDaemon\<close>: the addresses are rented here, and sent along to the sudo daemon.  When the caller has gone the answer of the
  sudo daemon cannot be forwarded, and the connection is not recorded.
\<close>

definition redirectToSudoDaemon ::
  "('w, 'p, 't, 'a, 'd, 'v) daemon_env \<Rightarrow> ('w, 'p, 't, 'a, 'd, 'v) daemon_env \<Rightarrow> (string list \<times> string list) option \<Rightarrow> ConnectRequest
   \<Rightarrow> ('w, 'p, 'a) daemons \<Rightarrow> reply \<times> ('w, 'p, 'a) daemons" where
  "redirectToSudoDaemon eu es md req s0 =
     (if \<not> de_sudo eu then (Failed NoSudoDaemon, s0)
      else
        (let s = s0\<lparr>ds_next := Suc (ds_next s0)\<rparr> in
         case prepare eu [de_sshCancel eu] req (new_options (ds_next s0) req) (ds_world s) of
           (Done, c1) \<Rightarrow>
             if (case sv_connect (ds_user s) of None \<Rightarrow> False | Some old \<Rightarrow> already old c1 (ds_world s)) then (Done, s)
             else (case rent eu md c1 (ds_world s) of
                     (Done, out, c2, w2) \<Rightarrow>
                       (case connect_sudo es (received out) req (s\<lparr>ds_world := w2\<rparr>) of
                          (Done, s3) \<Rightarrow>
                            if de_gone eu then (Failed ClientGone, s3)
                            else (if cr_Foreground req then Waiting else Done, s3\<lparr>ds_user := (ds_user s3)\<lparr>sv_t := True, sv_connect := Some c2\<rparr>\<rparr>)
                        | (r, s3) \<Rightarrow> (r, s3))
                   | (r, _, _, w2) \<Rightarrow> (r, s\<lparr>ds_world := w2\<rparr>))
         | (r, _) \<Rightarrow> (r, s)))"

section \<open>Further connections\<close>

definition connect_fork_sudo ::
  "('w, 'p, 't, 'a, 'd, 'v) daemon_env \<Rightarrow> (string list \<times> string list) option \<Rightarrow> ConnectRequest \<Rightarrow> ('w, 'p, 'a) daemons \<Rightarrow> reply \<times> ('w, 'p, 'a) daemons" where
  "connect_fork_sudo env md req s0 =
     (let s = s0\<lparr>ds_next := Suc (ds_next s0)\<rparr> in
      case transfer env req of
        Some e \<Rightarrow> (Failed (DStep e), s)
      | None \<Rightarrow>
          (case prepare env [de_sshCancel env] req (new_options (ds_next s0) req) (ds_world s) of
             (Done, c1) \<Rightarrow>
               (case rent env md c1 (ds_world s) of
                  (Done, _, c2, w2) \<Rightarrow>
                    (case establish env req True c2 w2 of
                       (Done, c3, w3) \<Rightarrow> (Done, s\<lparr>ds_sudo := (ds_sudo s)\<lparr>sv_secondary := sv_secondary (ds_sudo s) @ [c3]\<rparr>, ds_world := w3\<rparr>)
                     | (r, _, w3) \<Rightarrow> (r, s\<lparr>ds_world := w3\<rparr>))
                | (r, _, _, w2) \<Rightarrow> (r, s\<lparr>ds_world := w2\<rparr>))
           | (r, _) \<Rightarrow> (r, s)))"

definition redirectConnectForkToSudoDaemon ::
  "('w, 'p, 't, 'a, 'd, 'v) daemon_env \<Rightarrow> ('w, 'p, 't, 'a, 'd, 'v) daemon_env \<Rightarrow> (string list \<times> string list) option \<Rightarrow> ConnectRequest
   \<Rightarrow> ('w, 'p, 'a) daemons \<Rightarrow> reply \<times> ('w, 'p, 'a) daemons" where
  "redirectConnectForkToSudoDaemon eu es md req s0 =
     (if \<not> de_sudo eu then (Failed NoSudoDaemon, s0)
      else
        (let s = s0\<lparr>ds_next := Suc (ds_next s0)\<rparr> in
         case prepare eu [de_sshCancel eu] req (new_options (ds_next s0) req) (ds_world s) of
           (Done, c1) \<Rightarrow>
             if list_ex (\<lambda>old. already old c1 (ds_world s)) (sv_secondary (ds_user s)) then (Done, s)
             else (case rent eu md c1 (ds_world s) of
                     (Done, out, c2, w2) \<Rightarrow>
                       (case connect_fork_sudo es (received out) req (s\<lparr>ds_world := w2\<rparr>) of
                          (Done, s3) \<Rightarrow>
                            if de_gone eu then (Failed ClientGone, s3)
                            else (if cr_Foreground req then Waiting else Done,
                                  s3\<lparr>ds_user := (ds_user s3)\<lparr>sv_secondary := sv_secondary (ds_user s3) @ [c2]\<rparr>\<rparr>)
                        | (r, s3) \<Rightarrow> (r, s3))
                   | (r, _, _, w2) \<Rightarrow> (r, s\<lparr>ds_world := w2\<rparr>))
         | (r, _) \<Rightarrow> (r, s)))"

section \<open>Disconnecting\<close>

text \<open>Clean up connections in turn; only a panic ends it, errors are logged.\<close>

fun cleanup_all ::
  "('w, 'p, 't, 'a, 'd, 'v) daemon_env \<Rightarrow> ('w, 'p, 'a) ConnectOptions list \<Rightarrow> 'w \<Rightarrow> reply \<times> 'w" where
  "cleanup_all env [] w = (Done, w)"
| "cleanup_all env (c # cs) w =
     (case options_Cleanup (de_yaml env) (de_json env) c w of
        (Panic, w') \<Rightarrow> (Crash, w')
      | (_, w') \<Rightarrow> cleanup_all env cs w')"

definition drop_primary ::
  "('w, 'p, 't, 'a, 'd, 'v) daemon_env \<Rightarrow> ('w, 'p, 'a) Server \<Rightarrow> 'w \<Rightarrow> reply \<times> ('w, 'p, 'a) Server \<times> 'w" where
  "drop_primary env svr w =
     (case cleanup_all env (case sv_connect svr of None \<Rightarrow> [] | Some c \<Rightarrow> [c]) w of
        (Done, w1) \<Rightarrow>
          (Done, svr\<lparr>sv_t := False, sv_connect := None, sv_clone := None\<rparr>, (case sv_clone svr of None \<Rightarrow> w1 | Some f \<Rightarrow> snd (f [] w1)))
      | (r, w1) \<Rightarrow> (r, svr, w1))"

definition drop_secondary ::
  "('w, 'p, 't, 'a, 'd, 'v) daemon_env \<Rightarrow> 32 word \<Rightarrow> ('w, 'p, 'a) Server \<Rightarrow> 'w \<Rightarrow> reply \<times> ('w, 'p, 'a) Server \<times> 'w" where
  "drop_secondary env i svr w =
     (let index = sint (i - 1); l = sv_secondary svr in
      if index < sint (word_of_nat (length l) :: 32 word)
      then (if index < 0 \<or> int (length l) \<le> index then (Crash, svr, w)
            else (case cleanup_all env [l ! nat index] w of
                    (Done, w1) \<Rightarrow> (Done, svr\<lparr>sv_secondary := take (nat index) l @ drop (Suc (nat index)) l\<rparr>, w1)
                  | (r, w1) \<Rightarrow> (r, svr, w1)))
      else (Done, svr, w))"

definition disconnect_server ::
  "('w, 'p, 't, 'a, 'd, 'v) daemon_env \<Rightarrow> DisconnectRequest \<Rightarrow> ('w, 'p, 'a) Server \<Rightarrow> 'w \<Rightarrow> reply \<times> ('w, 'p, 'a) Server \<times> 'w" where
  "disconnect_server env req svr w =
     (if dq_All req
      then (case drop_primary env svr w of
              (Done, svr1, w1) \<Rightarrow>
                (case cleanup_all env (sv_secondary svr1) w1 of
                   (Done, w2) \<Rightarrow> (Done, svr1\<lparr>sv_secondary := []\<rparr>, w2)
                 | (r, w2) \<Rightarrow> (r, svr1, w2))
            | r \<Rightarrow> r)
      else (case dq_ID req of
              None \<Rightarrow> (Done, svr, w)
            | Some i \<Rightarrow> if i = 0 then drop_primary env svr w else drop_secondary env i svr w))"

definition clean_hosts :: "('w, 'p, 'a) Server \<Rightarrow> string option \<Rightarrow> string option" where
  "clean_hosts svr hosts =
     (if sv_connect svr = None \<and> sv_secondary svr = [] then (case CleanupHosts hosts of Ret s \<Rightarrow> Some s | _ \<Rightarrow> hosts) else hosts)"

text \<open>The same code in the sudo daemon and, after that, in the user daemon.\<close>

definition Disconnect ::
  "('w, 'p, 't, 'a, 'd, 'v) daemon_env \<Rightarrow> ('w, 'p, 't, 'a, 'd, 'v) daemon_env \<Rightarrow> DisconnectRequest \<Rightarrow> ('w, 'p, 'a) daemons \<Rightarrow> reply \<times> ('w, 'p, 'a) daemons" where
  "Disconnect eu es req s =
     (if \<not> de_sudo eu then (Failed NoSudoDaemon, s)
      else (case disconnect_server es req (ds_sudo s) (ds_world s) of
              (Done, sudo, w1) \<Rightarrow>
                (let s1 = s\<lparr>ds_sudo := sudo, ds_world := w1, ds_hosts := clean_hosts sudo (ds_hosts s)\<rparr> in
                 if de_gone eu then (Failed ClientGone, s1)
                 else (case disconnect_server eu req (ds_user s1) w1 of
                         (Done, user, w2) \<Rightarrow> (Done, s1\<lparr>ds_user := user, ds_world := w2, ds_hosts := clean_hosts user (ds_hosts s1)\<rparr>)
                       | (r, user, w2) \<Rightarrow> (r, s1\<lparr>ds_user := user, ds_world := w2\<rparr>)))
            | (r, sudo, w1) \<Rightarrow> (r, s\<lparr>ds_sudo := sudo, ds_world := w1\<rparr>)))"

text \<open>When the caller of a request in the foreground leaves: the first connection, or a further one that is looked up by its structure.\<close>

definition finish_connect ::
  "('w, 'p, 't, 'a, 'd, 'v) daemon_env \<Rightarrow> ('w, 'p, 't, 'a, 'd, 'v) daemon_env \<Rightarrow> ('w, 'p, 'a) daemons \<Rightarrow> reply \<times> ('w, 'p, 'a) daemons" where
  "finish_connect eu es s = (if \<not> de_user eu then (Failed NoDaemon, s) else Disconnect eu es \<lparr>dq_All = False, dq_ID = Some 0\<rparr> s)"

fun index_from :: "nat \<Rightarrow> nat \<Rightarrow> ('w, 'p, 'a) ConnectOptions list \<Rightarrow> nat option" where
  "index_from i n [] = None"
| "index_from i n (c # cs) = (if op_id c = i then Some n else index_from i (Suc n) cs)"

definition finish_connect_fork ::
  "('w, 'p, 't, 'a, 'd, 'v) daemon_env \<Rightarrow> ('w, 'p, 't, 'a, 'd, 'v) daemon_env \<Rightarrow> nat \<Rightarrow> ('w, 'p, 'a) daemons \<Rightarrow> reply \<times> ('w, 'p, 'a) daemons" where
  "finish_connect_fork eu es i s =
     (case index_from i 0 (sv_secondary (ds_user s)) of
        None \<Rightarrow> (Done, s)
      | Some n \<Rightarrow> if \<not> de_user eu then (Failed NoSudoDaemon, s) else Disconnect eu es \<lparr>dq_All = False, dq_ID = Some (word_of_nat n)\<rparr> s)"

section \<open>The other handlers\<close>

definition put_user :: "('w, 'p, 'a) ConnectOptions \<Rightarrow> ('w, 'p, 'a) daemons \<Rightarrow> ('w, 'p, 'a) daemons" where
  "put_user c s = s\<lparr>ds_user := (ds_user s)\<lparr>sv_connect := Some c\<rparr>\<rparr>"

text \<open>The last part of \<^verbatim>\<open>Proxy\<close>: the workloads of the request are set as they were sent, and injected with the image of
  the daemon, \<^verbatim>\<open>config.Image\<close>, which this handler does not set.\<close>

definition proxy_workloads ::
  "('w, 'p, 't, 'a, 'd, 'v) daemon_env \<Rightarrow> ConnectRequest \<Rightarrow> ('w, 'p, 'a) daemons \<Rightarrow> reply \<times> ('w, 'p, 'a) daemons" where
  "proxy_workloads env req s =
     (case sv_connect (ds_user s) of
        None \<Rightarrow> (Crash, s)
      | Some c \<Rightarrow>
          (let c1 = c\<lparr>op_Workloads := cr_Workloads req, op_Headers := cr_Headers req\<rparr>; s1 = put_user c1 s in
           case op_clientset c1 of
             None \<Rightarrow> (Crash, s1)
           | Some cs \<Rightarrow>
               (case CreateRemoteInboundPod (cs_cm cs) (de_yaml env) (de_json env) (cs_wl cs) (de_image env) (de_envoy env)
                       (co_localTunIPv4 (op_ips c1), co_localTunIPv6 (op_ips c1)) (op_Workloads c1) (op_Headers c1) (ds_world s1) of
                  (Ret _, w) \<Rightarrow> (Done, s1\<lparr>ds_world := w\<rparr>)
                | (Fail e, w) \<Rightarrow> (Failed (DInject e), s1\<lparr>ds_world := w\<rparr>)
                | (Panic, w) \<Rightarrow> (Crash, s1\<lparr>ds_world := w\<rparr>))))"

text \<open>\<^verbatim>\<open>Proxy\<close> calls the handlers of its own daemon; a connection in the foreground is over when the call returns.\<close>

definition proxy_connect ::
  "('w, 'p, 't, 'a, 'd, 'v) daemon_env \<Rightarrow> ('w, 'p, 't, 'a, 'd, 'v) daemon_env \<Rightarrow> ConnectRequest \<Rightarrow> ('w, 'p, 'a) daemons \<Rightarrow> reply \<times> ('w, 'p, 'a) daemons" where
  "proxy_connect eu es req s =
     (if sv_connect (ds_user s) \<noteq> None then (Done, s)
      else (case redirectToSudoDaemon eu es (received []) req s of
              (Waiting, s1) \<Rightarrow> finish_connect eu es s1
            | r \<Rightarrow> r))"

text \<open>A connection to another cluster, or with other options, is ended first.\<close>

definition proxy_release ::
  "('w, 'p, 't, 'a, 'd, 'v) daemon_env \<Rightarrow> ('w, 'p, 't, 'a, 'd, 'v) daemon_env \<Rightarrow> ('w, 'p, 'a) ConnectOptions \<Rightarrow> ('w, 'p, 'a) daemons
   \<Rightarrow> reply \<times> ('w, 'p, 'a) daemons" where
  "proxy_release eu es c1 s =
     (case sv_connect (ds_user s) of
        None \<Rightarrow> (Done, s)
      | Some old \<Rightarrow> if already old c1 (ds_world s) then (Done, s) else Disconnect eu es \<lparr>dq_All = False, dq_ID = Some 0\<rparr> s)"

definition Proxy ::
  "('w, 'p, 't, 'a, 'd, 'v) daemon_env \<Rightarrow> ('w, 'p, 't, 'a, 'd, 'v) daemon_env \<Rightarrow> ConnectRequest \<Rightarrow> ('w, 'p, 'a) daemons \<Rightarrow> reply \<times> ('w, 'p, 'a) daemons" where
  "Proxy eu es req s0 =
     (let s = s0\<lparr>ds_next := Suc (ds_next s0)\<rparr> in
      case prepare eu [] req (new_options (ds_next s0) req) (ds_world s) of
        (Done, c1) \<Rightarrow>
          if \<not> de_user eu then (Failed NoDaemon, s)
          else (case proxy_release eu es c1 s of
                  (Done, s1) \<Rightarrow>
                    (case proxy_connect eu es req s1 of
                       (Done, s2) \<Rightarrow> proxy_workloads eu req s2
                     | r \<Rightarrow> r)
                | r \<Rightarrow> r)
      | (r, _) \<Rightarrow> (r, s))"

definition Leave ::
  "('w, 'p, 't, 'a, 'd, 'v) daemon_env \<Rightarrow> string list \<Rightarrow> ('w, 'p, 'a) daemons \<Rightarrow> reply \<times> ('w, 'p, 'a) daemons" where
  "Leave env workloads s =
     (case sv_connect (ds_user s) of
        None \<Rightarrow> (Failed NotConnected, s)
      | Some c \<Rightarrow>
          (case op_clientset c of
             None \<Rightarrow> (Crash, s)
           | Some cs \<Rightarrow>
               (case leave_all (\<lambda>workload. UnPatchContainer (cs_cm cs) (de_yaml env) (de_json env) (cs_wl cs) workload (GetLocalTunIPv4 (connection_of c)))
                       workloads (ds_world s) of
                  (Panic, w) \<Rightarrow> (Crash, s\<lparr>ds_world := w\<rparr>)
                | (_, w) \<Rightarrow> (Done, s\<lparr>ds_world := w\<rparr>))))"

text \<open>\<^verbatim>\<open>Quit\<close> of one daemon: everything is cleaned up and the process ends.\<close>

definition Quit ::
  "('w, 'p, 't, 'a, 'd, 'v) daemon_env \<Rightarrow> ('w, 'p, 'a) Server \<Rightarrow> 'w \<Rightarrow> string option \<Rightarrow> reply \<times> 'w \<times> string option" where
  "Quit env svr w hosts =
     (case cleanup_all env (case sv_connect svr of None \<Rightarrow> [] | Some c \<Rightarrow> [c]) w of
        (Done, w1) \<Rightarrow>
          (case cleanup_all env (sv_secondary svr) (case sv_clone svr of None \<Rightarrow> w1 | Some f \<Rightarrow> snd (f [] w1)) of
             (Done, w2) \<Rightarrow> (Done, w2, (case CleanupHosts hosts of Ret s \<Rightarrow> Some s | _ \<Rightarrow> hosts))
           | (r, w2) \<Rightarrow> (r, w2, hosts))
      | (r, w1) \<Rightarrow> (r, w1, hosts))"

definition Stop ::
  "('w, 'p, 't, 'a, 'd, 'v) daemon_env \<Rightarrow> ('w, 'p, 'a) Server \<Rightarrow> 'w \<Rightarrow> reply \<times> ('w, 'p, 'a) Server \<times> 'w" where
  "Stop env svr w =
     (case sv_connect svr of
        None \<Rightarrow> (Done, svr, w)
      | Some c \<Rightarrow>
          (case cleanup_all env [c] w of
             (Done, w1) \<Rightarrow> (Done, svr\<lparr>sv_t := False, sv_connect := None\<rparr>, w1)
           | (r, w1) \<Rightarrow> (r, svr, w1)))"

definition Remove :: "string list \<Rightarrow> ('w, 'p, 'a) Server \<Rightarrow> 'w \<Rightarrow> reply \<times> ('w, 'p, 'a) Server \<times> 'w" where
  "Remove workloads svr w =
     (case sv_clone svr of
        None \<Rightarrow> (Done, svr, w)
      | Some f \<Rightarrow> (case f workloads w of (e, w') \<Rightarrow> (case e of None \<Rightarrow> Done | Some e \<Rightarrow> Failed (DStep e), svr\<lparr>sv_clone := None\<rparr>, w')))"

text \<open>The rows of the table; \<open>cluster\<close> reads the name of the cluster from the kubeconfig.\<close>

definition Status :: "(('w, 'p, 'a) ConnectOptions \<Rightarrow> string) \<Rightarrow> ('w, 'p, 'a) Server \<Rightarrow> string list list" where
  "Status cluster svr =
     [''ID'', ''Mode'', ''Cluster'', ''Kubeconfig'', ''Namespace'', ''Status'']
     # (case sv_connect svr of
          None \<Rightarrow> []
        | Some c \<Rightarrow> [[show_nat 0, ''full'', cluster c, op_OriginKubeconfigPath c, co_namespace (op_ips c), ''Connected'']])
     @ map (\<lambda>(i, c). [show_nat (i + 1), ''lite'', cluster c, op_OriginKubeconfigPath c, co_namespace (op_ips c), ''Connected''])
         (enumerate 0 (sv_secondary svr))"

text \<open>The entries with the names of the workloads; an entry whose key has no dot panics.\<close>

fun list_names :: "Virtual list \<Rightarrow> (string, Virtual list) outcome" where
  "list_names [] = Ret []"
| "list_names (v # vs) =
     bind_outcome (uid_workload (Uid v)) (\<lambda>uid. bind_outcome (list_names vs) (\<lambda>vs'. Ret (v\<lparr>Uid := uid\<rparr> # vs')))"

definition List_entries :: "yaml_codec \<Rightarrow> ('w, 'p, 'a) Server \<Rightarrow> 'w \<Rightarrow> (string, Virtual list) outcome" where
  "List_entries ym svr w =
     (case sv_connect svr of
        None \<Rightarrow> Fail ''not connect to any cluster''
      | Some c \<Rightarrow>
          (case op_clientset c of
             None \<Rightarrow> Fail ''not connect to any cluster''
           | Some cs \<Rightarrow>
               (case cm_Get (cs_cm cs) w ConfigMapPodTrafficManager of
                  Inl e \<Rightarrow> Fail ''get''
                | Inr cm \<Rightarrow>
                    (case gomap_get (cm_data cm) KeyEnvoy of
                       None \<Rightarrow> Ret []
                     | Some str \<Rightarrow> (case ym_unmarshal ym str of None \<Rightarrow> Fail ''yaml'' | Some v \<Rightarrow> list_names v)))))"

text \<open>Whether the daemon is older than the client; versions are compared by \<open>gt\<close>.\<close>

definition Upgrade :: "(string \<Rightarrow> 'v option) \<Rightarrow> ('v \<Rightarrow> 'v \<Rightarrow> bool) \<Rightarrow> string \<Rightarrow> string \<Rightarrow> string \<Rightarrow> string \<Rightarrow> bool option" where
  "Upgrade parse gt clientVersion clientCommitId version gitCommit =
     (case parse clientVersion of
        None \<Rightarrow> None
      | Some c \<Rightarrow>
          (case parse version of
             None \<Rightarrow> None
           | Some d \<Rightarrow> Some (gt c d \<or> (\<not> gt c d \<and> \<not> gt d c \<and> clientCommitId \<noteq> gitCommit))))"

text \<open>The SSH tunnels of \<^verbatim>\<open>ConfigAdd\<close>: the contexts by path, and those that were cancelled.\<close>

record tunnels =
  tn_cancel :: "string \<rightharpoonup> nat"
  tn_cancelled :: "nat set"

definition ConfigAdd ::
  "('w, 'p, 't, 'a, 'd, 'v) daemon_env \<Rightarrow> SshJump option \<Rightarrow> string \<Rightarrow> nat \<Rightarrow> tunnels \<Rightarrow> (string + string) \<times> tunnels" where
  "ConfigAdd env jump bytes ctx t =
     (case de_temp env bytes of
        Inl e \<Rightarrow> (Inl e, t)
      | Inr file \<Rightarrow>
          (case SshJump_path (de_ssh env) (ParseSshFromRPC jump) file of
             Inl e \<Rightarrow> (Inl e, t\<lparr>tn_cancel := (tn_cancel t)([] \<mapsto> ctx)\<rparr>)
           | Inr path \<Rightarrow> (Inr path, t\<lparr>tn_cancel := (tn_cancel t)(path \<mapsto> ctx)\<rparr>)))"

definition ConfigRemove :: "string \<Rightarrow> tunnels \<Rightarrow> tunnels" where
  "ConfigRemove path t = (case tn_cancel t path of None \<Rightarrow> t | Some ctx \<Rightarrow> t\<lparr>tn_cancelled := insert ctx (tn_cancelled t)\<rparr>)"

section \<open>Both daemons list the same connections\<close>

text \<open>Two structures for the same request; \<^verbatim>\<open>Proxy\<close> may change the workloads and headers of one of them.\<close>

definition alike :: "('w, 'p, 'a) ConnectOptions \<Rightarrow> ('w, 'p, 'a) ConnectOptions \<Rightarrow> bool" where
  "alike a b \<longleftrightarrow> options_Equal a b \<and> op_OriginKubeconfigPath a = op_OriginKubeconfigPath b"

lemma alike_refl: "alike a a"
  by (simp add: alike_def options_Equal_def)

lemma alike_trans: "alike a b \<Longrightarrow> alike b c \<Longrightarrow> alike a c"
  by (simp add: alike_def options_Equal_def)

lemma alike_sym: "alike a b \<Longrightarrow> alike b a"
  by (simp add: alike_def options_Equal_def)

lemma alike_new: "alike (new_options i req) (new_options j req)"
  by (simp add: alike_def options_Equal_def new_options_def)

lemma fold_AddRolloutFunc:
  "op_id (fold AddRolloutFunc fs c) = op_id c \<and> alike c (fold AddRolloutFunc fs c) \<and> op_clientset (fold AddRolloutFunc fs c) = op_clientset c"
proof (induction fs arbitrary: c)
  case (Cons f fs)
  from Cons [of "AddRolloutFunc f c"] show ?case by (auto simp: AddRolloutFunc_def alike_def options_Equal_def)
qed (simp add: alike_refl)

lemma InitClient_keeps:
  assumes "InitClient f c = (e, c')"
  shows "op_id c' = op_id c \<and> alike c c' \<and> (e = None \<longrightarrow> op_clientset c' \<noteq> None)"
  using assms unfolding InitClient_def
  by (auto simp: alike_def options_Equal_def split: option.splits sum.splits)

lemma prepare_keeps:
  assumes "prepare env rb req c w = (r, c')"
  shows "op_id c' = op_id c \<and> alike c c' \<and> (r = Done \<longrightarrow> op_clientset c' \<noteq> None)"
proof (cases "de_temp env (cr_KubeconfigBytes req)")
  case (Inl e)
  with assms show ?thesis by (auto simp: prepare_def alike_refl)
next
  case (Inr fl)
  let ?c = "fold AddRolloutFunc rb c"
  have k: "op_id ?c = op_id c" "alike c ?c" using fold_AddRolloutFunc [of rb c] by auto
  show ?thesis
  proof (cases "SshJump_path (de_ssh env) (ParseSshFromRPC (cr_SshJump req)) fl")
    case (Inl e)
    with assms Inr k show ?thesis by (auto simp: prepare_def)
  next
    case (Inr path)
    obtain e c2 where i: "InitClient (de_factory env path (cr_Namespace req)) ?c = (e, c2)" by fastforce
    from InitClient_keeps [OF i] k have c2: "op_id c2 = op_id c" "alike c c2" "e = None \<longrightarrow> op_clientset c2 \<noteq> None" by (auto intro: alike_trans)
    have w: "op_id (c2\<lparr>op_Workloads := ws\<rparr>) = op_id c2" "alike c2 (c2\<lparr>op_Workloads := ws\<rparr>)" for ws by (simp_all add: alike_def options_Equal_def)
    from assms \<open>de_temp env _ = Inr fl\<close> Inr i
    have "c' = c2 \<and> r \<noteq> Done \<or> (\<exists>ws. c' = c2\<lparr>op_Workloads := ws\<rparr> \<and> e = None)"
      unfolding prepare_def Let_def by (auto split: option.splits prod.splits)
    then show ?thesis using c2 w alike_trans by fastforce
  qed
qed

lemma rent_keeps:
  assumes "rent env md c w = (r, out, c', w')"
  shows "op_id c' = op_id c \<and> alike c c' \<and> op_clientset c' = op_clientset c"
  using assms unfolding rent_def
  by (auto simp: alike_def options_Equal_def split: option.splits sum.splits prod.splits)

lemma establish_keeps:
  assumes "establish env req lite c w = (r, c', w')"
  shows "op_id c' = op_id c \<and> alike c c' \<and> op_clientset c' = op_clientset c"
proof (cases "op_clientset c")
  case None
  with assms show ?thesis by (simp add: establish_def alike_refl)
next
  case (Some cs)
  obtain x c1 w1 where d: "DoConnect (de_host env) cs (cr_Image req) lite c w = (x, c1, w1)" by (cases "DoConnect (de_host env) cs (cr_Image req) lite c w")
  from assms Some d have "c' = c1" by (auto simp: establish_def split: outcome.splits prod.splits)
  moreover have "options_Equal c c1"
    using DoConnect_keeps [OF d] by (metis alike_def alike_refl)
  ultimately show ?thesis using DoConnect_keeps [OF d] by (simp add: alike_def)
qed

lemma connect_sudo_result:
  assumes "connect_sudo env md req s = (r, s')"
  shows "ds_user s' = ds_user s \<and> ds_next s \<le> ds_next s' \<and> sv_secondary (ds_sudo s') = sv_secondary (ds_sudo s)
    \<and> (if sv_t (ds_sudo s) then s' = s \<and> r = Failed AlreadyExists
       else (sv_t (ds_sudo s') \<longleftrightarrow> sv_connect (ds_sudo s') \<noteq> None)
          \<and> (r = Done \<longrightarrow> (\<exists>c. sv_connect (ds_sudo s') = Some c \<and> alike (new_options 0 req) c)))"
proof (cases "sv_t (ds_sudo s)")
  case True
  with assms show ?thesis by (simp add: connect_sudo_def)
next
  case False
  let ?c0 = "new_options (ds_next s) req"
  obtain r1 c1 where p: "prepare env [de_sshCancel env] req ?c0 (ds_world s) = (r1, c1)" by fastforce
  obtain r2 out c2 w2 where q: "rent env md c1 (ds_world s) = (r2, out, c2, w2)" by (metis prod_cases4)
  obtain r3 c3 w3 where e: "establish env req False c2 w2 = (r3, c3, w3)" by (metis prod_cases3)
  have "alike (new_options 0 req) c3"
    using prepare_keeps [OF p] rent_keeps [OF q] establish_keeps [OF e] alike_new [of 0 req "ds_next s"] by (meson alike_trans)
  then have step: "alike (new_options 0 req) c3" .
  show ?thesis
  proof (cases "transfer env req = None \<and> r1 = Done \<and> r2 = Done")
    case True
    with assms False step show ?thesis unfolding connect_sudo_def Let_def by (cases r3) (auto simp: p q e)
  next
    case other: False
    have "r \<noteq> Done \<and> ds_user s' = ds_user s \<and> ds_next s' = Suc (ds_next s) \<and> sv_secondary (ds_sudo s') = sv_secondary (ds_sudo s)
        \<and> sv_t (ds_sudo s') \<and> sv_connect (ds_sudo s') \<noteq> None"
    proof (cases "transfer env req = None \<and> r1 = Done")
      case True
      with assms False other show ?thesis unfolding connect_sudo_def Let_def by (cases r2) (auto simp: p q)
    next
      case no: False
      show ?thesis
      proof (cases "transfer env req")
        case None
        with assms False no show ?thesis unfolding connect_sudo_def Let_def by (cases r1) (auto simp: p)
      next
        case (Some x)
        with assms False show ?thesis unfolding connect_sudo_def Let_def by auto
      qed
    qed
    with False show ?thesis by auto
  qed
qed

lemma connect_fork_sudo_result:
  assumes "connect_fork_sudo env md req s = (r, s')"
  shows "ds_user s' = ds_user s \<and> ds_next s \<le> ds_next s' \<and> sv_t (ds_sudo s') = sv_t (ds_sudo s) \<and> sv_connect (ds_sudo s') = sv_connect (ds_sudo s)
    \<and> (if r = Done then \<exists>c. sv_secondary (ds_sudo s') = sv_secondary (ds_sudo s) @ [c] \<and> alike (new_options 0 req) c
       else sv_secondary (ds_sudo s') = sv_secondary (ds_sudo s))"
proof -
  let ?c0 = "new_options (ds_next s) req"
  obtain r1 c1 where p: "prepare env [de_sshCancel env] req ?c0 (ds_world s) = (r1, c1)" by fastforce
  obtain r2 out c2 w2 where q: "rent env md c1 (ds_world s) = (r2, out, c2, w2)" by (metis prod_cases4)
  obtain r3 c3 w3 where e: "establish env req True c2 w2 = (r3, c3, w3)" by (metis prod_cases3)
  have "alike (new_options 0 req) c3"
    using prepare_keeps [OF p] rent_keeps [OF q] establish_keeps [OF e] alike_new [of 0 req "ds_next s"] by (meson alike_trans)
  then have step: "alike (new_options 0 req) c3" .
  show ?thesis
  proof (cases "transfer env req = None \<and> r1 = Done \<and> r2 = Done")
    case True
    with assms step show ?thesis unfolding connect_fork_sudo_def Let_def by (cases r3) (auto simp: p q e)
  next
    case other: False
    have "r \<noteq> Done \<and> ds_user s' = ds_user s \<and> ds_sudo s' = ds_sudo s \<and> ds_next s' = Suc (ds_next s)"
    proof (cases "transfer env req = None \<and> r1 = Done")
      case True
      with assms other show ?thesis unfolding connect_fork_sudo_def Let_def by (cases r2) (auto simp: p q)
    next
      case no: False
      show ?thesis
      proof (cases "transfer env req")
        case None
        with assms no show ?thesis unfolding connect_fork_sudo_def Let_def by (cases r1) (auto simp: p)
      next
        case (Some x)
        with assms show ?thesis unfolding connect_fork_sudo_def Let_def by auto
      qed
    qed
    then show ?thesis by auto
  qed
qed

text \<open>What a disconnection that ends leaves of the state of a daemon.\<close>

definition after_disconnect :: "DisconnectRequest \<Rightarrow> ('w, 'p, 'a) Server \<Rightarrow> ('w, 'p, 'a) Server" where
  "after_disconnect req svr =
     (let prim = svr\<lparr>sv_t := False, sv_connect := None, sv_clone := None\<rparr>; l = sv_secondary svr in
      if dq_All req then prim\<lparr>sv_secondary := []\<rparr>
      else (case dq_ID req of
              None \<Rightarrow> svr
            | Some i \<Rightarrow>
                if i = 0 then prim
                else if sint (i - 1) < sint (word_of_nat (length l) :: 32 word)
                then svr\<lparr>sv_secondary := take (nat (sint (i - 1))) l @ drop (Suc (nat (sint (i - 1)))) l\<rparr>
                else svr))"

lemma cleanup_all_reply: "cleanup_all env cs w = (r, w') \<Longrightarrow> r = Done \<or> r = Crash"
  by (induction env cs w rule: cleanup_all.induct) (auto split: prod.splits outcome.splits)

lemma drop_primary_Done:
  assumes "drop_primary env svr w = (r, svr', w')"
  shows "r = Done \<and> svr' = svr\<lparr>sv_t := False, sv_connect := None, sv_clone := None\<rparr> \<or> r = Crash"
proof -
  obtain x w1 where c: "cleanup_all env (case sv_connect svr of None \<Rightarrow> [] | Some c \<Rightarrow> [c]) w = (x, w1)" by fastforce
  from cleanup_all_reply [OF c] assms c show ?thesis by (auto simp: drop_primary_def)
qed

lemma drop_secondary_Done:
  assumes "drop_secondary env i svr w = (r, svr', w')" and "i \<noteq> 0"
  shows "r = Done \<and> svr' = after_disconnect \<lparr>dq_All = False, dq_ID = Some i\<rparr> svr \<or> r = Crash"
proof -
  obtain x w1 where c: "cleanup_all env [sv_secondary svr ! nat (sint (i - 1))] w = (x, w1)" by fastforce
  from cleanup_all_reply [OF c] assms c show ?thesis
    by (auto simp del: cleanup_all.simps simp: drop_secondary_def after_disconnect_def Let_def split: if_splits)
qed

lemma disconnect_server_Done:
  assumes "disconnect_server env req svr w = (r, svr', w')"
  shows "r = Done \<and> svr' = after_disconnect req svr \<or> r = Crash"
proof (cases "dq_All req")
  case True
  obtain r1 svr1 w1 where d: "drop_primary env svr w = (r1, svr1, w1)" by (metis prod_cases3)
  obtain r2 w2 where c: "cleanup_all env (sv_secondary svr1) w1 = (r2, w2)" by fastforce
  from drop_primary_Done [OF d] cleanup_all_reply [OF c] assms True d c show ?thesis
    by (auto simp: disconnect_server_def after_disconnect_def Let_def)
next
  case False
  show ?thesis
  proof (cases "dq_ID req")
    case None
    with assms False show ?thesis by (simp add: disconnect_server_def after_disconnect_def)
  next
    case (Some i)
    have req: "req = \<lparr>dq_All = False, dq_ID = Some i\<rparr>" using False Some by simp
    show ?thesis
    proof (cases "i = 0")
      case True
      with assms req drop_primary_Done [of env svr w r svr' w'] show ?thesis by (auto simp: disconnect_server_def after_disconnect_def)
    next
      case no: False
      with assms req drop_secondary_Done [of env i svr w r svr' w'] show ?thesis by (auto simp: disconnect_server_def)
    qed
  qed
qed

lemma Disconnect_Done:
  assumes "Disconnect eu es req s = (r, s')" and "r \<noteq> Crash" and "\<not> de_gone eu"
  shows "s' = s \<and> r \<noteq> Done
    \<or> r = Done \<and> ds_user s' = after_disconnect req (ds_user s) \<and> ds_sudo s' = after_disconnect req (ds_sudo s) \<and> ds_next s' = ds_next s"
proof -
  obtain r1 sudo w1 where d: "disconnect_server es req (ds_sudo s) (ds_world s) = (r1, sudo, w1)" by (metis prod_cases3)
  obtain r2 user w2 where u: "disconnect_server eu req (ds_user s) w1 = (r2, user, w2)" by (metis prod_cases3)
  from disconnect_server_Done [OF d] disconnect_server_Done [OF u] assms d u show ?thesis
    by (auto simp: Disconnect_def Let_def split: if_splits)
qed

definition held :: "('w, 'p, 'a) Server \<Rightarrow> ('w, 'p, 'a) ConnectOptions list" where
  "held svr = (case sv_connect svr of None \<Rightarrow> [] | Some c \<Rightarrow> [c]) @ sv_secondary svr"

definition agree :: "('w, 'p, 'a) daemons \<Rightarrow> bool" where
  "agree s \<longleftrightarrow>
     (sv_t (ds_user s) \<longleftrightarrow> sv_connect (ds_user s) \<noteq> None)
   \<and> (sv_t (ds_sudo s) \<longleftrightarrow> sv_connect (ds_sudo s) \<noteq> None)
   \<and> (\<forall>a. sv_connect (ds_user s) = Some a \<longrightarrow> (\<exists>b. sv_connect (ds_sudo s) = Some b \<and> alike a b))
   \<and> list_all2 alike (sv_secondary (ds_user s)) (sv_secondary (ds_sudo s))
   \<and> (\<forall>c\<in>set (held (ds_user s)). op_clientset c \<noteq> None \<and> op_id c < ds_next s)
   \<and> distinct (map op_id (held (ds_user s)))"

lemma agree_world [simp]: "agree (s\<lparr>ds_world := w\<rparr>) = agree s" "agree (s\<lparr>ds_hosts := h\<rparr>) = agree s"
  by (simp_all add: agree_def)

lemma agree_next: "agree s \<Longrightarrow> ds_next s \<le> n \<Longrightarrow> agree (s\<lparr>ds_next := n\<rparr>)"
  by (auto simp: agree_def)

lemma agree_drop:
  assumes "agree s" and "ds_user s' = after_disconnect req (ds_user s)" and "ds_sudo s' = after_disconnect req (ds_sudo s)" and "ds_next s' = ds_next s"
  shows "agree s'"
proof -
  let ?u = "sv_secondary (ds_user s)" and ?v = "sv_secondary (ds_sudo s)"
  have l: "list_all2 alike ?u ?v" using assms(1) by (simp add: agree_def)
  then have len: "length ?u = length ?v" by (rule list_all2_lengthD)
  have part: "list_all2 alike (take n ?u @ drop m ?u) (take n ?v @ drop m ?v)" for n m
    using l by (intro list_all2_appendI list_all2_takeI list_all2_dropI)
  have ids: "distinct (map op_id (p @ take n xs @ drop (Suc n) xs)) \<and> set (p @ take n xs @ drop (Suc n) xs) \<subseteq> set (p @ xs)"
    if "distinct (map op_id (p @ xs))" for p n and xs :: "('a, 'b, 'c) ConnectOptions list"
  proof -
    have "map op_id (take n xs @ drop (Suc n) xs) = take n (map op_id xs) @ drop (Suc n) (map op_id xs)" by (simp add: take_map drop_map)
    moreover have "distinct (take n (map op_id xs) @ drop (Suc n) (map op_id xs))"
      using that by (simp add: set_take_disj_set_drop_if_distinct)
    moreover have "set (take n xs @ drop (Suc n) xs) \<subseteq> set xs" by (auto dest: in_set_takeD in_set_dropD)
    moreover have "op_id ` set p \<inter> set (take n (map op_id xs) @ drop (Suc n) (map op_id xs)) = {}"
      using that by (auto simp: disjoint_iff dest!: in_set_takeD in_set_dropD)
    ultimately show ?thesis using that by auto
  qed
  show ?thesis
  proof (cases "dq_All req")
    case True
    with assms show ?thesis by (simp add: agree_def after_disconnect_def held_def Let_def)
  next
    case All: False
    show ?thesis
    proof (cases "dq_ID req")
      case None
      with assms All show ?thesis by (simp add: agree_def after_disconnect_def)
    next
      case (Some i)
      show ?thesis
      proof (cases "i \<noteq> 0 \<and> sint (i - 1) < sint (word_of_nat (length ?u) :: 32 word)")
        case True
        let ?n = "nat (sint (i - 1))" and ?p = "case sv_connect (ds_user s) of None \<Rightarrow> [] | Some c \<Rightarrow> [c]"
        have u: "ds_user s' = (ds_user s)\<lparr>sv_secondary := take ?n ?u @ drop (Suc ?n) ?u\<rparr>"
          and v: "ds_sudo s' = (ds_sudo s)\<lparr>sv_secondary := take ?n ?v @ drop (Suc ?n) ?v\<rparr>"
          using True assms(2,3) All Some len by (simp_all add: after_disconnect_def Let_def)
        have h: "held (ds_user s') = ?p @ take ?n ?u @ drop (Suc ?n) ?u" and h0: "held (ds_user s) = ?p @ ?u"
          by (simp_all add: held_def u)
        have "distinct (map op_id (held (ds_user s)))" using assms(1) by (simp add: agree_def)
        note ids [OF this [unfolded h0], of ?n, folded h h0]
        with assms(1,4) part u v show ?thesis unfolding agree_def by auto
      next
        case False
        with assms All Some len show ?thesis by (auto simp: agree_def after_disconnect_def held_def Let_def)
      qed
    qed
  qed
qed

lemma redirect_agree:
  assumes "agree s" and "redirectToSudoDaemon eu es md req s = (r, s')"
  shows "agree s'"
proof (cases "de_sudo eu")
  case False
  with assms show ?thesis by (simp add: redirectToSudoDaemon_def)
next
  case sudo: True
  let ?s = "s\<lparr>ds_next := Suc (ds_next s)\<rparr>"
  obtain r1 c1 where p: "prepare eu [de_sshCancel eu] req (new_options (ds_next s) req) (ds_world s) = (r1, c1)" by fastforce
  obtain r2 out c2 w2 where q: "rent eu md c1 (ds_world s) = (r2, out, c2, w2)" by (metis prod_cases4)
  obtain r3 s3 where c: "connect_sudo es (received out) req (?s\<lparr>ds_world := w2\<rparr>) = (r3, s3)" by fastforce
  have s: "agree ?s" using assms(1) by (simp add: agree_next)
  note k = connect_sudo_result [OF c]
  have s3: "agree s3"
  proof (cases "sv_t (ds_sudo s)")
    case True
    with k s show ?thesis by simp
  next
    case False
    with assms(1) have "sv_connect (ds_user s) = None" by (auto simp: agree_def)
    with k False assms(1) show ?thesis by (fastforce simp: agree_def)
  qed
  have ready: "agree (s3\<lparr>ds_user := (ds_user s3)\<lparr>sv_t := True, sv_connect := Some c2\<rparr>\<rparr>)" if "r1 = Done" "r3 = Done"
  proof -
    have id: "op_id c2 = ds_next s" "op_clientset c2 \<noteq> None" "alike (new_options (ds_next s) req) c2"
      using prepare_keeps [OF p] rent_keeps [OF q] that alike_trans by (auto simp: new_options_def)
    from k that have t: "\<not> sv_t (ds_sudo s)" by auto
    with assms(1) have "sv_connect (ds_user s) = None" by (auto simp: agree_def)
    with assms(1) have h: "held (ds_user s) = sv_secondary (ds_user s)" by (simp add: held_def)
    from k t that obtain b where b: "sv_connect (ds_sudo s3) = Some b" "alike (new_options 0 req) b" by auto
    have "alike c2 b" using id(3) b(2) alike_new [of "ds_next s" req 0] by (meson alike_sym alike_trans)
    with b(1) id(1,2) s3 k t assms(1) h show ?thesis by (fastforce simp: agree_def held_def)
  qed
  show ?thesis
  proof (cases "r1 = Done \<and> r2 = Done")
    case True
    with assms(2) sudo p q c s s3 ready show ?thesis unfolding redirectToSudoDaemon_def Let_def
      by (cases r3) (auto split: if_splits)
  next
    case False
    show ?thesis
    proof (cases "r1 = Done")
      case True
      with False assms(2) sudo p q s show ?thesis unfolding redirectToSudoDaemon_def Let_def
        by (cases r2) (auto split: if_splits)
    next
      case False
      with assms(2) sudo p s show ?thesis unfolding redirectToSudoDaemon_def Let_def by (cases r1) auto
    qed
  qed
qed

lemma redirect_fork_agree:
  assumes "agree s" and "redirectConnectForkToSudoDaemon eu es md req s = (r, s')" and "\<not> de_gone eu"
  shows "agree s'"
proof (cases "de_sudo eu")
  case False
  with assms show ?thesis by (simp add: redirectConnectForkToSudoDaemon_def)
next
  case sudo: True
  let ?s = "s\<lparr>ds_next := Suc (ds_next s)\<rparr>"
  obtain r1 c1 where p: "prepare eu [de_sshCancel eu] req (new_options (ds_next s) req) (ds_world s) = (r1, c1)" by fastforce
  obtain r2 out c2 w2 where q: "rent eu md c1 (ds_world s) = (r2, out, c2, w2)" by (metis prod_cases4)
  obtain r3 s3 where c: "connect_fork_sudo es (received out) req (?s\<lparr>ds_world := w2\<rparr>) = (r3, s3)" by fastforce
  have s: "agree ?s" using assms(1) by (simp add: agree_next)
  note k = connect_fork_sudo_result [OF c]
  have s3: "agree s3" if "r3 \<noteq> Done" using k that assms(1) by (fastforce simp: agree_def)
  have ready: "agree (s3\<lparr>ds_user := (ds_user s3)\<lparr>sv_secondary := sv_secondary (ds_user s3) @ [c2]\<rparr>\<rparr>)" if "r1 = Done" "r3 = Done"
  proof -
    have id: "op_id c2 = ds_next s" "op_clientset c2 \<noteq> None" "alike (new_options (ds_next s) req) c2"
      using prepare_keeps [OF p] rent_keeps [OF q] that alike_trans by (auto simp: new_options_def)
    from k that obtain b where b: "sv_secondary (ds_sudo s3) = sv_secondary (ds_sudo s) @ [b]" "alike (new_options 0 req) b" by auto
    have ab: "alike c2 b" using id(3) b(2) alike_new [of "ds_next s" req 0] by (meson alike_sym alike_trans)
    have h: "held ((ds_user s)\<lparr>sv_secondary := sv_secondary (ds_user s) @ [c2]\<rparr>) = held (ds_user s) @ [c2]" by (simp add: held_def)
    have "op_id c2 \<notin> set (map op_id (held (ds_user s)))" using assms(1) id(1) by (fastforce simp: agree_def)
    then have "distinct (map op_id (held (ds_user s) @ [c2]))" using assms(1) by (simp add: agree_def)
    moreover have "\<forall>c\<in>set (held (ds_user s) @ [c2]). op_clientset c \<noteq> None \<and> op_id c < ds_next s3"
      using assms(1) k id by (fastforce simp: agree_def)
    moreover have "list_all2 alike (sv_secondary (ds_user s) @ [c2]) (sv_secondary (ds_sudo s3))"
      using assms(1) ab by (simp add: agree_def b(1) list_all2_appendI)
    ultimately show ?thesis using k assms(1) by (simp add: agree_def h)
  qed
  show ?thesis
  proof (cases "r1 = Done \<and> r2 = Done")
    case True
    with assms(2,3) sudo p q c s s3 ready show ?thesis unfolding redirectConnectForkToSudoDaemon_def Let_def
      by (cases r3) (auto split: if_splits)
  next
    case False
    show ?thesis
    proof (cases "r1 = Done")
      case True
      with False assms(2) sudo p q s show ?thesis unfolding redirectConnectForkToSudoDaemon_def Let_def
        by (cases r2) (auto split: if_splits)
    next
      case False
      with assms(2) sudo p s show ?thesis unfolding redirectConnectForkToSudoDaemon_def Let_def by (cases r1) auto
    qed
  qed
qed

lemma Disconnect_agree:
  "agree s \<Longrightarrow> Disconnect eu es req s = (r, s') \<Longrightarrow> r \<noteq> Crash \<Longrightarrow> \<not> de_gone eu \<Longrightarrow> agree s'"
  using Disconnect_Done [of eu es req s r s'] agree_drop [of s s' req] by blast

lemma finish_agree:
  assumes "agree s" and "\<not> de_gone eu"
  shows "finish_connect eu es s = (r, s') \<Longrightarrow> r \<noteq> Crash \<Longrightarrow> agree s'"
    and "finish_connect_fork eu es i s = (r, s') \<Longrightarrow> r \<noteq> Crash \<Longrightarrow> agree s'"
  using Disconnect_agree [OF assms(1) _ _ assms(2)] assms(1)
  by (auto simp: finish_connect_def finish_connect_fork_def split: if_splits option.splits)

lemma proxy_workloads_agree:
  assumes "agree s" and "proxy_workloads env req s = (r, s')"
  shows "agree s'"
proof (cases "sv_connect (ds_user s)")
  case None
  with assms show ?thesis by (simp add: proxy_workloads_def)
next
  case (Some c)
  let ?c = "c\<lparr>op_Workloads := cr_Workloads req, op_Headers := cr_Headers req\<rparr>"
  have a: "alike c b \<Longrightarrow> alike ?c b" for b by (simp add: alike_def options_Equal_def)
  have "agree (put_user ?c s)" using assms(1) Some a by (fastforce simp: agree_def put_user_def held_def)
  with assms(2) Some show ?thesis
    by (auto simp: proxy_workloads_def Let_def split: option.splits prod.splits outcome.splits)
qed

lemma proxy_connect_agree:
  assumes "agree s" and "proxy_connect eu es req s = (r, s')" and "r \<noteq> Crash" and "\<not> de_gone eu"
  shows "agree s'"
proof (cases "sv_connect (ds_user s)")
  case None
  obtain r1 s1 where c: "redirectToSudoDaemon eu es (received []) req s = (r1, s1)" by fastforce
  have s1: "agree s1" by (rule redirect_agree [OF assms(1) c])
  show ?thesis
  proof (cases "r1 = Waiting")
    case True
    with assms(2) None c have "finish_connect eu es s1 = (r, s')" by (simp add: proxy_connect_def)
    from finish_agree(1) [OF s1 assms(4) this assms(3)] show ?thesis .
  next
    case False
    with assms(2) None c s1 show ?thesis by (cases r1) (auto simp: proxy_connect_def)
  qed
next
  case (Some c)
  with assms show ?thesis by (simp add: proxy_connect_def)
qed

lemma Proxy_agree:
  assumes "agree s" and "Proxy eu es req s = (r, s')" and "r \<noteq> Crash" and "\<not> de_gone eu"
  shows "agree s'"
proof -
  let ?s = "s\<lparr>ds_next := Suc (ds_next s)\<rparr>"
  have s: "agree ?s" using assms(1) by (simp add: agree_next)
  obtain r1 c1 where p: "prepare eu [] req (new_options (ds_next s) req) (ds_world s) = (r1, c1)" by fastforce
  obtain r2 s2 where d: "proxy_release eu es c1 ?s = (r2, s2)" by fastforce
  obtain r3 s3 where c: "proxy_connect eu es req s2 = (r3, s3)" by fastforce
  have s2: "agree s2" if "r2 \<noteq> Crash"
    using d s Disconnect_agree [OF s _ that assms(4)] by (auto simp: proxy_release_def split: option.splits if_splits)
  show ?thesis
  proof (cases "r1 = Done \<and> de_user eu \<and> r2 = Done")
    case True
    have s3: "agree s3" if "r3 \<noteq> Crash" by (rule proxy_connect_agree [OF s2 c that assms(4)]) (simp add: True)
    show ?thesis
    proof (cases "r3 = Done")
      case d3: True
      with assms(2) p d c True have "proxy_workloads eu req s3 = (r, s')" by (simp add: Proxy_def Let_def)
      from proxy_workloads_agree [OF s3 this] d3 show ?thesis by simp
    next
      case False
      with assms(2,3) p d c True s3 show ?thesis by (cases r3) (auto simp: Proxy_def Let_def)
    qed
  next
    case False
    show ?thesis
    proof (cases "r1 = Done \<and> de_user eu")
      case True
      with False assms(2,3) p d s2 show ?thesis by (cases r2) (auto simp: Proxy_def Let_def)
    next
      case other: False
      with assms(2) p s show ?thesis by (cases r1) (auto simp: Proxy_def Let_def)
    qed
  qed
qed

lemma Leave_agree: "agree s \<Longrightarrow> Leave env ws s = (r, s') \<Longrightarrow> agree s'"
  by (auto simp: Leave_def split: option.splits prod.splits outcome.splits)

section \<open>Every history\<close>

text \<open>
  The requests of the command line, one after the other, with environments of the set \<open>E\<close>; between them other processes may change the
  cluster and the hosts file.  \<open>step_clone\<close> stands for the handlers of clones, which change nothing else of the daemons, and \<open>step_quit\<close> for the
  command that quits the sudo daemon and then the user daemon.
\<close>

inductive daemon_step :: "('w, 'p, 't, 'a, 'd, 'v) daemon_env set \<Rightarrow> ('w, 'p, 'a) daemons \<Rightarrow> ('w, 'p, 'a) daemons \<Rightarrow> bool"
  for E where
  step_connect: "redirectToSudoDaemon eu es md req s = (r, s') \<Longrightarrow> r \<noteq> Crash \<Longrightarrow> eu \<in> E \<Longrightarrow> es \<in> E \<Longrightarrow> daemon_step E s s'"
| step_fork: "redirectConnectForkToSudoDaemon eu es md req s = (r, s') \<Longrightarrow> r \<noteq> Crash \<Longrightarrow> eu \<in> E \<Longrightarrow> es \<in> E \<Longrightarrow> daemon_step E s s'"
| step_disconnect: "Disconnect eu es dreq s = (r, s') \<Longrightarrow> r \<noteq> Crash \<Longrightarrow> eu \<in> E \<Longrightarrow> es \<in> E \<Longrightarrow> daemon_step E s s'"
| step_finish: "finish_connect eu es s = (r, s') \<Longrightarrow> r \<noteq> Crash \<Longrightarrow> eu \<in> E \<Longrightarrow> es \<in> E \<Longrightarrow> daemon_step E s s'"
| step_finish_fork: "finish_connect_fork eu es i s = (r, s') \<Longrightarrow> r \<noteq> Crash \<Longrightarrow> eu \<in> E \<Longrightarrow> es \<in> E \<Longrightarrow> daemon_step E s s'"
| step_proxy: "Proxy eu es req s = (r, s') \<Longrightarrow> r \<noteq> Crash \<Longrightarrow> eu \<in> E \<Longrightarrow> es \<in> E \<Longrightarrow> daemon_step E s s'"
| step_leave: "Leave eu ws s = (r, s') \<Longrightarrow> eu \<in> E \<Longrightarrow> daemon_step E s s'"
| step_clone: "daemon_step E s (s\<lparr>ds_user := (ds_user s)\<lparr>sv_clone := cl\<rparr>, ds_world := w\<rparr>)"
| step_quit: "Quit es (ds_sudo s) (ds_world s) (ds_hosts s) = (Done, w1, h1) \<Longrightarrow> Quit eu (ds_user s) w1 h1 = (Done, w2, h2)
    \<Longrightarrow> eu \<in> E \<Longrightarrow> es \<in> E \<Longrightarrow> daemon_step E s (s\<lparr>ds_user := new_server, ds_sudo := new_server, ds_world := w2, ds_hosts := h2\<rparr>)"
| step_other: "daemon_step E s (s\<lparr>ds_world := w, ds_hosts := h\<rparr>)"

definition start_state :: "'w \<Rightarrow> string option \<Rightarrow> ('w, 'p, 'a) daemons" where
  "start_state w h = \<lparr>ds_user = new_server, ds_sudo = new_server, ds_world = w, ds_hosts = h, ds_next = 0\<rparr>"

lemma agree_start: "agree (start_state w h)"
  by (simp add: agree_def start_state_def new_server_def held_def)

lemma daemon_step_agree:
  assumes "\<forall>e\<in>E. \<not> de_gone e"
  shows "daemon_step E s s' \<Longrightarrow> agree s \<Longrightarrow> agree s'"
proof (induction rule: daemon_step.induct)
  case (step_clone s cl w)
  then show ?case by (auto simp: agree_def held_def)
next
  case (step_quit es s w1 h1 eu w2 h2)
  then show ?case by (simp add: agree_def new_server_def held_def)
next
  case (step_other s w h)
  then show ?case by (simp add: agree_def)
qed (use assms in \<open>blast intro: redirect_agree redirect_fork_agree Disconnect_agree finish_agree Proxy_agree Leave_agree\<close>)+

lemma daemon_steps_agree: "(daemon_step E)\<^sup>*\<^sup>* s s' \<Longrightarrow> \<forall>e\<in>E. \<not> de_gone e \<Longrightarrow> agree s \<Longrightarrow> agree s'"
  by (induction rule: rtranclp_induct) (auto intro: daemon_step_agree)

section \<open>The count of a connection that ends\<close>

definition counted :: "'w cm_client \<Rightarrow> configmap \<Rightarrow> 'w \<Rightarrow> bool" where
  "counted cl cm w \<longleftrightarrow> (\<exists>c. cm_Get cl w mgr = Inr c
     \<and> gomap_get (cm_data c) KeyRefCount = Some (show_int (new_count (data_at (cm_data cm) KeyRefCount) 1))
     \<and> (\<forall>k. k \<noteq> KeyRefCount \<longrightarrow> gomap_get (cm_data c) k = gomap_get (cm_data cm) k))"

lemma and_then_counted:
  assumes "keeps (same_cm cl) f" and "\<And>w1. cm_Get cl w1 mgr = Inr cm \<Longrightarrow> g w1 = (None, w') \<Longrightarrow> counted cl cm w'"
    and "cm_Get cl w mgr = Inr cm" and "and_then f g w = (None, w')"
  shows "counted cl cm w'"
proof -
  from assms(4) obtain w1 where w1: "f w = (None, w1)" "g w1 = (None, w')" unfolding and_then_None by blast
  have "cm_Get cl w1 mgr = Inr cm" using assms(1,3) w1(1) unfolding keeps_def same_cm_def by (metis snd_conv)
  with assms(2) w1(2) show ?thesis by blast
qed

lemma start_counted:
  assumes "lawful_objects cl ic get" and "lawful_patch cl" and "cm_Get cl w mgr = Inr cm" and "start_manager cl ic img rounds ns crt key w = (None, w')"
  shows "counted cl cm w'"
proof -
  have c: "counted cl cm w'" if "cm_Get cl w1 mgr = Inr cm" "count_in cl w1 = (None, w')" for w1
    using count_in_success [OF assms(1,2) that] by (simp add: counted_def)
  note k = keeps_cm_steps [OF assms(1)] keeps_cm_all [OF assms(1)]
  show ?thesis
    by (rule and_then_counted [OF k(2) _ assms(3) assms(4) [unfolded start_manager_def]],
        rule and_then_counted [OF k(4)], rule and_then_counted [OF k(5)], rule and_then_counted [OF k(4)], rule and_then_counted [OF k(3) c]) assumption+
qed

lemma createOutboundPod_counted:
  assumes "lawful_objects cl ic get" and "lawful_patch cl" and "cm_Get cl w mgr = Inr cm" and "createOutboundPod cl ic img rounds ns w = (None, w')"
  shows "counted cl cm w'"
proof (cases "ic_GetService ic w mgr \<and> ic_AttachablePod ic w mgr")
  case True
  with assms(4) have "count_in cl w = (None, w')" by (simp add: createOutboundPod_def)
  from count_in_success [OF assms(1-3) this] show ?thesis by (simp add: counted_def)
next
  case False
  let ?w = "deleteResource ic ns w"
  from False assms(4) have i: "install cl ic img rounds ns ?w = (None, w')"
    unfolding createOutboundPod_def by (auto split: prod.splits option.splits if_splits)
  have w: "cm_Get cl ?w mgr = Inr cm" using assms(3) deleteResource_cm [OF assms(1)] by simp
  note k = keeps_cm_steps [OF assms(1)] keeps_cm_all [OF assms(1)]
  have c: "counted cl cm w'" if "cm_Get cl w1 mgr = Inr cm"
      "(case ic_Cert ic (GetTlsDomain ns) of Inl e \<Rightarrow> (Some (InstCert e), w1) | Inr (crt, key) \<Rightarrow> start_manager cl ic img rounds ns crt key w1) = (None, w')" for w1
    using that(2) start_counted [OF assms(1,2) that(1)] by (auto split: sum.splits)
  show ?thesis
    by (rule and_then_counted [OF k(1) _ w i [unfolded install_def]], rule and_then_counted [OF k(5) c]) assumption+
qed

text \<open>The stored count is \<open>n\<close>, and there are no rules of the mesh.\<close>

definition count_is :: "'w cm_client \<Rightarrow> int \<Rightarrow> 'w \<Rightarrow> bool" where
  "count_is cl n w \<longleftrightarrow> stored_key cl KeyRefCount w = Some (show_int n) \<and> stored_key cl KeyEnvoy w = Some []"

lemma count_is_same: "cm_Get cl w' = cm_Get cl w \<Longrightarrow> count_is cl n w' = count_is cl n w"
  by (simp add: count_is_def stored_key_def)

lemma count_is_frame:
  "(\<And>k. k \<in> {KeyRefCount, KeyEnvoy} \<Longrightarrow> stored_key cl k w' = stored_key cl k w) \<Longrightarrow> count_is cl n w' = count_is cl n w"
  by (simp add: count_is_def)

lemma counter_keys_distinct: "k \<in> {KeyRefCount, KeyEnvoy} \<Longrightarrow> k \<noteq> KeyDHCP \<and> k \<noteq> KeyDHCP6 \<and> k \<noteq> KeyClusterIPv4POOLS" "KeyEnvoy \<noteq> KeyRefCount"
  by (auto simp: key_defs KeyClusterIPv4POOLS_def)

lemma count_is_update:
  "lawful_client cl \<Longrightarrow> updateDHCPConfigMap cl id d f w = (r, w') \<Longrightarrow> count_is cl n w' = count_is cl n w"
  using stored_update [of cl _ d f w r w'] counter_keys_distinct(1) by (intro count_is_frame) blast

lemma count_is_init: "lawful_client cl \<Longrightarrow> count_is cl n w \<Longrightarrow> InitDHCP cl ips w = (None, ips', w') \<Longrightarrow> w' = w"
  using stored_init [of cl KeyRefCount w] by (auto simp: count_is_def)

lemma count_is_rent:
  assumes "lawful_client (cs_cm cs)" and "op_clientset c = Some cs" and "count_is (cs_cm cs) n w" and "rent env md c w = (Done, out, c', w')"
  shows "count_is (cs_cm cs) n w'"
proof -
  let ?cl = "cs_cm cs" and ?c = "use_headers md (op_ips c)"
  obtain err c1 w1 where i: "(if co_dhcp ?c = None then InitDHCP ?cl ?c w else (None, ?c, w)) = (err, c1, w1)" by (metis prod_cases3)
  obtain x w2 where r: "RentIPBaseNICAddress ?cl id (the (co_dhcp c1)) (de_nics env) w1 = (x, w2)" by fastforce
  have e: "err = None" and w': "w' = w1 \<or> w' = w2"
    using assms(2,4) i r by (auto simp: rent_def RentInnerIP_def Let_def split: option.splits sum.splits prod.splits if_splits)
  have "w1 = w" using i e count_is_init [OF assms(1,3)] by (auto split: if_splits)
  moreover have "count_is ?cl n w2 = count_is ?cl n w1"
  proof (cases "de_nics env")
    case (Inl a)
    with r show ?thesis by (simp add: RentIPBaseNICAddress_def)
  next
    case (Inr b)
    with r have "updateDHCPConfigMap ?cl id (the (co_dhcp c1)) (rent_action (the (co_dhcp c1)) b) w1 = (x, w2)" by (simp add: RentIPBaseNICAddress_def)
    from count_is_update [OF assms(1) this] show ?thesis .
  qed
  ultimately show ?thesis using w' assms(3) by auto
qed

lemma count_is_patch:
  assumes "\<And>w d. cm_Get cl (snd (dc_Patch dc w d)) = cm_Get cl w"
  shows "patch_images dc img ds w = (r, w') \<Longrightarrow> cm_Get cl w' = cm_Get cl w"
proof (induction ds arbitrary: w)
  case (Cons d ds)
  obtain x w1 where p: "dc_Patch dc w (set_images img d) = (x, w1)" by fastforce
  have "cm_Get cl w1 = cm_Get cl w" using assms [of w "set_images img d"] p by simp
  with Cons p show ?case by (auto split: option.splits)
qed simp

lemma count_is_image:
  assumes "\<And>w d. cm_Get cl (snd (dc_Patch dc w d)) = cm_Get cl w" and "setImage il dc img w = (r, w')"
  shows "cm_Get cl w' = cm_Get cl w"
  using assms(2) count_is_patch [OF assms(1)] unfolding setImage_def
  by (auto split: sum.splits option.splits list.splits prod.splits bool.splits)

lemma count_is_DoConnect:
  assumes "lawful_client (cs_cm cs)" and "lawful_patch (cs_cm cs)" and "lawful_objects (cs_cm cs) (cs_inst cs) get"
    and "\<And>w d. cm_Get (cs_cm cs) (snd (dc_Patch (he_deploy he) w d)) = cm_Get (cs_cm cs) w"
    and "count_is (cs_cm cs) n w" and "0 \<le> n" and "n < 2 ^ 62" and "DoConnect he cs img lite c w = (Ret (), c', w')"
  shows "count_is (cs_cm cs) (n + 1) w'"
proof -
  let ?cl = "cs_cm cs"
  obtain e ips w1 where i: "InitDHCP ?cl (op_ips c) w = (e, ips, w1)" by (metis prod_cases3)
  let ?c = "c\<lparr>op_ips := ips\<rparr>"
  obtain g w2 where g: "getCIDR ?cl (he_unsorted he) (he_lookupIP he) (he_apiHost he) (he_elegant he) (he_ugly he) (op_cidrs ?c) w1 = (g, w2)"
    by fastforce
  from assms(8) i g obtain cidrs c1 where e: "e = None" "g = Ret cidrs" and m: "connect_manager he cs img lite c1 w2 = (Ret (), c', w')"
    unfolding DoConnect_def by (cases e; cases g) (simp_all add: Let_def)
  have "w1 = w" using count_is_init [OF assms(1,5)] i e by simp
  moreover have "count_is ?cl n w2 = count_is ?cl n w1"
    using stored_getCIDR [OF assms(1) _ g] counter_keys_distinct(1) by (intro count_is_frame) blast
  ultimately have w2: "count_is ?cl n w2" using assms(5) by simp
  obtain x w3 where o: "createOutboundPod ?cl (cs_inst cs) img (he_rounds he) (co_namespace (op_ips c1)) w2 = (x, w3)" by fastforce
  obtain y w4 where im: "setImage (he_images he) (he_deploy he) img w3 = (y, w4)" by fastforce
  obtain h c2 where h: "connect_host he lite c1 = (h, c2)" by fastforce
  from m o im h have x: "x = None" and w4: "w' = w4"
    unfolding connect_manager_def by (cases x; cases y; cases h; simp)+
  from w2 obtain cm where cm: "cm_Get ?cl w2 mgr = Inr cm" "gomap_get (cm_data cm) KeyRefCount = Some (show_int n)" "gomap_get (cm_data cm) KeyEnvoy = Some []"
    by (auto simp: count_is_def stored_key_def split: sum.splits)
  have "data_at (cm_data cm) KeyRefCount = show_int n" using cm(2) by (simp add: data_at_def)
  moreover have "new_count (show_int n) 1 = n + 1"
  proof -
    have "atoi (show_int n) = (n, None)" using assms(6,7) by (intro atoi_show_int) simp_all
    moreover have "add64 n 1 = n + 1" using assms(6,7) add64_exact [of n 1] by simp
    ultimately show ?thesis using assms(6) by (simp add: new_count_def)
  qed
  ultimately have "count_is ?cl (n + 1) w3"
    using createOutboundPod_counted [OF assms(3,2) cm(1) o [unfolded x]] counter_keys_distinct(2) cm(3)
    by (auto simp: counted_def count_is_def stored_key_def)
  with count_is_image [OF assms(4) im] w4 count_is_same show ?thesis by metis
qed

text \<open>A clean-up takes one off the count, when the API server accepts the change.\<close>

definition counts_ok :: "'w cm_client \<Rightarrow> bool" where
  "counts_ok cl \<longleftrightarrow> (\<forall>w i. stored_key cl KeyRefCount w \<noteq> None \<longrightarrow> (\<exists>m w'. updateRefCount cl id mgr i w = ((m, None), w')))"

definition calm :: "'w cm_client \<Rightarrow> ('w, 'p, 'a) ConnectOptions \<Rightarrow> bool" where
  "calm cl c \<longleftrightarrow> (\<forall>f\<in>set (op_rollback c). \<forall>w. cm_Get cl (f w) = cm_Get cl w)"

lemma fold_calm: "\<forall>f\<in>set fs. \<forall>w. cm_Get cl (f w) = cm_Get cl w \<Longrightarrow> cm_Get cl (fold (\<lambda>f. f) fs w) = cm_Get cl w"
  by (induction fs arbitrary: w) simp_all

lemma count_is_Cleanup:
  assumes "lawful_client (cs_cm cs)" and "lawful_patch (cs_cm cs)" and "lawful_objects (cs_cm cs) (cs_inst cs) get" and "counts_ok (cs_cm cs)"
    and "op_clientset c = Some cs" and "calm (cs_cm cs) c" and "count_is (cs_cm cs) n w" and "1 < n" and "n < 2 ^ 63"
  shows "\<exists>w'. options_Cleanup ym js c w = (Ret (), w') \<and> count_is (cs_cm cs) (n - 1) w'"
proof -
  let ?cl = "cs_cm cs" and ?c = "connection_of c"
  let ?w1 = "after_release ?cl ?c w" and ?del = "ic_Delete (cs_inst cs) KPod CniNetName"
  have "count_is ?cl n ?w1 = count_is ?cl n w"
    unfolding after_release_def using stored_ReleaseIP [OF assms(1)] counter_keys_distinct(1)
    by (intro count_is_frame) (auto split: option.splits)
  moreover have "count_is ?cl n (?del ?w1) = count_is ?cl n ?w1" using lawful_Delete(2) [OF assms(3)] by (intro count_is_same) blast
  ultimately have w1: "count_is ?cl n (?del ?w1)" using assms(7) by simp
  then obtain m w2 where u: "updateRefCount ?cl id mgr (- 1) (?del ?w1) = ((m, None), w2)"
    using assms(4) unfolding counts_ok_def count_is_def by (metis option.distinct(1))
  from w1 obtain cm where cm: "cm_Get ?cl (?del ?w1) mgr = Inr cm" "gomap_get (cm_data cm) KeyRefCount = Some (show_int n)" "gomap_get (cm_data cm) KeyEnvoy = Some []"
    by (auto simp: count_is_def stored_key_def split: sum.splits)
  have d: "data_at (cm_data cm) KeyRefCount = show_int n" using cm(2) by (simp add: data_at_def)
  have m: "m = n - 1" and w2: "count_is ?cl (n - 1) w2"
    using update_count_stored [OF assms(2) cm(1) u] d cm new_count_down [of n] assms(8,9) counter_keys_distinct(2)
    by (auto simp: count_is_def stored_key_def)
  have out: "count_out ?cl (ic_Delete (cs_inst cs)) (cs_unavailable cs) (cn_namespace ?c) ?w1 = w2"
    using u m assms(8) by (simp add: count_out_def)
  let ?w3 = "fold (\<lambda>f. f) (cn_rollback ?c) w2"
  have "cm_Get ?cl ?w3 = cm_Get ?cl w2" using assms(6) by (intro fold_calm) (simp add: calm_def connection_of_def)
  then have w3: "count_is ?cl (n - 1) ?w3" using w2 count_is_same by metis
  then have "LeaveProxyResources ?cl ym js (cs_wl cs) (GetLocalTunIPv4 ?c) ?w3 = (Ret (), ?w3)"
    by (auto simp: LeaveProxyResources_def count_is_def stored_key_def split: sum.splits)
  then have "options_Cleanup ym js c w = (Ret (), ?w3)"
    using out by (simp add: options_Cleanup_def assms(5) Cleanup_def Let_def after_release_def)
  with w3 show ?thesis by blast
qed

text \<open>Both daemons reach the cluster \<open>cs\<close>, and what they do on the host and to the deployment leaves its config maps alone.\<close>

definition reaches :: "('w, 'p, 'a) clientset \<Rightarrow> ('w, 'p, 't, 'a, 'd, 'v) daemon_env \<Rightarrow> bool" where
  "reaches cs env \<longleftrightarrow>
     (\<forall>p ns. fa_clientset (de_factory env p ns) = Inr cs)
   \<and> (\<forall>w. cm_Get (cs_cm cs) (de_sshCancel env w) = cm_Get (cs_cm cs) w)
   \<and> (\<forall>w. cm_Get (cs_cm cs) (he_firewall (de_host env) w) = cm_Get (cs_cm cs) w)
   \<and> (\<forall>w d. cm_Get (cs_cm cs) (snd (dc_Patch (he_deploy (de_host env)) w d)) = cm_Get (cs_cm cs) w)"

lemma prepare_reaches:
  assumes "reaches cs env" and "prepare env [de_sshCancel env] req (new_options i req) w = (Done, c)"
  shows "op_clientset c = Some cs \<and> calm (cs_cm cs) c"
proof -
  have f: "fa_clientset (de_factory env p ns) = Inr cs" for p ns using assms(1) by (simp add: reaches_def)
  have "op_clientset c = Some cs \<and> op_rollback c = [de_sshCancel env]"
    using assms(2) by (auto simp: prepare_def Let_def InitClient_def f AddRolloutFunc_def new_options_def split: sum.splits option.splits prod.splits)
  with assms(1) show ?thesis by (simp add: calm_def reaches_def)
qed

lemma rent_rollback: "rent env md c w = (r, out, c', w') \<Longrightarrow> op_rollback c' = op_rollback c"
  by (auto simp: rent_def split: option.splits sum.splits prod.splits)

lemma connect_host_rollback:
  "connect_host he lite c = (r, c') \<Longrightarrow> set (op_rollback c') \<subseteq> insert (he_firewall he) (set (op_rollback c))"
  by (auto simp: connect_host_def connect_routes_def AddRolloutFunc_def Let_def split: sum.splits option.splits prod.splits)

lemma DoConnect_rollback:
  assumes "DoConnect he cs img lite c w = (Ret (), c', w')"
  shows "set (op_rollback c') \<subseteq> insert (he_firewall he) (set (op_rollback c))"
proof -
  obtain e ips w1 where i: "InitDHCP (cs_cm cs) (op_ips c) w = (e, ips, w1)" by (metis prod_cases3)
  obtain g w2 where g: "getCIDR (cs_cm cs) (he_unsorted he) (he_lookupIP he) (he_apiHost he) (he_elegant he) (he_ugly he) (op_cidrs c) w1 = (g, w2)"
    by fastforce
  from assms i g obtain cidrs apis where m: "connect_manager he cs img lite (c\<lparr>op_ips := ips, op_cidrs := cidrs, op_apiServerIPs := apis\<rparr>) w2 = (Ret (), c', w')"
    unfolding DoConnect_def by (cases e; cases g) (simp_all add: Let_def)
  let ?c = "c\<lparr>op_ips := ips, op_cidrs := cidrs, op_apiServerIPs := apis\<rparr>"
  obtain x w3 where o: "createOutboundPod (cs_cm cs) (cs_inst cs) img (he_rounds he) (co_namespace (op_ips ?c)) w2 = (x, w3)" by fastforce
  obtain y w4 where im: "setImage (he_images he) (he_deploy he) img w3 = (y, w4)" by fastforce
  obtain h c2 where h: "connect_host he lite ?c = (h, c2)" by fastforce
  from m o im h have "c' = c2" unfolding connect_manager_def by (cases x; cases y; cases h) simp_all
  with connect_host_rollback [OF h] show ?thesis by simp
qed

lemma count_is_connect_sudo:
  assumes "lawful_client (cs_cm cs)" and "lawful_patch (cs_cm cs)" and "lawful_objects (cs_cm cs) (cs_inst cs) get" and "reaches cs env"
    and "count_is (cs_cm cs) n (ds_world s)" and "0 \<le> n" and "n < 2 ^ 62" and "connect_sudo env md req s = (Done, s')"
  shows "count_is (cs_cm cs) (n + 1) (ds_world s')
    \<and> (\<exists>c. ds_sudo s' = (ds_sudo s)\<lparr>sv_t := True, sv_connect := Some c\<rparr> \<and> op_clientset c = Some cs \<and> calm (cs_cm cs) c)"
proof -
  obtain r1 c1 where p: "prepare env [de_sshCancel env] req (new_options (ds_next s) req) (ds_world s) = (r1, c1)" by fastforce
  obtain r2 out c2 w2 where q: "rent env md c1 (ds_world s) = (r2, out, c2, w2)" by (metis prod_cases4)
  obtain r3 c3 w3 where e: "establish env req False c2 w2 = (r3, c3, w3)" by (metis prod_cases3)
  have r1: "r1 = Done" using assms(8) p unfolding connect_sudo_def Let_def by (cases r1) (auto split: if_splits option.splits)
  have r2: "r2 = Done" using assms(8) p q r1 unfolding connect_sudo_def Let_def by (cases r2) (auto split: if_splits option.splits)
  have r3: "r3 = Done \<and> ds_world s' = w3 \<and> ds_sudo s' = (ds_sudo s)\<lparr>sv_t := True, sv_connect := Some c3\<rparr>"
    using assms(8) p q e r1 r2 unfolding connect_sudo_def Let_def by (cases r3) (auto split: if_splits option.splits)
  note c1 = prepare_reaches [OF assms(4) p [unfolded r1]]
  have c2: "op_clientset c2 = Some cs" "op_rollback c2 = op_rollback c1" using rent_keeps [OF q] rent_rollback [OF q] c1 by auto
  have w2: "count_is (cs_cm cs) n w2" by (rule count_is_rent [OF assms(1) _ assms(5) q [unfolded r2]]) (simp add: c1)
  have d: "DoConnect (de_host env) cs (cr_Image req) False c2 w2 = (Ret (), c3, w3)"
    using e r3 c2(1) by (auto simp: establish_def split: outcome.splits prod.splits)
  have patch: "\<And>w d. cm_Get (cs_cm cs) (snd (dc_Patch (he_deploy (de_host env)) w d)) = cm_Get (cs_cm cs) w" using assms(4) by (simp add: reaches_def)
  have fw: "\<forall>w. cm_Get (cs_cm cs) (he_firewall (de_host env) w) = cm_Get (cs_cm cs) w" using assms(4) by (simp add: reaches_def)
  have "calm (cs_cm cs) c3" unfolding calm_def
  proof
    fix f
    assume "f \<in> set (op_rollback c3)"
    with DoConnect_rollback [OF d] c2(2) have "f = he_firewall (de_host env) \<or> f \<in> set (op_rollback c1)" by auto
    with fw c1 show "\<forall>w. cm_Get (cs_cm cs) (f w) = cm_Get (cs_cm cs) w" by (auto simp only: calm_def)
  qed
  moreover have "op_clientset c3 = Some cs" using DoConnect_keeps [OF d] c2(1) by simp
  moreover have "count_is (cs_cm cs) (n + 1) w3" by (rule count_is_DoConnect [OF assms(1-3) patch w2 assms(6,7) d])
  ultimately show ?thesis using r3 by auto
qed

lemma count_is_drop:
  assumes "lawful_client (cs_cm cs)" and "lawful_patch (cs_cm cs)" and "lawful_objects (cs_cm cs) (cs_inst cs) get" and "counts_ok (cs_cm cs)"
    and "sv_connect svr = Some c" and "sv_clone svr = None" and "op_clientset c = Some cs" and "calm (cs_cm cs) c"
    and "count_is (cs_cm cs) n w" and "1 < n" and "n < 2 ^ 63"
  shows "\<exists>svr' w'. disconnect_server env \<lparr>dq_All = False, dq_ID = Some 0\<rparr> svr w = (Done, svr', w') \<and> count_is (cs_cm cs) (n - 1) w'"
  using count_is_Cleanup [OF assms(1-4,7-11), of "de_yaml env" "de_json env"] assms(5,6)
  by (auto simp: disconnect_server_def drop_primary_def)

text \<open>C16: a connection and its end take another client off the count.  Both daemons clean up the connection, and each clean-up takes
  one client off the count, while connecting has added only one: the number of clients that was \<open>n\<close> before is \<open>n + 1\<close> while the connection is
  open, and \<open>n - 1\<close> after it is closed.\<close>

theorem disconnect_uncounts_twice:
  assumes "lawful_client (cs_cm cs)" and "lawful_patch (cs_cm cs)" and "lawful_objects (cs_cm cs) (cs_inst cs) get" and "counts_ok (cs_cm cs)"
    and "reaches cs eu" and "reaches cs es" and "count_is (cs_cm cs) n (ds_world s)" and "2 \<le> n" and "n < 2 ^ 62"
    and "sv_connect (ds_user s) = None" and "sv_clone (ds_user s) = None" and "sv_clone (ds_sudo s) = None" and "\<not> de_gone eu"
    and "redirectToSudoDaemon eu es md req s = (Done, s1)"
  shows "count_is (cs_cm cs) (n + 1) (ds_world s1)
    \<and> (\<exists>s2. Disconnect eu es \<lparr>dq_All = False, dq_ID = Some 0\<rparr> s1 = (Done, s2) \<and> count_is (cs_cm cs) (n - 1) (ds_world s2))"
proof -
  let ?cl = "cs_cm cs" and ?s = "s\<lparr>ds_next := Suc (ds_next s)\<rparr>" and ?rq = "\<lparr>dq_All = False, dq_ID = Some (0 :: 32 word)\<rparr>"
  obtain r1 c1 where p: "prepare eu [de_sshCancel eu] req (new_options (ds_next s) req) (ds_world s) = (r1, c1)" by fastforce
  obtain r2 out c2 w2 where q: "rent eu md c1 (ds_world s) = (r2, out, c2, w2)" by (metis prod_cases4)
  obtain r3 s3 where c: "connect_sudo es (received out) req (?s\<lparr>ds_world := w2\<rparr>) = (r3, s3)" by fastforce
  have sudo: "de_sudo eu" using assms(14) by (auto simp: redirectToSudoDaemon_def split: if_splits)
  have r1: "r1 = Done" using assms(14) sudo p unfolding redirectToSudoDaemon_def Let_def by (cases r1) auto
  have r2: "r2 = Done" using assms(10,14) sudo p q r1 unfolding redirectToSudoDaemon_def Let_def by (cases r2) auto
  have r3: "r3 = Done \<and> s1 = s3\<lparr>ds_user := (ds_user s3)\<lparr>sv_t := True, sv_connect := Some c2\<rparr>\<rparr>"
    using assms(10,13,14) sudo p q c r1 r2 unfolding redirectToSudoDaemon_def Let_def by (cases r3) (auto split: if_splits)
  note c1 = prepare_reaches [OF assms(5) p [unfolded r1]]
  have c2: "op_clientset c2 = Some cs" "calm ?cl c2" using rent_keeps [OF q] rent_rollback [OF q] c1 by (auto simp: calm_def)
  have w2: "count_is ?cl n w2" by (rule count_is_rent [OF assms(1) _ assms(7) q [unfolded r2]]) (simp add: c1)
  obtain c3 where w3: "count_is ?cl (n + 1) (ds_world s3)"
    and c3: "ds_sudo s3 = (ds_sudo s)\<lparr>sv_t := True, sv_connect := Some c3\<rparr>" "op_clientset c3 = Some cs" "calm ?cl c3"
    using count_is_connect_sudo [OF assms(1-3,6) _ _ assms(9) c [unfolded conjunct1 [OF r3]]] w2 assms(8) by auto
  have user: "ds_user s3 = ds_user s" using connect_sudo_result [OF c] by simp
  obtain sudo' w4 where d: "disconnect_server es ?rq (ds_sudo s1) (ds_world s1) = (Done, sudo', w4)" and w4: "count_is ?cl n w4"
    using count_is_drop [OF assms(1-4) _ _ c3(2,3) w3, of "ds_sudo s1" es] assms(8,9,12) r3 c3(1) by auto
  obtain user' w5 where u: "disconnect_server eu ?rq (ds_user s1) w4 = (Done, user', w5)" and w5: "count_is ?cl (n - 1) w5"
    using count_is_drop [OF assms(1-4) _ _ c2 w4, of "ds_user s1" eu] assms(8,9,11) r3 user by auto
  have "\<exists>s2. Disconnect eu es ?rq s1 = (Done, s2) \<and> ds_world s2 = w5"
    using sudo assms(13) by (simp add: Disconnect_def d u Let_def)
  with w3 w5 r3 show ?thesis by auto
qed

section \<open>What the requests do to the daemons\<close>


text \<open>C39: a request that fails in the sudo daemon before \<^verbatim>\<open>DoConnect\<close> leaves the daemon occupied.  Every later request for a connection is
  then refused, and the pair of addresses that the user daemon rented for it is not given back: the cluster stays as the rental left it, and
  neither daemon remembers the addresses.\<close>

theorem failed_request_blocks:
  assumes "connect_sudo es md req s = (Failed e, s1)" and "e \<noteq> AlreadyExists" and "\<forall>x. e \<noteq> DConnect x"
    and "de_sudo eu" and "sv_connect (ds_user s1) = None"
    and "prepare eu [de_sshCancel eu] req' (new_options (ds_next s1) req') (ds_world s1) = (Done, c1)"
    and "rent eu md' c1 (ds_world s1) = (Done, out, c2, w2)"
  shows "\<exists>s2. redirectToSudoDaemon eu es' md' req' s1 = (Failed AlreadyExists, s2)
    \<and> ds_world s2 = w2 \<and> ds_user s2 = ds_user s1 \<and> ds_sudo s2 = ds_sudo s1 \<and> sv_t (ds_sudo s2)"
proof -
  obtain r1 c1' where p: "prepare es [de_sshCancel es] req (new_options (ds_next s) req) (ds_world s) = (r1, c1')" by fastforce
  obtain r2 out' c2' w2' where q: "rent es md c1' (ds_world s) = (r2, out', c2', w2')" by (metis prod_cases4)
  obtain r3 c3 w3 where d: "establish es req False c2' w2' = (r3, c3, w3)" by (metis prod_cases3)
  have est: "r3 = Failed x \<Longrightarrow> \<exists>y. x = DConnect y" for x
    using d by (auto simp: establish_def split: option.splits outcome.splits prod.splits)
  have t: "\<not> sv_t (ds_sudo s)" using assms(1,2) by (auto simp: connect_sudo_def)
  have s1: "sv_t (ds_sudo s1)"
  proof (cases "transfer es req = None \<and> r1 = Done \<and> r2 = Done")
    case True
    with assms(1,3) t p q d est show ?thesis unfolding connect_sudo_def Let_def by (cases r3) auto
  next
    case False
    show ?thesis
    proof (cases "transfer es req = None \<and> r1 = Done")
      case True
      with False assms(1) t p q show ?thesis unfolding connect_sudo_def Let_def by (cases r2) auto
    next
      case no: False
      with assms(1) t p show ?thesis unfolding connect_sudo_def Let_def by (cases r1) (auto split: option.splits)
    qed
  qed
  then have "connect_sudo es' (received out) req' (s1\<lparr>ds_next := Suc (ds_next s1), ds_world := w2\<rparr>)
      = (Failed AlreadyExists, s1\<lparr>ds_next := Suc (ds_next s1), ds_world := w2\<rparr>)" by (simp add: connect_sudo_def)
  with assms(4-7) s1 show ?thesis by (simp add: redirectToSudoDaemon_def)
qed

lemma index_from_bounds: "index_from i k cs = Some n \<Longrightarrow> k \<le> n \<and> n < k + length cs \<and> op_id (cs ! (n - k)) = i"
proof (induction i k cs rule: index_from.induct)
  case (2 i k c cs)
  then show ?case by (cases "op_id c = i") (auto simp: nth_Cons')
qed simp

lemma index_from_in: "c \<in> set cs \<Longrightarrow> index_from (op_id c) k cs \<noteq> None"
  by (induction cs arbitrary: k) auto

text \<open>C40: when the caller of a further connection in the foreground leaves, the wrong connection is ended.  The loop sends the position of the
  connection, while the numbers of the further connections start at one: the connection at position zero ends the first connection, any
  other one ends the connection before it, in both daemons, and the connection of the caller stays.\<close>

theorem finish_connect_fork_wrong:
  assumes "(daemon_step E)\<^sup>*\<^sup>* (start_state w h) s" and "\<forall>e\<in>E. \<not> de_gone e" and "\<not> de_gone eu"
    and "index_from i 0 (sv_secondary (ds_user s)) = Some n" and "length (sv_secondary (ds_user s)) < 2 ^ 31"
    and "finish_connect_fork eu es i s = (Done, s')"
  shows "index_from i 0 (sv_secondary (ds_user s')) \<noteq> None
    \<and> (if n = 0 then sv_connect (ds_user s') = None \<and> sv_connect (ds_sudo s') = None
         \<and> sv_secondary (ds_user s') = sv_secondary (ds_user s) \<and> sv_secondary (ds_sudo s') = sv_secondary (ds_sudo s)
       else sv_connect (ds_user s') = sv_connect (ds_user s)
         \<and> sv_secondary (ds_user s') = take (n - 1) (sv_secondary (ds_user s)) @ drop n (sv_secondary (ds_user s))
         \<and> sv_secondary (ds_sudo s') = take (n - 1) (sv_secondary (ds_sudo s)) @ drop n (sv_secondary (ds_sudo s)))"
proof -
  let ?l = "sv_secondary (ds_user s)" and ?rq = "\<lparr>dq_All = False, dq_ID = Some (word_of_nat n :: 32 word)\<rparr>"
  have agree: "agree s" by (rule daemon_steps_agree [OF assms(1,2) agree_start])
  then have len: "length (sv_secondary (ds_sudo s)) = length ?l" by (auto simp: agree_def dest: list_all2_lengthD)
  from index_from_bounds [OF assms(4)] have n: "n < length ?l" "op_id (?l ! n) = i" by auto
  have "Disconnect eu es ?rq s = (Done, s')" using assms(4,6) by (auto simp: finish_connect_fork_def split: if_splits)
  with Disconnect_Done [OF this _ assms(3)] have s': "ds_user s' = after_disconnect ?rq (ds_user s)" "ds_sudo s' = after_disconnect ?rq (ds_sudo s)" by auto
  have w: "sint (word_of_nat k :: 32 word) = int k" if "k < 2 ^ 31" for k
    using that by (simp add: signed_of_nat signed_take_bit_int_eq_self)
  show ?thesis
  proof (cases "n = 0")
    case True
    with s' assms(4) show ?thesis by (simp add: after_disconnect_def Let_def)
  next
    case False
    then obtain m where m: "n = Suc m" by (cases n) auto
    have i: "(word_of_nat n :: 32 word) - 1 = word_of_nat m" by (simp add: m)
    have nz: "(word_of_nat n :: 32 word) \<noteq> 0" using w [of n] n(1) assms(5) m by auto
    have "sint (word_of_nat m :: 32 word) = int m" "sint (word_of_nat (length ?l) :: 32 word) = int (length ?l)"
      using w n(1) assms(5) m by auto
    then have u: "sv_secondary (ds_user s') = take m ?l @ drop n ?l" "sv_secondary (ds_sudo s') = take m (sv_secondary (ds_sudo s)) @ drop n (sv_secondary (ds_sudo s))"
      "sv_connect (ds_user s') = sv_connect (ds_user s)"
      using s' nz n(1) by (simp_all add: after_disconnect_def Let_def i len m)
    have "?l ! n \<in> set (drop n ?l)" using n(1) by (metis Cons_nth_drop_Suc list.set_intros(1))
    with index_from_in [of "?l ! n" "sv_secondary (ds_user s')" 0] n(2) u m show ?thesis by simp
  qed
qed

section \<open>An example\<close>

text \<open>A cluster with a traffic manager, two counted clients and no rules, and daemons on a host where everything succeeds.\<close>

definition run_cm :: configmap where
  "run_cm = \<lparr>cm_name = mgr, cm_namespace = ''default'', cm_version = 1,
     cm_data = Some [KeyRefCount \<mapsto> ''2'', KeyEnvoy \<mapsto> '''', KeyClusterIPv4POOLS \<mapsto> ''10.0.0.0/8'']\<rparr>"

definition run_world :: inst_world where
  "run_world = \<lparr>iw_cms = \<lparr>st_rev = 2, st_cms = [mgr \<mapsto> run_cm]\<rparr>,
     iw_objs = [(KService, mgr) \<mapsto> mgr_service, (KDeployment, mgr) \<mapsto> ODeployment (mgr_deployment ''img'')]\<rparr>"

definition run_host :: "(inst_world, unit, nat) host_env" where
  "run_host = example_host\<lparr>
     he_deploy := \<lparr>dc_Get = \<lambda>w. Inr (mgr_deployment ''img''), dc_Infos = \<lambda>w. Inr [], dc_Patch = \<lambda>w d. (None, w), dc_Rollout = \<lambda>w. None\<rparr>,
     he_ifs := [\<lparr>if_name = ''utun0'', if_addrs = Some [''223.254.0.101/16'']\<rparr>]\<rparr>"

definition run_env :: "(inst_world, unit, unit, unit, unit, nat) daemon_env" where
  "run_env =
     \<lparr>de_sudo = True, de_user = True, de_gone = False, de_temp = (\<lambda>_. Inr ''kubeconfig''), de_ssh = (\<lambda>_ _. Inl ''ssh''), de_sshCancel = id,
      de_transfer = (\<lambda>_ _. None),
      de_factory = (\<lambda>_ ns. \<lparr>fa_config = None, fa_rest = None, fa_clientset = Inr failing_cs, fa_namespace = (ns, None)\<rparr>),
      de_query = (\<lambda>_ _. Inl ''none''), de_sel = (\<lambda>_ _. Inl ''none''), de_svc = (\<lambda>_ _. None), de_first = hd, de_nics = Inr example_nics,
      de_host = run_host, de_yaml = example_yaml,
      de_json = \<lparr>js_probe = Some, js_unprobe = Some, js_list = (\<lambda>_. None), js_unlist = (\<lambda>_. None)\<rparr>,
      de_envoy = [], de_image = ''img''\<rparr>"

definition run_req :: "bool \<Rightarrow> ConnectRequest" where
  "run_req transferred =
     \<lparr>cr_KubeconfigBytes = [], cr_Namespace = ''default'', cr_Headers = None, cr_Workloads = [], cr_ExtraCIDR = [], cr_ExtraDomain = [],
      cr_UseLocalDNS = False, cr_Engine = ''mix'', cr_SshJump = None, cr_TransferImage = transferred, cr_Image = ''img'', cr_Foreground = False,
      cr_OriginKubeconfigPath = ''config''\<rparr>"

lemma run_get: "cm_Get iw_cm run_world mgr = Inr run_cm"
  by (simp add: iw_cm_def run_world_def st_get_def run_cm_def)

lemma run_keys:
  "stored_key iw_cm KeyRefCount run_world = Some ''2''" "stored_key iw_cm KeyClusterIPv4POOLS run_world = Some ''10.0.0.0/8''"
  "stored_key iw_cm KeyEnvoy run_world = Some []"
  unfolding stored_key_def run_get by (simp_all add: run_cm_def key_defs KeyClusterIPv4POOLS_def)

lemma run_prepare:
  "prepare run_env [id] (run_req t) (new_options i (run_req t)) w
     = (Done, (new_options i (run_req t))\<lparr>op_clientset := Some failing_cs, op_rollback := [id]\<rparr>)"
  by (simp add: prepare_def run_env_def run_req_def new_options_def SshJump_path_def ParseSshFromRPC_def InitClient_def PreCheckResource_def
      AddRolloutFunc_def)

definition run_nets :: "ipnet \<times> ipnet" where
  "run_nets = (\<lparr>net_IP = addIPOffset base4 0, net_Mask = net_Mask (dm_cidr (NewDHCPManager ''default''))\<rparr>,
               \<lparr>net_IP = addIPOffset base6 0, net_Mask = net_Mask (dm_cidr6 (NewDHCPManager ''default''))\<rparr>)"

lemma run_rental:
  "\<exists>w1. RentIPBaseNICAddress iw_cm id (NewDHCPManager ''default'') (Inr example_nics) run_world = (Inr run_nets, w1)
     \<and> iw_objs w1 = iw_objs run_world \<and> (\<forall>k. k \<noteq> KeyDHCP \<and> k \<noteq> KeyDHCP6 \<longrightarrow> stored_key iw_cm k w1 = stored_key iw_cm k run_world)"
proof -
  let ?d = "NewDHCPManager ''default''" and ?ex = "isAlreadyExisted example_nics"
  have "bigForIP [127, 0, 0, 1] = 281472812449793" by code_simp
  then have "\<not> ?ex (addIPOffset base4 0)" "\<not> ?ex (addIPOffset base6 0)"
    using bigForIP_addIPOffset [of base4 0] bigForIP_addIPOffset [of base6 0] ip_Equal_big
    by (auto simp: isAlreadyExisted_def example_nics_def base4_def base6_def)
  then have l: "fst (rent_loop ?ex (NewAllocatorCIDRRange (dm_cidr ?d))) = Inr (addIPOffset base4 0)"
    "fst (rent_loop ?ex (NewAllocatorCIDRRange (dm_cidr6 ?d))) = Inr (addIPOffset base6 0)"
    using rent_loop_first [of "dm_cidr ?d" ?ex] rent_loop_first [of "dm_cidr6 ?d" ?ex]
    by (simp_all add: manager_ranges)
  have data: "data_at (cm_data run_cm) KeyDHCP = []" "data_at (cm_data run_cm) KeyDHCP6 = []" by code_simp+
  have "pool4 ?d run_cm = NewAllocatorCIDRRange (dm_cidr ?d)" "pool6 ?d run_cm = NewAllocatorCIDRRange (dm_cidr6 ?d)"
    using empty_pools [of run_cm] empty_pools6 [of run_cm] data by simp_all
  with l obtain q4 q6 where "rent_loop ?ex (pool4 ?d run_cm) = (Inr (addIPOffset base4 0), q4)" "rent_loop ?ex (pool6 ?d run_cm) = (Inr (addIPOffset base6 0), q6)"
    by (metis prod.collapse)
  then obtain c' where t: "dhcp_transform ?d (rent_action ?d example_nics) run_cm = Inr (run_nets, c')"
    by (simp add: dhcp_transform_pools rent_action_def run_nets_def)
  have "cm_name c' = mgr" "cm_version c' = 1" by (rule dhcp_transform_Inr [OF t], simp add: run_cm_def)+
  then have "\<exists>x s. st_update (iw_cms run_world) c' = (Inr x, s)"
    by (simp add: st_update_def st_put_def st_get_def Let_def run_world_def run_cm_def)
  then obtain x s where u: "st_update (iw_cms run_world) c' = (Inr x, s)" by blast
  have r: "updateDHCPConfigMap iw_cm id ?d (rent_action ?d example_nics) run_world = (Inr run_nets, run_world\<lparr>iw_cms := s\<rparr>)"
    using run_get t u by (simp add: updateDHCPConfigMap_def finish_update_def iw_cm_def)
  with stored_update [OF lawful_iw_cm _ _ r] show ?thesis by (simp add: RentIPBaseNICAddress_def)
qed

lemma run_init:
  "stored_key iw_cm KeyEnvoy w = Some e \<Longrightarrow> InitDHCP iw_cm ips w = (None, ips\<lparr>co_dhcp := Some (NewDHCPManager (co_namespace ips))\<rparr>, w)"
  by (auto simp: InitDHCP_def initDHCP_def Let_def stored_key_def split: sum.splits)

lemma run_DoConnect:
  assumes "stored_key iw_cm KeyEnvoy w = Some v" and "stored_key iw_cm KeyClusterIPv4POOLS w = Some ''10.0.0.0/8''" and "iw_objs w = iw_objs run_world"
    and "op_cidrs c = []" and "op_ExtraDomain c = []" and "co_localTunIPv4 (op_ips c) = Some n4" and "ip_String (net_IP n4) = ''223.254.0.101''"
  shows "\<exists>c' w'. DoConnect run_host failing_cs ''img'' lite c w = (Ret (), c', w')"
proof -
  from assms(1) obtain cm where cm: "cm_Get iw_cm w mgr = Inr cm" by (auto simp: stored_key_def split: sum.splits)
  have net: "cached_cidrs ''10.0.0.0/8'' [] \<noteq> []" by code_simp
  have "dhcp_Get iw_cm KeyClusterIPv4POOLS w = Inr ''10.0.0.0/8''"
    using assms(2) cm by (simp add: dhcp_Get_def stored_key_def)
  then have cidr: "getCIDR iw_cm u l ''https://10.0.0.1'' el ug [] w = (Ret (cached_cidrs ''10.0.0.0/8'' []), w)" for u l el ug
    using net by (simp add: getCIDR_def drop_api_cidrs_def api_server_without_port)
  have "st_get (iw_cms w) mgr = Inr cm" using cm by (simp add: iw_cm_def)
  from iw_counts [OF this] obtain m w1 where u: "updateRefCount iw_cm id mgr 1 w = ((m, None), w1)" by blast
  have o: "createOutboundPod iw_cm (iw_client False) ''img'' r ns w = (None, w1)" for r ns
    using assms(3) u by (simp add: createOutboundPod_def iw_client_def run_world_def count_in_def)
  have im: "setImage (he_images run_host) (he_deploy run_host) ''img'' w1 = (Ret (), w1)"
    by (simp add: setImage_def run_host_def example_host_def)
  have sub: "str_contains ''223.254.0.101/16'' ''223.254.0.101''" by code_simp
  have tun: "tun_name run_host (op_ips c1) = Inr ''utun0''" if "co_localTunIPv4 (op_ips c1) = Some n4" for c1
    using that assms(7) sub by (simp add: tun_name_def GetTunDeviceName_def run_host_def)
  have host: "\<exists>c'. connect_host run_host lite c1 = (None, c')" if "co_localTunIPv4 (op_ips c1) = Some n4" "op_ExtraDomain c1 = []" for c1 :: "(inst_world, unit, unit) ConnectOptions"
    using tun [of c1] tun [of "AddRolloutFunc (he_firewall run_host) c1"] that
    by (simp add: connect_host_def connect_routes_def free_ports_def run_host_def example_host_def addRouteDynamic_def first_listing_def
        addExtraRoute_def AddRolloutFunc_def Let_def)
  show ?thesis
    using host [of "c\<lparr>op_ips := (op_ips c)\<lparr>co_dhcp := Some (NewDHCPManager (co_namespace (op_ips c)))\<rparr>, op_cidrs := cached_cidrs ''10.0.0.0/8'' []\<rparr>"] assms(4-6) o im
    by (auto simp: DoConnect_def connect_manager_def failing_cs_def run_init [OF assms(1)] Let_def cidr run_host_def example_host_def api_server_without_port)
qed

definition run_out :: "(string \<times> string) list" where
  "run_out = [(''IPv4'', ''223.254.0.101/16''), (''IPv6'', ''efff:ffff:ffff:ffff:ffff:ffff:ffff:999a/64'')]"

definition run_options :: "nat \<Rightarrow> (inst_world, unit, unit) ConnectOptions" where
  "run_options i = (new_options i (run_req False))\<lparr>op_clientset := Some failing_cs, op_rollback := [id]\<rparr>"

lemma run_options_simps:
  "op_ips (run_options i) = \<lparr>co_namespace = ''default'', co_dhcp = None, co_localTunIPv4 = None, co_localTunIPv6 = None\<rparr>"
  "op_clientset (run_options i) = Some failing_cs" "op_cidrs (run_options i) = []" "op_ExtraDomain (run_options i) = []"
  by (simp_all add: run_options_def new_options_def run_req_def)

lemma run_env_simps:
  "de_nics run_env = Inr example_nics" "cs_cm failing_cs = iw_cm" "de_sudo run_env" "\<not> de_gone run_env" "de_sshCancel run_env = id"
  "transfer run_env (run_req False) = None" "de_host run_env = run_host" "cr_Image (run_req False) = ''img''" "\<not> cr_Foreground (run_req False)"
  by (simp_all add: run_env_def failing_cs_def transfer_def run_req_def)

lemma run_rent:
  "\<exists>ips1 w1. (\<forall>i. rent run_env None (run_options i) run_world = (Done, run_out, (run_options i)\<lparr>op_ips := ips1\<rparr>, w1))
     \<and> iw_objs w1 = iw_objs run_world \<and> (\<forall>k. k \<noteq> KeyDHCP \<and> k \<noteq> KeyDHCP6 \<longrightarrow> stored_key iw_cm k w1 = stored_key iw_cm k run_world)"
proof -
  let ?d = "NewDHCPManager ''default''" and ?ips = "\<lparr>co_namespace = ''default'', co_dhcp = None, co_localTunIPv4 = None, co_localTunIPv6 = None\<rparr>"
  obtain w1 where w1: "RentIPBaseNICAddress iw_cm id ?d (Inr example_nics) run_world = (Inr run_nets, w1)" "iw_objs w1 = iw_objs run_world"
    "\<forall>k. k \<noteq> KeyDHCP \<and> k \<noteq> KeyDHCP6 \<longrightarrow> stored_key iw_cm k w1 = stored_key iw_cm k run_world" using run_rental by blast
  have "ipnet_String (fst run_nets) = ''223.254.0.101/16''" "ipnet_String (snd run_nets) = ''efff:ffff:ffff:ffff:ffff:ffff:ffff:999a/64''" by code_simp+
  then obtain ips1 where "RentInnerIP iw_cm id (Inr example_nics) None ?ips run_world = (Inr run_out, ips1, w1)"
    using w1(1) run_init [OF run_keys(3), of ?ips] by (simp add: RentInnerIP_def use_headers_def case_prod_unfold run_out_def)
  then have "rent run_env None (run_options i) run_world = (Done, run_out, (run_options i)\<lparr>op_ips := ips1\<rparr>, w1)" for i
    by (simp add: rent_def run_options_simps run_env_simps)
  with w1(2,3) show ?thesis by blast
qed

lemma run_prepared: "prepare run_env [id] (run_req False) (new_options i (run_req False)) w = (Done, run_options i)"
  by (simp add: run_prepare run_options_def)

text \<open>The steps of both daemons up to the connection.\<close>

lemma run_steps:
  "\<exists>ips1 ips2 w1 c4 w4. rent run_env None (run_options 0) run_world = (Done, run_out, (run_options 0)\<lparr>op_ips := ips1\<rparr>, w1)
     \<and> rent run_env (received run_out) (run_options 1) w1 = (Done, [], (run_options 1)\<lparr>op_ips := ips2\<rparr>, w1)
     \<and> establish run_env (run_req False) lite ((run_options 1)\<lparr>op_ips := ips2\<rparr>) w1 = (Done, c4, w4)"
proof -
  let ?ips = "\<lparr>co_namespace = ''default'', co_dhcp = None, co_localTunIPv4 = None, co_localTunIPv6 = None\<rparr>"
  obtain ips1 w1 where rent1: "\<And>i. rent run_env None (run_options i) run_world = (Done, run_out, (run_options i)\<lparr>op_ips := ips1\<rparr>, w1)"
    and w1: "iw_objs w1 = iw_objs run_world"
    and keys: "\<And>k. k \<noteq> KeyDHCP \<Longrightarrow> k \<noteq> KeyDHCP6 \<Longrightarrow> stored_key iw_cm k w1 = stored_key iw_cm k run_world" using run_rent by blast
  obtain n4 n6 where h: "header_net [''223.254.0.101/16''] None = Some n4" "ip_String (net_IP n4) = ''223.254.0.101''"
    "header_net [''efff:ffff:ffff:ffff:ffff:ffff:ffff:999a/64''] None = Some n6"
  proof -
    have "(case header_net [''223.254.0.101/16''] None of Some n4 \<Rightarrow> ip_String (net_IP n4) = ''223.254.0.101'' | None \<Rightarrow> False)"
      "header_net [''efff:ffff:ffff:ffff:ffff:ffff:ffff:999a/64''] None \<noteq> None" by code_simp+
    then show ?thesis using that by (auto split: option.splits)
  qed
  have cnt: "stored_key iw_cm KeyRefCount w1 = Some ''2''" "stored_key iw_cm KeyClusterIPv4POOLS w1 = Some ''10.0.0.0/8''" "stored_key iw_cm KeyEnvoy w1 = Some []"
    using keys [of KeyRefCount] keys [of KeyClusterIPv4POOLS] keys [of KeyEnvoy] run_keys by (simp_all add: key_defs KeyClusterIPv4POOLS_def)
  have rcv: "received run_out = Some ([''223.254.0.101/16''], [''efff:ffff:ffff:ffff:ffff:ffff:ffff:999a/64''])" by (simp add: received_def run_out_def)
  obtain ips2 where r: "RentInnerIP iw_cm id (Inr example_nics) (received run_out) ?ips w1 = (Inr [], ips2, w1)" and ips2: "co_localTunIPv4 ips2 = Some n4"
    unfolding rcv using h run_init [OF cnt(3)] by (simp del: header_net.simps add: RentInnerIP_def use_headers_def)
  let ?c3 = "(run_options 1)\<lparr>op_ips := ips2\<rparr>"
  have rent2: "rent run_env (received run_out) (run_options 1) w1 = (Done, [], ?c3, w1)"
    using r by (simp add: rent_def run_options_simps run_env_simps)
  obtain c4 w4 where "DoConnect run_host failing_cs ''img'' lite ?c3 w1 = (Ret (), c4, w4)"
    using run_DoConnect [OF cnt(3,2) w1, of ?c3 n4 lite] ips2 h(2) by (auto simp: run_options_simps)
  then have "establish run_env (run_req False) lite ?c3 w1 = (Done, c4, w4)" by (simp add: establish_def run_env_simps run_options_simps)
  with rent1 [of 0] rent2 show ?thesis by blast
qed

lemma run_start: "ds_next (start_state w h) = 0" "ds_world (start_state w h) = w" "ds_user (start_state w h) = new_server" "ds_sudo (start_state w h) = new_server"
  by (simp_all add: start_state_def)

lemma run_connects: "\<exists>s1. redirectToSudoDaemon run_env run_env None (run_req False) (start_state run_world None) = (Done, s1)"
proof -
  let ?s = "start_state run_world None :: (inst_world, unit, unit) daemons" and ?req = "run_req False"
  obtain ips1 ips2 w1 c4 w4 where s: "rent run_env None (run_options 0) run_world = (Done, run_out, (run_options 0)\<lparr>op_ips := ips1\<rparr>, w1)"
    "rent run_env (received run_out) (run_options 1) w1 = (Done, [], (run_options 1)\<lparr>op_ips := ips2\<rparr>, w1)"
    "establish run_env ?req False ((run_options 1)\<lparr>op_ips := ips2\<rparr>) w1 = (Done, c4, w4)" using run_steps by blast
  then have "\<exists>s3. connect_sudo run_env (received run_out) ?req (?s\<lparr>ds_next := 1, ds_world := w1\<rparr>) = (Done, s3)"
    using run_prepared by (simp add: connect_sudo_def run_start new_server_def run_env_simps)
  then obtain s3 where "connect_sudo run_env (received run_out) ?req (?s\<lparr>ds_next := 1, ds_world := w1\<rparr>) = (Done, s3)" by blast
  with s run_prepared show ?thesis by (simp add: redirectToSudoDaemon_def run_start new_server_def run_env_simps)
qed

lemma run_forks:
  "\<exists>s1 c. redirectConnectForkToSudoDaemon run_env run_env None (run_req False) (start_state run_world None) = (Done, s1)
     \<and> ds_user s1 = new_server\<lparr>sv_secondary := [c]\<rparr> \<and> op_id c = 0 \<and> sv_connect (ds_sudo s1) = None \<and> sv_clone (ds_sudo s1) = None"
proof -
  let ?s = "start_state run_world None :: (inst_world, unit, unit) daemons" and ?req = "run_req False"
  obtain ips1 ips2 w1 c4 w4 where s: "rent run_env None (run_options 0) run_world = (Done, run_out, (run_options 0)\<lparr>op_ips := ips1\<rparr>, w1)"
    "rent run_env (received run_out) (run_options 1) w1 = (Done, [], (run_options 1)\<lparr>op_ips := ips2\<rparr>, w1)"
    "establish run_env ?req True ((run_options 1)\<lparr>op_ips := ips2\<rparr>) w1 = (Done, c4, w4)" using run_steps by blast
  then have "\<exists>s3. connect_fork_sudo run_env (received run_out) ?req (?s\<lparr>ds_next := 1, ds_world := w1\<rparr>) = (Done, s3)
      \<and> ds_user s3 = new_server \<and> sv_connect (ds_sudo s3) = None \<and> sv_clone (ds_sudo s3) = None"
    using run_prepared by (simp add: connect_fork_sudo_def run_start new_server_def run_env_simps numeral_2_eq_2)
  then obtain s3 where "connect_fork_sudo run_env (received run_out) ?req (?s\<lparr>ds_next := 1, ds_world := w1\<rparr>) = (Done, s3)"
    "ds_user s3 = new_server" "sv_connect (ds_sudo s3) = None" "sv_clone (ds_sudo s3) = None" by blast
  moreover have "op_id ((run_options 0)\<lparr>op_ips := ips1\<rparr>) = 0" by (simp add: run_options_def new_options_def)
  ultimately show ?thesis using s run_prepared by (simp add: redirectConnectForkToSudoDaemon_def run_start new_server_def run_env_simps)
qed

lemma run_reaches: "reaches failing_cs run_env"
  by (simp add: reaches_def run_env_def run_host_def example_host_def)

lemma run_counts_ok: "counts_ok iw_cm"
  unfolding counts_ok_def using iw_counts by (auto simp: stored_key_def iw_cm_def split: sum.splits)

lemma run_laws:
  "lawful_client (cs_cm failing_cs)" "lawful_patch (cs_cm failing_cs)" "lawful_objects (cs_cm failing_cs) (cs_inst failing_cs) iw_objs"
  "counts_ok (cs_cm failing_cs)"
  by (simp_all add: failing_cs_def lawful_iw_cm lawful_patch_iw lawful_iw run_counts_ok)

theorem disconnect_uncounts_twice_witness:
  "\<exists>s1 s2. redirectToSudoDaemon run_env run_env None (run_req False) (start_state run_world None) = (Done, s1)
    \<and> stored_key iw_cm KeyRefCount run_world = Some ''2'' \<and> stored_key iw_cm KeyRefCount (ds_world s1) = Some ''3''
    \<and> Disconnect run_env run_env \<lparr>dq_All = False, dq_ID = Some 0\<rparr> s1 = (Done, s2) \<and> stored_key iw_cm KeyRefCount (ds_world s2) = Some ''1''"
proof -
  let ?s = "start_state run_world None :: (inst_world, unit, unit) daemons"
  obtain s1 where s1: "redirectToSudoDaemon run_env run_env None (run_req False) ?s = (Done, s1)" using run_connects by blast
  have n: "show_int 1 = ''1''" "show_int 2 = ''2''" "show_int 3 = ''3''" by code_simp+
  have c: "count_is (cs_cm failing_cs) 2 (ds_world ?s)" using run_keys n by (simp add: count_is_def failing_cs_def start_state_def)
  have e: "sv_connect (ds_user ?s) = None" "sv_clone (ds_user ?s) = None" "sv_clone (ds_sudo ?s) = None" "\<not> de_gone run_env"
    by (simp_all add: start_state_def new_server_def run_env_def)
  from disconnect_uncounts_twice [OF run_laws run_reaches run_reaches c _ _ e s1] n run_keys(1) s1 show ?thesis
    by (auto simp: count_is_def failing_cs_def)
qed


text \<open>The sudo daemon fails to transfer the image, and the user daemon asks again.\<close>

definition broken_env :: "(inst_world, unit, unit, unit, unit, nat) daemon_env" where
  "broken_env = run_env\<lparr>de_transfer := \<lambda>_ _. Some ''denied''\<rparr>"

theorem failed_request_blocks_witness:
  "\<exists>s1 s2 out c2 w2. connect_sudo broken_env None (run_req True) (start_state run_world None) = (Failed (DStep ''denied''), s1)
    \<and> rent run_env None (run_options 1) run_world = (Done, out, c2, w2)
    \<and> redirectToSudoDaemon run_env run_env None (run_req False) s1 = (Failed AlreadyExists, s2) \<and> ds_world s2 = w2 \<and> sv_connect (ds_user s2) = None"
proof -
  let ?s = "start_state run_world None :: (inst_world, unit, unit) daemons"
  obtain s1 where s1: "connect_sudo broken_env None (run_req True) ?s = (Failed (DStep ''denied''), s1)"
    and k: "ds_next s1 = 1" "ds_world s1 = run_world" "sv_connect (ds_user s1) = None" "ds_user s1 = new_server"
    by (simp add: connect_sudo_def start_state_def new_server_def transfer_def run_req_def broken_env_def)
  have e: "DStep ''denied'' \<noteq> AlreadyExists" "\<forall>x. DStep ''denied'' \<noteq> DConnect x" "de_sudo run_env" "de_sshCancel run_env = id" by (simp_all add: run_env_def)
  obtain out c2 w2 where r: "rent run_env None (run_options 1) run_world = (Done, out, c2, w2)"
    using run_rent by blast
  from failed_request_blocks [OF s1 e(1-3) k(3), unfolded e(4) k(1,2), OF run_prepared r, of run_env] s1 r k(4) show ?thesis
    by (auto simp: new_server_def)
qed

theorem finish_connect_fork_wrong_witness:
  "\<exists>s c s'. redirectConnectForkToSudoDaemon run_env run_env None (run_req False) (start_state run_world None) = (Done, s)
    \<and> sv_secondary (ds_user s) = [c] \<and> finish_connect_fork run_env run_env (op_id c) s = (Done, s') \<and> sv_secondary (ds_user s') = [c]"
proof -
  obtain s c where s: "redirectConnectForkToSudoDaemon run_env run_env None (run_req False) (start_state run_world None) = (Done, s)"
    and c: "ds_user s = new_server\<lparr>sv_secondary := [c]\<rparr>" "op_id c = 0" "sv_connect (ds_sudo s) = None" "sv_clone (ds_sudo s) = None" using run_forks by blast
  have st: "(daemon_step {run_env})\<^sup>*\<^sup>* (start_state run_world None) s" using step_fork [OF s, of "{run_env}"] by auto
  have g: "\<forall>e\<in>{run_env}. \<not> de_gone e" "\<not> de_gone run_env" by (simp_all add: run_env_def)
  have i: "index_from 0 0 (sv_secondary (ds_user s)) = Some 0" "length (sv_secondary (ds_user s)) < 2 ^ 31" using c by simp_all
  have "\<exists>s'. finish_connect_fork run_env run_env 0 s = (Done, s')"
    using i(1) c by (simp add: finish_connect_fork_def Disconnect_def disconnect_server_def drop_primary_def run_env_def new_server_def)
  then obtain s' where f: "finish_connect_fork run_env run_env 0 s = (Done, s')" by blast
  from finish_connect_fork_wrong [OF st g i f] s c f show ?thesis by auto
qed

end
