(* ===== verification/Spec2Isabelle.thy ===== *)
theory Spec2Isabelle
  imports Tun_Client Cluster_Cidr Cleaner Hosts_Dns Webhook Daemon
begin

text \<open>
  \<^bold>\<open>kubevpn\<close> connects a workstation to the network of a Kubernetes cluster and routes requests for a workload to it.  This
  library models the Go sources under \<^verbatim>\<open>src/\<close> by executable HOL functions and proves what makes the parts and their composition
  correct.

  \<^bold>\<open>The program.\<close>  A client rents a pair of tunnel addresses from a pool that all clients share (a ConfigMap of the
  cluster), finds out the networks of the cluster, opens a tunnel device and exchanges IP packets with the traffic manager, a
  pod of the cluster, over TCP.  The traffic manager learns which client speaks for which address and routes packets between
  clients and the cluster.  To receive the requests for a workload a client adds a rule to a configuration in the same ConfigMap
  and puts two sidecars into the pods of the workload: a VPN container, which is itself a client of the tunnel and gets its
  addresses from the admission webhook, and an Envoy proxy, which a control plane serves with routes made from the rules.
  Leaving undoes all this.

  \<^bold>\<open>The theories\<close>, in the order of their imports:

  \<^item> \<open>Vpn_Prelude\<close>, \<open>Go_Strings\<close>, \<open>Net_IP\<close>, \<open>Ip_Text\<close>, \<open>Go_Url\<close>, \<open>Base64\<close>: what the sources use of Go.  A panic is a value of
    the type \<open>outcome\<close>, a map is a \<open>gomap\<close>, bytes are \<open>8 word\<close>, an IP address is its list of bytes.  \<open>Net_IP\<close> has \<^verbatim>\<open>net.IP\<close>,
    masks, networks and their texts with the constants of \<^verbatim>\<open>src/pkg/config/config.go\<close>; \<open>Ip_Text\<close> shows that the text of an address
    determines it, so that tables keyed by \<^verbatim>\<open>String()\<close> are tables of addresses.

  \<^item> \<open>Datagram\<close>: the frames on the TCP connections and the header of a proxied connection (\<^verbatim>\<open>core/udpovertcp.go\<close>, \<^verbatim>\<open>core/tcphandler.go\<close>,
    \<^verbatim>\<open>core/gvisortcpforwarder.go\<close>): round trips over one frame and over whole streams, and the payloads that break the framing.

  \<^item> \<open>IP_Allocator\<close>, \<open>Kube_Client\<close>, \<open>Dhcp\<close>, \<open>Dhcp_System\<close>, \<open>Dhcp_Clients\<close>: the pool (\<^verbatim>\<open>handler/dhcp.go\<close> over the vendored
    bitmap allocator) as transactions on a ConfigMap, \<open>Dhcp_System\<close> with any number of clients whose reads and writes
    interleave: no address is ever held twice; the handlers that rent and release over HTTP.

  \<^item> \<open>Nat_Table\<close>, \<open>Tun_Server\<close>: the tables and the goroutines of the traffic manager (\<^verbatim>\<open>core/tunhandler.go\<close>, \<^verbatim>\<open>core/tcphandler.go\<close>) as
    a step relation over their channels; it refines an abstract router that forwards only what it received and only to senders that
    have spoken for the destination.

  \<^item> \<open>Icmp_Packet\<close>, \<open>Tun_Client\<close>, \<open>Gvisor_Forward\<close>, \<open>Core_Route\<close>: heartbeats, the endpoint of the tunnel device, the
    user-space network stack's forwarders and handlers, and the nodes, chains and routes of the command line.

  \<^item> \<open>Control_Plane\<close>, \<open>Envoy_Rules\<close>, \<open>Sidecar\<close>, \<open>Webhook\<close>: the resources served to Envoy (\<^verbatim>\<open>controlplane/\<close>), the rules in the
    ConfigMap (\<^verbatim>\<open>handler/envoy.go\<close>), injecting and removing sidecars (\<^verbatim>\<open>mesh/\<close>, \<^verbatim>\<open>exchange/\<close>, \<^verbatim>\<open>handler/remote.go\<close>), and the
    admission webhook (\<^verbatim>\<open>webhook/\<close>).

  \<^item> \<open>Cluster_Cidr\<close>, \<open>Cleaner\<close>, \<open>Hosts_Dns\<close>: finding the networks of the cluster, the count of clients and the clean-up,
    and the hosts file and the forwarding DNS server.

  \<^item> \<open>Installer\<close>, \<open>Workloads\<close>, \<open>Routes\<close>, \<open>Connection\<close>: installing the traffic manager with all its objects and rolling back
    (\<^verbatim>\<open>createOutboundPod\<close> of \<^verbatim>\<open>handler/remote.go\<close>), the climb from what the user names to its top controller (\<^verbatim>\<open>util/pod.go\<close>,
    \<^verbatim>\<open>util/unstructure.go\<close>), the routes and host entries of a connection, and \<^verbatim>\<open>DoConnect\<close> of \<^verbatim>\<open>handler/connect.go\<close>, which composes
    the pool, the networks, the installation, the port forward and the routes, with the state that every failure leaves behind.

  \<^item> \<open>Daemon\<close>: the user daemon and the sudo daemon (\<^verbatim>\<open>daemon/action/\<close>) with their connections, as functions on the state of both,
    for requests that are handled one at a time.  In every state that requests lead to, the two list the same connections; the other
    theorems show what a failed request, the end of a connection and the end of a request in the foreground do to that state
    and to the count of clients in the cluster.

  This theory composes them: \<open>tunnel_delivers\<close> follows a packet from the device of one client to that of another, and
  \<open>mesh_request_reaches_client\<close> a rule from the client that adds it to the route Envoy takes for a request.

  \<^bold>\<open>Interfaces.\<close>  The locale \<open>learning_table\<close> is what the router relies on and is interpreted on the NAT table and on the map of
  connections; the locale of bitmap pools is interpreted on the allocator.  The Kubernetes API is a record of functions
  (\<open>cm_client\<close>) with the predicate \<open>lawful_client\<close> for its documented behaviour, in particular that an update with a
  stale version is refused; \<open>store_client\<close> shows that it can hold.  JSON and YAML libraries, Envoy, the operating system and
  what a cluster answers are parameters in the same way.  What other processes do between a read and a write is the
  parameter \<open>mid\<close>.

  \<^bold>\<open>Termination and bounds.\<close>  Every function is total but \<open>GetTopOwnerReference\<close>, a loop without a bound, whose missing
  result is the value \<open>None\<close>; no fuel is used, and waiting until a deadline is a number of rounds.  Loops that delete from the list they run over and step
  back are proved to end by the number of elements they have not passed, the renting loop because every round takes a slot of
  the range, and retry loops run over their list of waiting times.  Versions, counts, lengths of frames and offsets of the
  allocator keep the width they have in Go.

  \<^bold>\<open>Not modelled.\<close>  Code whose effect lies outside of the program: the tun devices and their drivers, installing resolvers, the
  network policy of Windows, SSH and the streams of a port forward, copying files, the Docker containers of the development mode,
  downloading upgrades, and the command line; the daemon's generated RPC code and the streams around it; and logging.  For these no
  statement could be made that is not one about the operating system, Docker or SSH.  Clones of workloads are not modelled either; the
  daemons know of them only how they are cleaned up.
\<close>

section \<open>A packet from one client to another\<close>

text \<open>Every reader of the traffic manager finds the source that the header has.\<close>

lemma tcp_source_header:
  assumes "(header_addrs (Data p) (unat (DataLength p)) :: ('e, _) outcome) = Ret (Some (s, d))"
  shows "(tcp_source p :: ('e, _) outcome) = Ret (Some s)"
proof -
  let ?b = "take (unat (DataLength p)) (Data p)"
  from assms obtain v4 where v4: "(IsIPv4 ?b :: ('e, _) outcome) = Ret v4"
    unfolding header_addrs_def Let_def bind_outcome_Ret_iff by blast
  show ?thesis
  proof (cases v4)
    case True
    with assms v4 obtain src where "(ipv4_at ?b 12 :: ('e, _) outcome) = Ret src" "src = s"
      unfolding header_addrs_def Let_def bind_outcome_Ret_iff by (auto simp: bind_outcome_Ret_iff)
    with v4 True show ?thesis by (simp add: tcp_source_def)
  next
    case False
    with assms v4 obtain src where "(IsIPv6 ?b :: ('e, _) outcome) = Ret True" "(go_slice (Data p) 8 24 :: ('e, _) outcome) = Ret src" "src = s"
      unfolding header_addrs_def Let_def bind_outcome_Ret_iff by (auto simp: bind_outcome_Ret_iff split: if_splits)
    with v4 False show ?thesis by (simp add: tcp_source_def)
  qed
qed

lemma tcp_handle_frame:
  assumes "length bytes = n" and "parse_packet bytes = Some (proto, src, dst)" and "n \<le> 65533"
    and "length pool = LargeBufferSize" and "length buf = LargeBufferSize"
  shows "\<exists>dgram u. tcp_handle c buf (fst (tunnel_WriteTo pool bytes) @ rest) conns = Ret (TcpPacket (cm_learn (ip_String src) c conns) dgram rest src)
    \<and> (readFromTCPConn dgram :: (unit, _) outcome) = Ret (Some u) \<and> ue_dst u = dst \<and> take (ue_length u) (ue_data u) = bytes"
proof -
  from tunnel_frame [OF assms(4,5), of bytes rest] assms(1,3) obtain b where
    r: "readDatagramPacketServer (fst (tunnel_WriteTo pool bytes) @ rest) buf = Ret (\<lparr>DataLength = of_nat n, Data = b\<rparr>, b, rest)"
    and b: "take n b = bytes" and n: "unat (of_nat n :: 16 word) = n" by (auto simp: newDatagramPacket_def)
  let ?p = "\<lparr>DataLength = of_nat n, Data = b\<rparr>"
  have len: "n \<le> length b" using b assms(1) by (metis length_take min.cobounded1)
  have pb: "parse_packet (take n b) = Some (proto, src, dst)" using assms(2) b by simp
  have h: "(header_addrs b m :: ('x, _) outcome) = Ret (Some (src, dst))" if "n \<le> m" "m \<le> length b" for m
    by (rule header_addrs_packet [OF pb len refl that])
  have "(tcp_source ?p :: (read_err, _) outcome) = Ret (Some src)"
    by (rule tcp_source_header) (simp add: n h len)
  then have "tcp_handle c buf (fst (tunnel_WriteTo pool bytes) @ rest) conns = Ret (TcpPacket (cm_learn (ip_String src) c conns) ?p rest src)"
    by (simp add: tcp_handle_def r)
  moreover have "(readFromTCPConn ?p :: (unit, _) outcome) = Ret (Some \<lparr>ue_from = [], ue_data = b, ue_length = n, ue_src = src, ue_dst = dst\<rparr>)"
    by (simp add: readFromTCPConn_def n h len)
  ultimately show ?thesis using b by fastforce
qed

lemma client_receive_frame:
  assumes "length bytes \<le> 65533" and "length pool = LargeBufferSize" and "length buf = LargeBufferSize"
  shows "\<exists>e. client_receive (fst (tunnel_WriteTo pool bytes) @ rest) buf = Ret (e, rest) \<and> endpoint_write e = bytes"
proof -
  from tunnel_frame [OF assms(2,3,1), of rest] obtain b where
    "readDatagramPacket (fst (tunnel_WriteTo pool bytes) @ rest) buf = Ret (newDatagramPacket bytes, b, rest)"
    "take (length bytes) b = bytes" "unat (DataLength (newDatagramPacket bytes)) = length bytes" by blast
  then show ?thesis by (simp add: client_receive_def tunnel_ReadFrom_def endpoint_write_def NewDataElem_def)
qed

text \<open>C5: a packet that one client sends over the raw tunnel to the address of another is delivered.  Whatever the
  pooled buffers held and whatever follows on the streams: the client writes the packet to its connection, the handler of that
  connection takes exactly this packet off the stream and learns its sender, the traffic manager routes it to the connection
  that was learned for its destination, and the other client writes exactly the bytes that were read from the first device to
  its own.\<close>
theorem tunnel_delivers:
  assumes "endpoint_read eng bytes n = RawElem e" and "n \<le> length bytes" and "n \<le> 65533"
    and "\<not> ip_Equal (de_src e) (de_dst e)"
    and "length poolA = LargeBufferSize" and "length bufS = LargeBufferSize"
    and "length poolS = LargeBufferSize" and "length bufB = LargeBufferSize"
    and "RouteTo i (de_dst e) tbl = None" and "cm_load (cm_learn (ip_String (de_src e)) cA conns) (ip_String (de_dst e)) = Some cB"
  shows "\<exists>packet conns' dgram u frame elem.
      client_send e = ToRemote packet
    \<and> tcp_handle cA bufS (fst (tunnel_WriteTo poolA packet) @ restA) conns = Ret (TcpPacket conns' dgram restA (de_src e))
    \<and> cm_load conns' (ip_String (de_src e)) = Some cA
    \<and> (readFromTCPConn dgram :: (unit, _) outcome) = Ret (Some u)
    \<and> send_route poolS (routePeer i (ue_dst u) tbl conns') (take (ue_length u) (ue_data u)) = TcpOut cB frame
    \<and> client_receive (frame @ restB) bufB = Ret (elem, restB)
    \<and> endpoint_write elem = take n bytes"
proof -
  let ?d = "take n bytes"
  obtain proto where p: "parse_packet ?d = Some (proto, de_src e, de_dst e)" and e: "de_data e = bytes" "de_length e = n"
    by (rule endpoint_raw [OF assms(1)])
  have len: "length ?d = n" using assms(2) by simp
  have send: "client_send e = ToRemote ?d" using assms(4) e by (simp add: client_send_def)
  let ?conns = "cm_learn (ip_String (de_src e)) cA conns"
  from tcp_handle_frame [OF len p assms(3,5,6), of cA restA conns] obtain dgram u where
    h: "tcp_handle cA bufS (fst (tunnel_WriteTo poolA ?d) @ restA) conns = Ret (TcpPacket ?conns dgram restA (de_src e))"
    and u: "(readFromTCPConn dgram :: (unit, _) outcome) = Ret (Some u)" "ue_dst u = de_dst e" "take (ue_length u) (ue_data u) = ?d" by blast
  have "routePeer i (ue_dst u) tbl ?conns = ViaTCP cB" unfolding u(2) routePeer_def using assms(9,10) by simp
  then have s: "send_route poolS (routePeer i (ue_dst u) tbl ?conns) (take (ue_length u) (ue_data u)) = TcpOut cB (fst (tunnel_WriteTo poolS ?d))"
    by (simp add: send_route_def u(3) tunnel_WriteTo_def)
  from client_receive_frame [OF _ assms(7,8), of ?d restB] len assms(3) obtain elem where
    "client_receive (fst (tunnel_WriteTo poolS ?d) @ restB) bufB = Ret (elem, restB)" "endpoint_write elem = ?d" by auto
  with send h u(1) s show ?thesis by (metis cm_load_learn)
qed

theorem tunnel_delivers_witness:
  "\<exists>packet frame elem.
      client_send (NewDataElem (example_packet[19 := 2]) 20 (IPv4 10 0 0 1) (IPv4 10 0 0 2)) = ToRemote packet
    \<and> client_receive frame example_buffer = Ret (elem, []) \<and> endpoint_write elem = example_packet[19 := 2]"
proof -
  let ?b = "example_packet[19 := 2]"
  have r: "endpoint_read EngineRaw ?b 20 = RawElem (NewDataElem ?b 20 (IPv4 10 0 0 1) (IPv4 10 0 0 2))"
    and ne: "\<not> ip_Equal (IPv4 10 0 0 1) (IPv4 10 0 0 2)"
    and s: "ip_String (IPv4 10 0 0 2) \<noteq> ip_String (IPv4 10 0 0 1)"
    and t: "RouteTo 0 (IPv4 10 0 0 2) NewNAT = None" by code_simp+
  have l: "length ?b = 20" by (simp add: example_length)
  have b: "length example_buffer = LargeBufferSize" by (simp add: example_buffer_def)
  from tunnel_delivers [OF r _ _ _ b b b b, where i = 0 and tbl = NewNAT and cA = 7 and cB = 8 and restB = "[]"
      and conns = "cm_learn (ip_String (IPv4 10 0 0 2)) 8 cm_empty"] ne s t l
  show ?thesis by (simp add: NewDataElem_def) blast
qed

section \<open>A request to a workload in the mesh\<close>

lemma request_of_client:
  assumes "lawful_envoy hm pick" and "p \<in> set (port_list a)" and "r \<in> set (Rules a)" and "same_client tunIP r" and "matches_rule hm req r"
    and "list_all (\<lambda>r'. same_client tunIP r' \<or> \<not> matches_rule hm req r') (Rules a)"
  shows "\<exists>rc\<in>set (rs_routes (virtual_To a)). \<exists>h. rc_Name rc = listener_name (Uid a) p
    \<and> pick rc req = Some (ToRoute (cluster_name (pr_LocalTunIPv4 tunIP) p) h)
    \<and> ToEndPoint (cluster_name (pr_LocalTunIPv4 tunIP) p) (pr_LocalTunIPv4 tunIP) (cp_ContainerPort p) \<in> set (rs_endpoints (virtual_To a))"
proof -
  from assms(3,5) obtain f where f: "find (matches_rule hm req) (Rules a) = Some f"
    by (cases "find (matches_rule hm req) (Rules a)") (auto simp: find_None_iff)
  then have "f \<in> set (Rules a)" "matches_rule hm req f" by (auto simp: find_Some_iff)
  with assms(6) have v4: "LocalTunIPv4 f = pr_LocalTunIPv4 tunIP" by (auto simp: list_all_iff same_client_def)
  with f request_route [OF assms(1,2), of req] show ?thesis by auto
qed

text \<open>C6: joining the mesh takes effect.  Once a client has registered headers for a workload, the control plane that reads the
  stored configuration serves the sidecars of that workload a snapshot in which the client's rule carries those headers; on every
  port of the entry a request that the rule matches, and that no other client's rule matches, is routed to a cluster
  whose endpoint is the client's own tunnel address and the port.\<close>
theorem mesh_request_reaches_client:
  assumes "lawful_client cl" and "lawful_yaml ym" and "versioned cl mid" and "distinct (map fst (entries headers))"
    and "addEnvoyConfig cl ym mid nodeID tunIP headers port w = Ret w'" and "nodeID \<noteq> []"
    and "stored cl ym (mid w) = Some v" and "distinct (map Uid v)" and "pr_ok pr" and "\<forall>u. set_ok u"
    and "lawful_envoy hm pick"
  shows "\<exists>v' ver a r. stored cl ym w' = Some v' \<and> a \<in> set v' \<and> pr_cache (ProcessFile fresh set_ok (stored cl ym w') pr) nodeID = Some (ver, virtual_To a)
    \<and> Uid a = nodeID \<and> r \<in> set (Rules a) \<and> map_of (entries headers) \<subseteq>\<^sub>m map_of (entries (Headers r))
    \<and> (\<forall>p req. p \<in> set (port_list a) \<and> matches_rule hm req r \<and> list_all (\<lambda>r'. same_client tunIP r' \<or> \<not> matches_rule hm req r') (Rules a) \<longrightarrow>
         (\<exists>rc\<in>set (rs_routes (virtual_To a)). \<exists>h. rc_Name rc = listener_name nodeID p
           \<and> pick rc req = Some (ToRoute (cluster_name (pr_LocalTunIPv4 tunIP) p) h)
           \<and> ToEndPoint (cluster_name (pr_LocalTunIPv4 tunIP) p) (pr_LocalTunIPv4 tunIP) (cp_ContainerPort p) \<in> set (rs_endpoints (virtual_To a))))"
proof -
  from addEnvoyConfig_stored [OF assms(1-3,5)] assms(7) obtain v' where v': "stored cl ym w' = Some v'"
    and add: "(add_rule nodeID tunIP headers port v :: (envoy_err, _) outcome) = Ret v'" by auto
  from add_rule_present [OF assms(4) add] obtain a r where a: "a \<in> set v'" "Uid a = nodeID" "r \<in> set (Rules a)"
    and r: "same_client tunIP r" "carries headers r" by blast
  have "distinct (map Uid v')" using add_rule_Uids [OF add] assms(8) by (auto split: if_splits)
  from process_configs_serves [OF assms(9,10) this a(1)] assms(6) a(2) obtain ver where
    "pr_cache (ProcessFile fresh set_ok (stored cl ym w') pr) nodeID = Some (ver, virtual_To a)"
    by (auto simp: ProcessFile_def v')
  with v' a r(2) request_of_client [OF assms(11) _ a(3) r(1)] show ?thesis unfolding carries_def by blast
qed

theorem mesh_request_reaches_client_witness:
  "\<exists>ver rc h. pr_cache (ProcessFile (\<lambda>_. False) (\<lambda>_. True) (stored store_client example_yaml (mesh_world 2 ''web''))
      \<lparr>pr_cache = Map.empty, pr_version = 0, pr_last = Map.empty, pr_fatal = False\<rparr>) ''deployments.apps.web'' = Some (ver, virtual_To example_entry)
    \<and> rc \<in> set (rs_routes (virtual_To example_entry))
    \<and> choose_route rc [(''user'', ''a'')] = Some (ToRoute (cluster_name ''223.254.0.101'' example_port) h)"
proof -
  let ?pr = "\<lparr>pr_cache = Map.empty, pr_version = 0, pr_last = Map.empty, pr_fatal = False\<rparr>"
  have pr: "pr_ok ?pr" by (simp add: pr_ok_def MaxInt64_def)
  have st: "stored store_client example_yaml (id (mesh_world 1 '''')) = Some []"
    and st': "stored store_client example_yaml (mesh_world (Suc 1) ''web'') = Some [example_entry]"
    by (simp_all add: stored_def mesh_get mesh_cm_def example_yaml_def)
  have m: "matches_rule header_matches [(''user'', ''a'')] (new_rule example_client (Some [(''user'', ''a'')]))"
    by (simp add: matches_rule_def new_rule_def entries_def header_matches_def)
  have d: "distinct (map fst (entries (Some [(''user'', ''a'')])))" by (simp add: entries_def)
  have rule: "Rules example_entry = [new_rule example_client (Some [(''user'', ''a'')])]" "port_list example_entry = [example_port]"
    "same_client example_client (new_rule example_client (Some [(''user'', ''a'')]))"
    by (simp_all add: example_entry_def port_list_def same_client_def new_rule_def)
  have v4: "pr_LocalTunIPv4 example_client = ''223.254.0.101''" by (simp add: example_client_def)
  have n: "''deployments.apps.web'' \<noteq> []" and u: "distinct (map Uid [])" and t: "\<forall>u. (\<lambda>_. True) u" by simp_all
  from mesh_request_reaches_client [OF lawful_store lawful_example_yaml versioned_id d mesh_add n st u pr t lawful_choose_route, of "\<lambda>_. False"]
  obtain v' ver a r where v': "stored store_client example_yaml (mesh_world (Suc 1) ''web'') = Some v'" "a \<in> set v'" "r \<in> set (Rules a)"
    and c: "pr_cache (ProcessFile (\<lambda>_. False) (\<lambda>_. True) (stored store_client example_yaml (mesh_world (Suc 1) ''web'')) ?pr)
      ''deployments.apps.web'' = Some (ver, virtual_To a)"
    and all: "\<And>p req. p \<in> set (port_list a) \<Longrightarrow> matches_rule header_matches req r \<Longrightarrow>
        list_all (\<lambda>r'. same_client example_client r' \<or> \<not> matches_rule header_matches req r') (Rules a) \<Longrightarrow>
      \<exists>rc\<in>set (rs_routes (virtual_To a)). \<exists>h. choose_route rc req = Some (ToRoute (cluster_name (pr_LocalTunIPv4 example_client) p) h)"
    by blast
  from v' st' have a: "a = example_entry" by simp
  with v'(3) rule(1) have r: "r = new_rule example_client (Some [(''user'', ''a'')])" by simp
  from all [of example_port "[(''user'', ''a'')]", unfolded a r rule v4] rule(3) m
  obtain rc h where "rc \<in> set (rs_routes (virtual_To example_entry))"
    "choose_route rc [(''user'', ''a'')] = Some (ToRoute (cluster_name ''223.254.0.101'' example_port) h)" by auto
  with c a show ?thesis by (auto simp: numeral_2_eq_2)
qed

end
